(* ===== verification/Prelude.thy ===== *)
theory Prelude
  imports Main "HOL-Library.Sublist"
begin

text \<open>
  Shared vocabulary of the development: the names of the model's types, the
  exceptions the Python code can raise or let escape, the theorem collections
  the component theories fill, and generic facts on lists that the parsers'
  length arguments use.
\<close>

section \<open>Types of the model\<close>

text \<open>
  A Python \<open>str\<close> is modelled by its UTF-8 encoding, a list of bytes
  (Isabelle's \<open>char\<close> is one byte).  Input text is read by Python as a
  \<open>str\<close>; for valid UTF-8 the encoding is injective, so two Python strings are
  equal exactly when their models are.  Where Python works on code points
  (\<open>strip\<close>, \<open>splitlines\<close>, iteration over a \<open>str\<close>) the model first groups
  the bytes into code points (theory PyStr).
\<close>

type_synonym pystr = string

type_synonym codepoint = nat

section \<open>Exceptions\<close>

text \<open>
  The exception classes of \<^verbatim>\<open>scripts/velo_api.py\<close>
  (\<open>VeloAPIError\<close> and its two subclasses) together with the builtin
  exceptions that the code of the repository lets escape:
  \<open>json.JSONDecodeError\<close> (from \<open>json.loads\<close> in the client),
  \<open>RecursionError\<close> (from the C JSON scanner on deeply nested input),
  \<open>TypeError\<close> (iterating over a decoded JSON scalar),
  \<open>KeyError\<close> (a configuration without a required key),
  \<open>ValueError\<close> (a negative \<open>time.sleep\<close>) and \<open>AttributeError\<close>
  (\<open>r.keys()\<close> on a row that is not a dict, in \<open>print_summary\<close>).  A connection error carries
  where it came from: the configuration file that did not load, or the text of
  the gRPC error.
\<close>

datatype conn_cause = ConfigLoadFailed pystr | GrpcFailure pystr

datatype py_exc =
    VeloConnectionError conn_cause
  | VeloPermissionError pystr
  | VeloAPIError pystr
  | JSONDecodeError
  | RecursionError
  | TypeError
  | KeyError pystr
  | ValueError
  | AttributeError

text \<open>\<open>except VeloAPIError\<close> catches the base class and both subclasses.\<close>

fun is_velo_api_error :: "py_exc \<Rightarrow> bool" where
  "is_velo_api_error (VeloConnectionError _) = True"
| "is_velo_api_error (VeloPermissionError _) = True"
| "is_velo_api_error (VeloAPIError _) = True"
| "is_velo_api_error _ = False"

section \<open>Theorem collections\<close>

text \<open>
  \<open>consumes\<close> collects the facts that a parser returns a strictly shorter
  (or not longer) rest of its input; the termination proofs of the scanning
  loops use them.  \<open>py_str_simps\<close> collects the evaluation rules of the
  Python string helpers that the witnesses use on concrete text.
\<close>

named_theorems consumes "length facts of parsers"
named_theorems py_str_simps "evaluation rules of Python string helpers"

section \<open>Lists\<close>

lemma length_dropWhile_le [consumes]: "length (dropWhile P xs) \<le> length xs"
  by (induction xs) auto

lemma length_dropWhile_tl_less [consumes]:
  "dropWhile P xs \<noteq> [] \<Longrightarrow> length (tl (dropWhile P xs)) < length xs"
  using length_dropWhile_le [of P xs] by (cases "dropWhile P xs") auto

lemma dropWhile_append_split:
  "\<exists>w. xs = w @ dropWhile P xs \<and> (\<forall>c\<in>set w. P c)"
  by (rule exI [of _ "takeWhile P xs"]) (auto dest: set_takeWhileD)

lemma strict_suffix_ConsI: "suffix r s \<Longrightarrow> strict_suffix r (c # s)"
  by (auto simp: strict_suffix_def suffix_def)

lemma strict_suffix_via: "strict_suffix r t \<Longrightarrow> suffix t s \<Longrightarrow> strict_suffix r (c # s)"
  by (meson strict_suffix_ConsI suffix_order.dual_order.strict_implies_order suffix_order.trans)

lemma suffix_tl_skip: "suffix (tl (dropWhile P x)) x"
  by (meson suffix_dropWhile suffix_order.trans suffix_tl)

lemma suffix_skip_tl_skip: "suffix (dropWhile Q (tl (dropWhile P x))) x"
  by (meson suffix_dropWhile suffix_order.trans suffix_tl_skip)

section \<open>Characters and numbers\<close>

lemma of_char_char_of_small [simp]: "n < 256 \<Longrightarrow> of_char (char_of n) = (n :: nat)"
  by (simp add: take_bit_nat_eq_self)

lemma add_mod_zero_left: "n mod m = 0 \<Longrightarrow> (n + x) mod (m::nat) = x mod m"
  by (metis add_0 mod_add_left_eq)

lemma div_mod_split: "(u::nat) div (b * k) * b + u div k mod b = u div k"
proof -
  have "u div (b * k) = u div k div b" by (metis div_mult2_eq mult.commute)
  then show ?thesis by simp
qed

end
