(* ===== verification/PyStr.thy ===== *)
theory PyStr
  imports Prelude
begin

text \<open>
  The Python \<open>str\<close> operations that the repository's code calls:
  \<open>str.strip\<close>, \<open>str.splitlines\<close>, \<open>str.startswith\<close>, the substring test
  \<open>in\<close> and \<open>sep.join\<close>.  They are library code, modelled from the Python
  documentation (CPython 3.11): a \<open>str\<close> is a sequence of code points, here
  held as its UTF-8 bytes; \<open>code_points\<close> regroups the bytes into code
  points where the operation depends on them.
\<close>

section \<open>UTF-8 and code points\<close>

definition utf8_bytes :: "codepoint \<Rightarrow> nat list" where
  "utf8_bytes n =
     (if n < 0x80 then [n]
      else if n < 0x800 then [0xC0 + n div 0x40, 0x80 + n mod 0x40]
      else if n < 0x10000 then [0xE0 + n div 0x1000, 0x80 + n div 0x40 mod 0x40, 0x80 + n mod 0x40]
      else [0xF0 + n div 0x40000, 0x80 + n div 0x1000 mod 0x40, 0x80 + n div 0x40 mod 0x40,
            0x80 + n mod 0x40])"

definition utf8_encode :: "codepoint \<Rightarrow> pystr" where
  "utf8_encode n = map char_of (utf8_bytes n)"

text \<open>Number of bytes of the code point that starts with a given lead byte.\<close>

definition utf8_width :: "char \<Rightarrow> nat" where
  "utf8_width c =
     (let b = of_char c :: nat in
      if b < 0xC0 then 1 else if b < 0xE0 then 2 else if b < 0xF0 then 3 else 4)"

fun code_points :: "pystr \<Rightarrow> pystr list" where
  "code_points [] = []"
| "code_points (c # cs) =
     (c # take (utf8_width c - 1) cs) # code_points (drop (utf8_width c - 1) cs)"

text \<open>The value of one code point from its UTF-8 bytes.\<close>

fun utf8_value :: "nat list \<Rightarrow> codepoint" where
  "utf8_value [b] = b"
| "utf8_value [b1, b2] = (b1 mod 0x20) * 0x40 + b2 mod 0x40"
| "utf8_value [b1, b2, b3] = (b1 mod 0x10) * 0x1000 + (b2 mod 0x40) * 0x40 + b3 mod 0x40"
| "utf8_value [b1, b2, b3, b4] =
     (b1 mod 8) * 0x40000 + (b2 mod 0x40) * 0x1000 + (b3 mod 0x40) * 0x40 + b4 mod 0x40"
| "utf8_value _ = 0"

text \<open>
  A Unicode scalar value; a Python \<open>str\<close> of valid text is a sequence of
  them, and \<open>str_of_cps\<close> is its model.
\<close>

definition is_scalar :: "codepoint \<Rightarrow> bool" where
  "is_scalar u \<longleftrightarrow> u < 0x110000 \<and> \<not> (0xD800 \<le> u \<and> u \<le> 0xDFFF)"

definition str_of_cps :: "codepoint list \<Rightarrow> pystr" where
  "str_of_cps cps = concat (map utf8_encode cps)"

section \<open>Whitespace and line boundaries\<close>

text \<open>The code points for which \<open>str.isspace\<close> holds, and the line boundaries of \<open>str.splitlines\<close>.\<close>

definition py_space_cps :: "codepoint list" where
  "py_space_cps =
     [0x9, 0xA, 0xB, 0xC, 0xD, 0x1C, 0x1D, 0x1E, 0x1F, 0x20, 0x85, 0xA0, 0x1680,
      0x2000, 0x2001, 0x2002, 0x2003, 0x2004, 0x2005, 0x2006, 0x2007, 0x2008, 0x2009,
      0x200A, 0x2028, 0x2029, 0x202F, 0x205F, 0x3000]"

definition py_linebreak_cps :: "codepoint list" where
  "py_linebreak_cps = [0xA, 0xB, 0xC, 0xD, 0x1C, 0x1D, 0x1E, 0x85, 0x2028, 0x2029]"

text \<open>The same sets as UTF-8 byte strings (\<open>py_space_strs_utf8\<close> below checks the tables).\<close>

definition py_space_strs :: "pystr list" where
  "py_space_strs =
     [[CHR 0x09], [CHR 0x0A], [CHR 0x0B], [CHR 0x0C], [CHR 0x0D], [CHR 0x1C], [CHR 0x1D],
      [CHR 0x1E], [CHR 0x1F], [CHR 0x20], [CHR 0xC2, CHR 0x85], [CHR 0xC2, CHR 0xA0],
      [CHR 0xE1, CHR 0x9A, CHR 0x80], [CHR 0xE2, CHR 0x80, CHR 0x80], [CHR 0xE2, CHR 0x80, CHR 0x81],
      [CHR 0xE2, CHR 0x80, CHR 0x82], [CHR 0xE2, CHR 0x80, CHR 0x83], [CHR 0xE2, CHR 0x80, CHR 0x84],
      [CHR 0xE2, CHR 0x80, CHR 0x85], [CHR 0xE2, CHR 0x80, CHR 0x86], [CHR 0xE2, CHR 0x80, CHR 0x87],
      [CHR 0xE2, CHR 0x80, CHR 0x88], [CHR 0xE2, CHR 0x80, CHR 0x89], [CHR 0xE2, CHR 0x80, CHR 0x8A],
      [CHR 0xE2, CHR 0x80, CHR 0xA8], [CHR 0xE2, CHR 0x80, CHR 0xA9], [CHR 0xE2, CHR 0x80, CHR 0xAF],
      [CHR 0xE2, CHR 0x81, CHR 0x9F], [CHR 0xE3, CHR 0x80, CHR 0x80]]"

definition py_linebreak_strs :: "pystr list" where
  "py_linebreak_strs =
     [[CHR 0x0A], [CHR 0x0B], [CHR 0x0C], [CHR 0x0D], [CHR 0x1C], [CHR 0x1D], [CHR 0x1E],
      [CHR 0xC2, CHR 0x85], [CHR 0xE2, CHR 0x80, CHR 0xA8], [CHR 0xE2, CHR 0x80, CHR 0xA9]]"

definition is_py_space :: "pystr \<Rightarrow> bool" where
  "is_py_space g \<longleftrightarrow> g \<in> set py_space_strs"

definition is_py_linebreak :: "pystr \<Rightarrow> bool" where
  "is_py_linebreak g \<longleftrightarrow> g \<in> set py_linebreak_strs"

section \<open>The operations\<close>

text \<open>\<open>s.strip()\<close>: remove leading and trailing whitespace code points.\<close>

definition py_strip :: "pystr \<Rightarrow> pystr" where
  "py_strip s =
     concat (rev (dropWhile is_py_space (rev (dropWhile is_py_space (code_points s)))))"

text \<open>
  \<open>s.splitlines()\<close>: split at every line boundary, \<open>\r\n\<close> counting as one;
  the boundaries are dropped and a boundary at the very end opens no new line.
  \<open>acc\<close> holds the code points of the current line.
\<close>

fun split_cps :: "pystr list \<Rightarrow> pystr \<Rightarrow> pystr list" where
  "split_cps [] acc = (if acc = [] then [] else [acc])"
| "split_cps (g # gs) acc =
     (if g = [CHR 0x0D] \<and> gs \<noteq> [] \<and> hd gs = [CHR 0x0A] then acc # split_cps (tl gs) []
      else if is_py_linebreak g then acc # split_cps gs []
      else split_cps gs (acc @ g))"

definition py_splitlines :: "pystr \<Rightarrow> pystr list" where
  "py_splitlines s = split_cps (code_points s) []"

definition py_startswith :: "pystr \<Rightarrow> pystr \<Rightarrow> bool" where
  "py_startswith s p \<longleftrightarrow> take (length p) s = p"

text \<open>\<open>p in s\<close> for strings: \<open>p\<close> occurs in \<open>s\<close> as a substring.\<close>

fun py_contains :: "pystr \<Rightarrow> pystr \<Rightarrow> bool" where
  "py_contains p [] \<longleftrightarrow> p = []"
| "py_contains p (c # cs) \<longleftrightarrow> py_startswith (c # cs) p \<or> py_contains p cs"

text \<open>\<open>sep.join(xs)\<close>.\<close>

fun py_join :: "pystr \<Rightarrow> pystr list \<Rightarrow> pystr" where
  "py_join sep [] = []"
| "py_join sep [x] = x"
| "py_join sep (x # y # zs) = x @ sep @ py_join sep (y # zs)"

section \<open>Facts\<close>

lemma concat_code_points [simp]: "concat (code_points s) = s"
  by (induction s rule: code_points.induct) simp_all

lemma code_points_nonempty: "g \<in> set (code_points s) \<Longrightarrow> g \<noteq> []"
  by (induction s rule: code_points.induct) auto

lemma py_startswith_append [simp]: "py_startswith (p @ s) p"
  by (simp add: py_startswith_def)

lemma py_startswith_iff: "py_startswith s p \<longleftrightarrow> (\<exists>b. s = p @ b)"
  by (auto simp: py_startswith_def) (metis append_take_drop_id)

lemma py_contains_iff: "py_contains p s \<longleftrightarrow> (\<exists>a b. s = a @ p @ b)"
proof (induction s)
  case Nil
  then show ?case by simp
next
  case (Cons c cs)
  have "(\<exists>a b. c # cs = a @ p @ b) \<longleftrightarrow>
                   (\<exists>b. c # cs = p @ b) \<or> (\<exists>a b. cs = a @ p @ b)"
    by (auto simp: Cons_eq_append_conv)
  then show ?case using Cons.IH by (simp add: py_startswith_iff)
qed

lemma py_join_Cons: "py_join sep (x # xs) = (if xs = [] then x else x @ sep @ py_join sep xs)"
  by (cases xs) simp_all

lemma py_join_Cons_Cons: "py_join sep (x # y # zs) = x @ sep @ py_join sep (y # zs)"
  by simp

lemma py_join_Cons_ex: "\<exists>r. py_join sep (y # zs) = y @ r"
  by (cases zs) simp_all

lemma py_space_strs_utf8: "map (map of_char) py_space_strs = map utf8_bytes py_space_cps"
  by (simp add: py_space_strs_def py_space_cps_def utf8_bytes_def)

lemma py_linebreak_strs_utf8: "map (map of_char) py_linebreak_strs = map utf8_bytes py_linebreak_cps"
  by (simp add: py_linebreak_strs_def py_linebreak_cps_def utf8_bytes_def)

lemmas py_str_evals [py_str_simps] =
  py_strip_def py_splitlines_def py_startswith_def is_py_space_def is_py_linebreak_def
  py_space_strs_def py_linebreak_strs_def utf8_width_def

subsection \<open>UTF-8\<close>

lemma utf8_bytes_lt: "u < 0x110000 \<Longrightarrow> b \<in> set (utf8_bytes u) \<Longrightarrow> b < 256"
  by (auto simp: utf8_bytes_def split: if_splits)

lemma map_of_char_utf8_encode: "u < 0x110000 \<Longrightarrow> map of_char (utf8_encode u) = utf8_bytes u"
  by (auto simp: utf8_encode_def intro!: map_idI dest: utf8_bytes_lt)

lemma utf8_width_encode: "u < 0x110000 \<Longrightarrow> utf8_width (hd (utf8_encode u)) = length (utf8_bytes u)"
  by (auto simp: utf8_width_def utf8_encode_def utf8_bytes_def Let_def)

lemma utf8_encode_ne: "utf8_encode u \<noteq> []"
  by (simp add: utf8_encode_def utf8_bytes_def)

lemma code_points_utf8_encode:
  assumes "u < 0x110000"
  shows "code_points (utf8_encode u @ rest) = utf8_encode u # code_points rest"
proof -
  obtain c cs where e: "utf8_encode u = c # cs" using utf8_encode_ne by (cases "utf8_encode u") auto
  have "length (utf8_encode u) = length (utf8_bytes u)" by (simp add: utf8_encode_def)
  then have "utf8_width c - 1 = length cs"
    using utf8_width_encode [OF assms] e by simp
  then show ?thesis by (simp add: e)
qed

lemma code_points_str_of_cps:
  "\<forall>u\<in>set cps. u < 0x110000 \<Longrightarrow> code_points (str_of_cps cps) = map utf8_encode cps"
  by (induction cps) (simp_all add: str_of_cps_def code_points_utf8_encode [where rest = "[]", simplified]
                                    code_points_utf8_encode)

lemma utf8_value_bytes: "u < 0x110000 \<Longrightarrow> utf8_value (utf8_bytes u) = u"
proof -
  assume u: "u < 0x110000"
  have two: "u div 64 * 64 + u mod 64 = u" by simp
  have "u div 4096 * 64 + u div 64 mod 64 = u div 64" using div_mod_split [of u 64 64] by simp
  then have "(u div 4096 * 64 + u div 64 mod 64) * 64 + u mod 64 = u" using two by simp
  then have three: "u div 4096 * 4096 + u div 64 mod 64 * 64 + u mod 64 = u"
    by (simp add: distrib_right)
  show ?thesis
  proof (cases "u < 0x80")
    case True then show ?thesis by (simp add: utf8_bytes_def)
  next
    case b1: False
    show ?thesis
    proof (cases "u < 0x800")
      case True
      then have "u div 64 < 32" by simp
      with True b1 two show ?thesis by (simp add: utf8_bytes_def add_mod_zero_left)
    next
      case b2: False
      show ?thesis
      proof (cases "u < 0x10000")
        case True
        then have "u div 4096 < 16" by simp
        with True b1 b2 three show ?thesis by (simp add: utf8_bytes_def add_mod_zero_left)
      next
        case False
        have "u div 262144 < 8" using u by simp
        moreover have "u div 262144 * 262144 + u div 4096 mod 64 * 4096 + u div 64 mod 64 * 64 + u mod 64 = u"
        proof -
          have "u div 262144 * 64 + u div 4096 mod 64 = u div 4096" using div_mod_split [of u 64 4096] by simp
          then have "(u div 262144 * 64 + u div 4096 mod 64) * 4096 + u div 64 mod 64 * 64 + u mod 64 = u"
            using three by simp
          then show ?thesis by (simp add: distrib_right)
        qed
        ultimately show ?thesis using False b1 b2 by (simp add: utf8_bytes_def add_mod_zero_left)
      qed
    qed
  qed
qed

end
