(* ===== verification/Json.thy ===== *)
theory Json
  imports PyStr
begin

text \<open>
  Python's \<open>json\<close> decoder as CPython 3.11 runs it (the C scanner of
  \<^verbatim>\<open>Modules/_json.c\<close>, behind \<open>json.JSONDecoder.raw_decode\<close> and
  \<open>json.loads\<close>), which both ingestion paths of the repository call.  It is
  library code, modelled from its documented behaviour.  The decoder reads
  bytes of the UTF-8 model of a \<open>str\<close>; a JSON string's value is again held
  as UTF-8, with \<open>\uXXXX\<close> escapes encoded (surrogate pairs joined, a lone
  surrogate encoded as three bytes).  Numbers keep their kind: an integer
  literal is its \<open>int\<close>, any other number is kept as its lexeme (Python's
  \<open>float(lexeme)\<close> is a function of it).  An object is the association list
  of a Python \<open>dict\<close>: a repeated key overwrites the value in place.
\<close>

section \<open>Values and results\<close>

datatype json =
    JNull
  | JBool bool
  | JInt int
  | JFloat pystr
  | JStr pystr
  | JArr "json list"
  | JObj "(pystr \<times> json) list"

text \<open>
  The outcome of a decode: a value and the rest of the input (\<open>DOk\<close>, the
  pair \<open>(obj, end)\<close> of \<open>raw_decode\<close>), \<open>json.JSONDecodeError\<close>
  (\<open>DErr\<close>), \<open>RecursionError\<close> from the scanner's nesting check
  (\<open>DRec\<close>), or the model's fuel running out (\<open>DFuel\<close>; shown below
  never to happen with the fuel \<open>raw_decode\<close> gives).
\<close>

datatype 'a dres = DOk 'a pystr | DErr | DRec | DFuel

section \<open>Lexical helpers\<close>

definition is_json_ws :: "char \<Rightarrow> bool" where
  "is_json_ws c \<longleftrightarrow> c \<in> {CHR '' '', CHR 0x09, CHR 0x0A, CHR 0x0D}"

abbreviation skip_ws :: "pystr \<Rightarrow> pystr" where
  "skip_ws \<equiv> dropWhile is_json_ws"

definition is_digit :: "char \<Rightarrow> bool" where
  "is_digit c \<longleftrightarrow> c \<in> set ''0123456789''"

definition digit_val :: "char \<Rightarrow> nat" where
  "digit_val c = of_char c - 48"

definition hex_val :: "char \<Rightarrow> nat option" where
  "hex_val c =
     (let n = of_char c :: nat in
      if 48 \<le> n \<and> n \<le> 57 then Some (n - 48)
      else if 97 \<le> n \<and> n \<le> 102 then Some (n - 87)
      else if 65 \<le> n \<and> n \<le> 70 then Some (n - 55)
      else None)"

text \<open>Four hexadecimal digits, as the scanner's \<open>\uXXXX\<close> loop reads them.\<close>

definition hex4 :: "pystr \<Rightarrow> nat option" where
  "hex4 s =
     (if length s < 4 then None
      else case those (map hex_val (take 4 s)) of
        None \<Rightarrow> None
      | Some ds \<Rightarrow> Some (foldl (\<lambda>n d. 16 * n + d) 0 ds))"

definition nat_of_digits :: "pystr \<Rightarrow> nat" where
  "nat_of_digits ds = foldl (\<lambda>n c. 10 * n + digit_val c) 0 ds"

definition is_high_surrogate :: "nat \<Rightarrow> bool" where
  "is_high_surrogate u \<longleftrightarrow> 0xD800 \<le> u \<and> u \<le> 0xDBFF"

definition is_low_surrogate :: "nat \<Rightarrow> bool" where
  "is_low_surrogate u \<longleftrightarrow> 0xDC00 \<le> u \<and> u \<le> 0xDFFF"

definition escape_byte :: "char \<Rightarrow> char option" where
  "escape_byte e =
     (if e = CHR ''\"'' then Some (CHR ''\"'')
      else if e = CHR 0x5C then Some (CHR 0x5C)
      else if e = CHR ''/'' then Some (CHR ''/'')
      else if e = CHR ''b'' then Some (CHR 0x08)
      else if e = CHR ''f'' then Some (CHR 0x0C)
      else if e = CHR ''n'' then Some (CHR 0x0A)
      else if e = CHR ''r'' then Some (CHR 0x0D)
      else if e = CHR ''t'' then Some (CHR 0x09)
      else None)"

section \<open>Strings: \<open>scanstring\<close>\<close>

text \<open>
  The body of a string literal after its opening quote, with the value read so
  far in \<open>acc\<close>.  A control character (below 0x20) is an error (the
  decoder's default \<open>strict=True\<close>); a high surrogate escape followed by a
  low surrogate escape is joined into one code point.
\<close>

fun scan_str :: "pystr \<Rightarrow> pystr \<Rightarrow> (pystr \<times> pystr) option" where
  "scan_str acc [] = None"
| "scan_str acc (c # cs) =
     (if c = CHR ''\"'' then Some (acc, cs)
      else if c = CHR 0x5C then
        (case cs of
          [] \<Rightarrow> None
        | e # r \<Rightarrow>
            if e = CHR ''u'' then
              (case hex4 r of
                None \<Rightarrow> None
              | Some u \<Rightarrow>
                  (let r1 = drop 4 r in
                   if is_high_surrogate u \<and> take 2 r1 = [CHR 0x5C, CHR ''u'']
                      \<and> (case hex4 (drop 2 r1) of Some u2 \<Rightarrow> is_low_surrogate u2 | None \<Rightarrow> False)
                   then scan_str (acc @ utf8_encode (0x10000 + (u - 0xD800) * 0x400
                                     + (the (hex4 (drop 2 r1)) - 0xDC00))) (drop 6 r1)
                   else scan_str (acc @ utf8_encode u) r1))
            else
              (case escape_byte e of
                None \<Rightarrow> None
              | Some b \<Rightarrow> scan_str (acc @ [b]) r))
      else if of_char c < (0x20::nat) then None
      else scan_str (acc @ [c]) cs)"

section \<open>Numbers: \<open>_match_number_unicode\<close>\<close>

text \<open>
  The integer part: an optional minus sign, then \<open>0\<close> or a digit 1--9
  followed by digits.
\<close>

definition int_part :: "pystr \<Rightarrow> (pystr \<times> pystr) option" where
  "int_part s =
     (let (sg, s1) = (if s \<noteq> [] \<and> hd s = CHR ''-'' then (''-'', tl s) else ([], s)) in
      case s1 of
        [] \<Rightarrow> None
      | c # cs \<Rightarrow>
          if c = CHR ''0'' then Some (sg @ [c], cs)
          else if is_digit c then Some (sg @ c # takeWhile is_digit cs, dropWhile is_digit cs)
          else None)"

text \<open>A fraction is read only when a digit follows the point.\<close>

definition frac_part :: "pystr \<Rightarrow> pystr \<times> pystr" where
  "frac_part s =
     (case s of
       p # d # r \<Rightarrow>
         if p = CHR ''.'' \<and> is_digit d then (p # d # takeWhile is_digit r, dropWhile is_digit r)
         else ([], s)
     | _ \<Rightarrow> ([], s))"

text \<open>An exponent is read only when a digit follows \<open>e\<close> and its sign; otherwise the scanner backtracks to the \<open>e\<close>.\<close>

definition exp_part :: "pystr \<Rightarrow> pystr \<times> pystr" where
  "exp_part s =
     (case s of
       e # r \<Rightarrow>
         if e = CHR ''e'' \<or> e = CHR ''E'' then
           (let (sg, r1) = (if r \<noteq> [] \<and> (hd r = CHR ''+'' \<or> hd r = CHR ''-'') then ([hd r], tl r) else ([], r)) in
            if r1 \<noteq> [] \<and> is_digit (hd r1) then (e # sg @ takeWhile is_digit r1, dropWhile is_digit r1)
            else ([], s))
         else ([], s)
     | [] \<Rightarrow> ([], s))"

definition int_of_lexeme :: "pystr \<Rightarrow> int" where
  "int_of_lexeme ip =
     (if ip \<noteq> [] \<and> hd ip = CHR ''-'' then - int (nat_of_digits (tl ip)) else int (nat_of_digits ip))"

definition scan_number :: "pystr \<Rightarrow> json dres" where
  "scan_number s =
     (case int_part s of
       None \<Rightarrow> DErr
     | Some (ip, r) \<Rightarrow>
         (let (fp, r1) = frac_part r; (ep, r2) = exp_part r1 in
          if fp = [] \<and> ep = [] then DOk (JInt (int_of_lexeme ip)) r2
          else DOk (JFloat (ip @ fp @ ep)) r2))"

section \<open>Objects as dictionaries\<close>

text \<open>\<open>d[k] = v\<close> on a Python dict: a new key goes last, an existing key keeps its place.\<close>

definition dict_set :: "(pystr \<times> json) list \<Rightarrow> pystr \<Rightarrow> json \<Rightarrow> (pystr \<times> json) list" where
  "dict_set kvs k v =
     (if k \<in> set (map fst kvs) then map (\<lambda>(k', v'). if k' = k then (k', v) else (k', v')) kvs
      else kvs @ [(k, v)])"

text \<open>
  The values a Python decoder can produce: every object has distinct keys,
  at every depth (a decoded object is a \<open>dict\<close>).
\<close>

fun wf_json :: "json \<Rightarrow> bool" where
  "wf_json (JArr xs) = list_all wf_json xs"
| "wf_json (JObj kvs) = (distinct (map fst kvs) \<and> list_all (\<lambda>kv. wf_json (snd kv)) kvs)"
| "wf_json _ = True"

text \<open>A string value after its opening quote.\<close>

definition scan_string :: "pystr \<Rightarrow> json dres" where
  "scan_string cs = (case scan_str [] cs of None \<Rightarrow> DErr | Some (v, r) \<Rightarrow> DOk (JStr v) r)"

text \<open>
  The named constants, tested in the scanner's order, and otherwise a number.
  (\<open>-Infinity\<close> is tested before the number scanner sees the sign.)
\<close>

definition scan_literal :: "pystr \<Rightarrow> json dres" where
  "scan_literal s =
     (if py_startswith s ''null'' then DOk JNull (drop 4 s)
      else if py_startswith s ''true'' then DOk (JBool True) (drop 4 s)
      else if py_startswith s ''false'' then DOk (JBool False) (drop 5 s)
      else if py_startswith s ''NaN'' then DOk (JFloat ''NaN'') (drop 3 s)
      else if py_startswith s ''Infinity'' then DOk (JFloat ''Infinity'') (drop 8 s)
      else if py_startswith s ''-Infinity'' then DOk (JFloat ''-Infinity'') (drop 9 s)
      else scan_number s)"

section \<open>Values: \<open>scan_once_unicode\<close>\<close>

text \<open>
  \<open>scan_once f d s\<close> decodes one value at the start of \<open>s\<close>.  \<open>d\<close> is what
  is left of the interpreter's recursion allowance: entering an array or an
  object when it is zero raises \<open>RecursionError\<close>.  \<open>f\<close> is fuel.  The
  order of the tests is the scanner's: string, object, array, the literals,
  then a number.  \<open>parse_array\<close> and \<open>parse_object\<close> read the elements
  after the opening bracket and its whitespace, appending to \<open>acc\<close>.
\<close>

fun scan_once :: "nat \<Rightarrow> nat \<Rightarrow> pystr \<Rightarrow> json dres"
and parse_array :: "nat \<Rightarrow> nat \<Rightarrow> json list \<Rightarrow> pystr \<Rightarrow> json dres"
and parse_object :: "nat \<Rightarrow> nat \<Rightarrow> (pystr \<times> json) list \<Rightarrow> pystr \<Rightarrow> json dres"
where
  "scan_once 0 d s = DFuel"
| "scan_once (Suc f) d s =
     (case s of
       [] \<Rightarrow> DErr
     | c # cs \<Rightarrow>
         if c = CHR ''\"'' then scan_string cs
         else if c = CHR ''{'' then
           (if d = 0 then DRec
            else (let r = skip_ws cs in
                  if r \<noteq> [] \<and> hd r = CHR ''}'' then DOk (JObj []) (tl r)
                  else parse_object f (d - 1) [] r))
         else if c = CHR ''['' then
           (if d = 0 then DRec
            else (let r = skip_ws cs in
                  if r \<noteq> [] \<and> hd r = CHR '']'' then DOk (JArr []) (tl r)
                  else parse_array f (d - 1) [] r))
         else scan_literal s)"
| "parse_array 0 d acc s = DFuel"
| "parse_array (Suc f) d acc s =
     (case scan_once f d s of
       DOk v r \<Rightarrow>
         (let r' = skip_ws r in
          if r' \<noteq> [] \<and> hd r' = CHR '']'' then DOk (JArr (acc @ [v])) (tl r')
          else if r' \<noteq> [] \<and> hd r' = CHR '','' then parse_array f d (acc @ [v]) (skip_ws (tl r'))
          else DErr)
     | DErr \<Rightarrow> DErr
     | DRec \<Rightarrow> DRec
     | DFuel \<Rightarrow> DFuel)"
| "parse_object 0 d acc s = DFuel"
| "parse_object (Suc f) d acc s =
     (if s = [] \<or> hd s \<noteq> CHR ''\"'' then DErr
      else case scan_str [] (tl s) of
        None \<Rightarrow> DErr
      | Some (k, r) \<Rightarrow>
          (let r1 = skip_ws r in
           if r1 = [] \<or> hd r1 \<noteq> CHR '':'' then DErr
           else case scan_once f d (skip_ws (tl r1)) of
             DOk v r2 \<Rightarrow>
               (let r3 = skip_ws r2 in
                if r3 \<noteq> [] \<and> hd r3 = CHR ''}'' then DOk (JObj (dict_set acc k v)) (tl r3)
                else if r3 \<noteq> [] \<and> hd r3 = CHR '','' then
                  parse_object f d (dict_set acc k v) (skip_ws (tl r3))
                else DErr)
           | DErr \<Rightarrow> DErr
           | DRec \<Rightarrow> DRec
           | DFuel \<Rightarrow> DFuel))"

text \<open>
  \<open>decoder.raw_decode(s, idx)\<close> at the suffix \<open>s\<close> of the text that starts
  at \<open>idx\<close>.  Each call of the scanner consumes a byte or hands its input on
  to a call that does, so twice the length plus one is enough fuel
  (\<open>raw_decode_not_DFuel\<close> below).
\<close>

definition json_fuel :: "pystr \<Rightarrow> nat" where
  "json_fuel s = 2 * length s + 1"

definition raw_decode :: "nat \<Rightarrow> pystr \<Rightarrow> json dres" where
  "raw_decode d s = scan_once (json_fuel s) d s"

text \<open>
  \<open>json.loads(s)\<close>: skip whitespace, decode one value, skip whitespace, and
  demand the end of the text (\<open>"Extra data"\<close> otherwise).  Both errors are
  \<open>JSONDecodeError\<close>; a nesting error stays a \<open>RecursionError\<close>.
\<close>

definition json_loads :: "nat \<Rightarrow> pystr \<Rightarrow> py_exc + json" where
  "json_loads d s =
     (case raw_decode d (skip_ws s) of
       DOk v r \<Rightarrow> if skip_ws r = [] then Inr v else Inl JSONDecodeError
     | DErr \<Rightarrow> Inl JSONDecodeError
     | DRec \<Rightarrow> Inl RecursionError
     | DFuel \<Rightarrow> Inl RecursionError)"

section \<open>Nesting\<close>

text \<open>The opening brackets of a text: a bound on how deeply it can nest.\<close>

definition count_open :: "pystr \<Rightarrow> nat" where
  "count_open s = length (filter (\<lambda>c. c = CHR ''['' \<or> c = CHR ''{'') s)"

section \<open>Consumption\<close>

text \<open>
  Every successful scan consumes input: the rest it returns is a strict suffix
  of what it was given.  The loops' termination and the fuel bound rest on it.
\<close>

lemma scan_str_suffix: "scan_str acc s = Some (v, r) \<Longrightarrow> strict_suffix r s"
proof (induction s arbitrary: acc v rule: length_induct)
  case (1 s)
  show ?case
  proof (cases s)
    case Nil
    with "1.prems" show ?thesis by simp
  next
    case (Cons c cs)
    have IH: "strict_suffix r t" if "scan_str acc' t = Some (v', r)" "suffix t cs" for t acc' v'
    proof -
      have "length t < length s"
        using Cons suffix_length_le [OF that(2)] by simp
      then show ?thesis
        using "1.IH" that(1) by blast
    qed
    have sfx: "suffix (drop 4 r0) (e # r0)" "suffix (drop 10 r0) (e # r0)" "suffix r0 (e # r0)" for e r0
      by (auto intro: suffix_ConsI suffix_drop)
    show ?thesis
      using "1.prems" Cons
      by (auto simp: Let_def split: if_splits list.splits option.splits
          intro: strict_suffix_ConsI strict_suffix_via [OF IH] sfx)
  qed
qed

lemma int_part_split: "int_part s = Some (ip, r) \<Longrightarrow> s = ip @ r \<and> ip \<noteq> []"
  by (auto simp: int_part_def split: if_splits list.splits prod.splits)
     (metis list.collapse)+

lemma frac_part_split: "frac_part s = (fp, r) \<Longrightarrow> s = fp @ r"
  by (auto simp: frac_part_def split: if_splits list.splits)

lemma exp_part_split: "exp_part s = (ep, r) \<Longrightarrow> s = ep @ r"
  by (auto simp: exp_part_def Let_def split: if_splits list.splits prod.splits)
     (metis list.collapse)+

lemma scan_number_split: "scan_number s = DOk v r \<Longrightarrow> \<exists>w. s = w @ r \<and> w \<noteq> []"
  by (auto simp: scan_number_def split: option.splits prod.splits if_splits
      dest!: int_part_split frac_part_split exp_part_split)

lemma scan_number_suffix: "scan_number s = DOk v r \<Longrightarrow> strict_suffix r s"
  by (auto dest!: scan_number_split simp: strict_suffix_def suffix_def)

lemma scan_string_suffix: "scan_string cs = DOk v r \<Longrightarrow> strict_suffix r cs"
  by (auto simp: scan_string_def split: option.splits dest: scan_str_suffix)

lemma scan_literal_suffix: "scan_literal s = DOk v r \<Longrightarrow> strict_suffix r s"
  unfolding scan_literal_def
  by (auto split: if_splits dest: scan_number_suffix
      simp: py_startswith_iff strict_suffix_def suffix_def)

lemma scan_once_suffix:
  shows "scan_once f d s = DOk v r \<Longrightarrow> strict_suffix r s"
    and "parse_array f d acc s = DOk v r \<Longrightarrow> strict_suffix r s"
    and "parse_object f d kvs s = DOk v r \<Longrightarrow> strict_suffix r s"
proof (induction f d s and f d acc s and f d kvs s arbitrary: v r and v r and v r
       rule: scan_once_parse_array_parse_object.induct)
  case (2 f d s)
  show ?case
  proof (cases s)
    case Nil
    with "2.prems" show ?thesis by simp
  next
    case (Cons c cs)
    have IHo: "strict_suffix r' (skip_ws cs)"
      if "c = CHR ''{''" "d \<noteq> 0" "\<not> (skip_ws cs \<noteq> [] \<and> hd (skip_ws cs) = CHR ''}'')"
         "parse_object f (d - 1) [] (skip_ws cs) = DOk v' r'" for v' r'
      using "2.IH"(1) Cons that by blast
    have IHa: "strict_suffix r' (skip_ws cs)"
      if "c = CHR ''[''" "d \<noteq> 0" "\<not> (skip_ws cs \<noteq> [] \<and> hd (skip_ws cs) = CHR '']'')"
         "parse_array f (d - 1) [] (skip_ws cs) = DOk v' r'" for v' r'
      using "2.IH"(2) Cons that by blast
    have str: "strict_suffix r' (c # cs)" if "scan_string cs = DOk v' r'" for v' r'
      using strict_suffix_via [OF scan_string_suffix [OF that] suffix_order.refl] .
    show ?thesis
      using "2.prems" Cons IHo IHa str suffix_tl_skip [of is_json_ws cs]
      by (auto simp: Let_def split: if_splits dest: scan_string_suffix scan_literal_suffix
          intro: strict_suffix_ConsI strict_suffix_via [OF _ suffix_dropWhile])
  qed
next
  case (4 f d acc s)
  show ?case
  proof (cases "scan_once f d s")
    case (DOk w r0)
    have r0: "strict_suffix r0 s"
      using "4.IH"(1) DOk by blast
    have IHr: "strict_suffix r' (skip_ws (tl (skip_ws r0)))"
      if "\<not> (skip_ws r0 \<noteq> [] \<and> hd (skip_ws r0) = CHR '']'')"
         "skip_ws r0 \<noteq> [] \<and> hd (skip_ws r0) = CHR '',''"
         "parse_array f d (acc @ [w]) (skip_ws (tl (skip_ws r0))) = DOk v' r'" for v' r'
      using "4.IH"(2) DOk that by blast
    have sx: "strict_suffix (tl (skip_ws r0)) s" "strict_suffix (skip_ws (tl (skip_ws r0))) s"
      using r0 suffix_tl_skip suffix_skip_tl_skip suffix_order.le_less_trans by blast+
    show ?thesis
      using "4.prems" DOk IHr sx by (auto simp: Let_def split: if_splits intro: suffix_order.less_trans)
  qed (use "4.prems" in simp_all)
next
  case (6 f d kvs s)
  show ?case
  proof (cases "s = [] \<or> hd s \<noteq> CHR ''\"''")
    case True
    with "6.prems" show ?thesis by simp
  next
    case False
    then obtain k r0 where k: "scan_str [] (tl s) = Some (k, r0)"
      using "6.prems" by (auto split: option.splits)
    have r0: "strict_suffix r0 s"
      using suffix_order.less_le_trans [OF scan_str_suffix [OF k] suffix_tl] .
    have s0: "strict_suffix (skip_ws (tl (skip_ws r0))) s"
      using r0 suffix_skip_tl_skip suffix_order.le_less_trans by blast
    show ?thesis
    proof (cases "scan_once f d (skip_ws (tl (skip_ws r0)))")
      case (DOk w r2)
      have IH1: "strict_suffix r2 (skip_ws (tl (skip_ws r0)))"
        if "\<not> (skip_ws r0 = [] \<or> hd (skip_ws r0) \<noteq> CHR '':'')"
        using "6.IH"(1) False k DOk that by blast
      have IH2: "strict_suffix r' (skip_ws (tl (skip_ws r2)))"
        if "\<not> (skip_ws r0 = [] \<or> hd (skip_ws r0) \<noteq> CHR '':'')"
           "\<not> (skip_ws r2 \<noteq> [] \<and> hd (skip_ws r2) = CHR ''}'')"
           "skip_ws r2 \<noteq> [] \<and> hd (skip_ws r2) = CHR '',''"
           "parse_object f d (dict_set kvs k w) (skip_ws (tl (skip_ws r2))) = DOk v' r'" for v' r'
        using "6.IH"(2) False k DOk that by blast
      have s2: "strict_suffix (tl (skip_ws r2)) s" "strict_suffix (skip_ws (tl (skip_ws r2))) s"
        if "\<not> (skip_ws r0 = [] \<or> hd (skip_ws r0) \<noteq> CHR '':'')"
        using IH1 [OF that] s0 suffix_tl_skip suffix_skip_tl_skip
        by (meson suffix_order.le_less_trans suffix_order.less_trans)+
      show ?thesis
        using "6.prems" False k DOk IH2 s2 by (auto simp: Let_def split: if_splits intro: suffix_order.less_trans)
    qed (use "6.prems" False k in \<open>auto simp: Let_def split: if_splits\<close>)
  qed
qed simp_all

lemma scan_once_shorter [consumes]:
  shows "scan_once f d s = DOk v r \<Longrightarrow> length r < length s"
    and "parse_array f d acc s = DOk v r \<Longrightarrow> length r < length s"
    and "parse_object f d kvs s = DOk v r \<Longrightarrow> length r < length s"
  by (auto dest!: scan_once_suffix suffix_length_less)

lemma scan_str_shorter [consumes]: "scan_str acc s = Some (v, r) \<Longrightarrow> length r < length s"
  by (auto dest!: scan_str_suffix suffix_length_less)

section \<open>Enough fuel\<close>

lemma scan_string_not_DFuel: "scan_string cs \<noteq> DFuel"
  by (simp add: scan_string_def split: option.splits)

lemma scan_literal_not_DFuel: "scan_literal s \<noteq> DFuel"
  by (simp add: scan_literal_def scan_number_def split: option.splits prod.splits)

lemma scan_once_fuel:
  shows "2 * length s < f \<Longrightarrow> scan_once f d s \<noteq> DFuel"
    and "2 * length s + 1 < f \<Longrightarrow> parse_array f d acc s \<noteq> DFuel"
    and "2 * length s + 1 < f \<Longrightarrow> parse_object f d kvs s \<noteq> DFuel"
proof (induction f d s and f d acc s and f d kvs s
       rule: scan_once_parse_array_parse_object.induct)
  case (2 f d s)
  show ?case
  proof (cases s)
    case Nil
    then show ?thesis by simp
  next
    case (Cons c cs)
    have ws: "length (skip_ws cs) \<le> length cs" by (rule length_dropWhile_le)
    with "2.prems" Cons have fuel: "2 * length (skip_ws cs) + 1 < f" by simp
    have IHo: "parse_object f (d - 1) [] (skip_ws cs) \<noteq> DFuel"
      if "c = CHR ''{''" "d \<noteq> 0" "\<not> (skip_ws cs \<noteq> [] \<and> hd (skip_ws cs) = CHR ''}'')"
      using "2.IH"(1) Cons that fuel by blast
    have IHa: "parse_array f (d - 1) [] (skip_ws cs) \<noteq> DFuel"
      if "c = CHR ''[''" "d \<noteq> 0" "\<not> (skip_ws cs \<noteq> [] \<and> hd (skip_ws cs) = CHR '']'')"
      using "2.IH"(2) Cons that fuel by blast
    show ?thesis
      using Cons IHo IHa scan_string_not_DFuel scan_literal_not_DFuel
      by (auto simp: Let_def)
  qed
next
  case (4 f d acc s)
  have IH1: "scan_once f d s \<noteq> DFuel"
    using "4.IH"(1) "4.prems" by simp
  show ?case
  proof (cases "scan_once f d s")
    case (DOk w r0)
    have r0: "length r0 < length s"
      using DOk by (rule scan_once_shorter)
    have ws: "length (skip_ws r0) \<le> length r0" "length (skip_ws (tl (skip_ws r0))) \<le> length (tl (skip_ws r0))"
      by (rule length_dropWhile_le)+
    have IHr: "parse_array f d (acc @ [w]) (skip_ws (tl (skip_ws r0))) \<noteq> DFuel"
      if "\<not> (skip_ws r0 \<noteq> [] \<and> hd (skip_ws r0) = CHR '']'')"
         "skip_ws r0 \<noteq> [] \<and> hd (skip_ws r0) = CHR '',''"
    proof -
      from that ws r0 "4.prems" have "2 * length (skip_ws (tl (skip_ws r0))) + 1 < f" by simp
      then show ?thesis using "4.IH"(2) DOk that by blast
    qed
    show ?thesis
      using DOk IHr by (auto simp: Let_def)
  qed (use IH1 in simp_all)
next
  case (6 f d kvs s)
  show ?case
  proof (cases "s = [] \<or> hd s \<noteq> CHR ''\"''")
    case True
    then show ?thesis by simp
  next
    case False
    show ?thesis
    proof (cases "scan_str [] (tl s)")
      case None
      with False show ?thesis by simp
    next
      case (Some kr)
      then obtain k r0 where k: "scan_str [] (tl s) = Some (k, r0)" by (cases kr) auto
      have r0: "length r0 < length s"
        using False k by (auto dest!: scan_str_shorter)
      have ws: "length (skip_ws r0) \<le> length r0"
        "length (skip_ws (tl (skip_ws r0))) \<le> length (tl (skip_ws r0))"
        by (rule length_dropWhile_le)+
      have IH1: "scan_once f d (skip_ws (tl (skip_ws r0))) \<noteq> DFuel"
        if "\<not> (skip_ws r0 = [] \<or> hd (skip_ws r0) \<noteq> CHR '':'')"
      proof -
        from that ws r0 "6.prems" have "2 * length (skip_ws (tl (skip_ws r0))) < f" by simp
        then show ?thesis using "6.IH"(1) False k that by blast
      qed
      show ?thesis
      proof (cases "scan_once f d (skip_ws (tl (skip_ws r0)))")
        case (DOk w r2)
        have r2: "length r2 < length (skip_ws (tl (skip_ws r0)))"
          using DOk by (rule scan_once_shorter)
        have ws3: "length (skip_ws r2) \<le> length r2" "length (skip_ws (tl (skip_ws r2))) \<le> length (tl (skip_ws r2))"
          by (rule length_dropWhile_le)+
        have IH2: "parse_object f d (dict_set kvs k w) (skip_ws (tl (skip_ws r2))) \<noteq> DFuel"
          if "\<not> (skip_ws r0 = [] \<or> hd (skip_ws r0) \<noteq> CHR '':'')"
             "\<not> (skip_ws r2 \<noteq> [] \<and> hd (skip_ws r2) = CHR ''}'')"
             "skip_ws r2 \<noteq> [] \<and> hd (skip_ws r2) = CHR '',''"
        proof -
          from that ws ws3 r0 r2 "6.prems" have "2 * length (skip_ws (tl (skip_ws r2))) + 1 < f" by simp
          then show ?thesis using "6.IH"(2) False k DOk that by blast
        qed
        show ?thesis
          using False k DOk IH2 by (auto simp: Let_def)
      qed (use False k IH1 in \<open>auto simp: Let_def\<close>)
    qed
  qed
qed simp_all

lemma raw_decode_not_DFuel: "raw_decode d s \<noteq> DFuel"
  unfolding raw_decode_def json_fuel_def by (rule scan_once_fuel(1)) simp

lemma raw_decode_suffix: "raw_decode d s = DOk v r \<Longrightarrow> strict_suffix r s"
  unfolding raw_decode_def by (rule scan_once_suffix(1))

lemma raw_decode_shorter [consumes]: "raw_decode d s = DOk v r \<Longrightarrow> length r < length s"
  unfolding raw_decode_def by (rule scan_once_shorter(1))

section \<open>Nesting and \<open>RecursionError\<close>\<close>

text \<open>
  The scanner raises \<open>RecursionError\<close> only on a text with more opening
  brackets than the recursion allowance.
\<close>

lemma count_open_append [simp]: "count_open (xs @ ys) = count_open xs + count_open ys"
  by (simp add: count_open_def)

lemma count_open_Cons: "count_open (c # cs) = (if c = CHR ''['' \<or> c = CHR ''{'' then Suc (count_open cs) else count_open cs)"
  by (simp add: count_open_def)

lemma count_open_suffix: "suffix r s \<Longrightarrow> count_open r \<le> count_open s"
  by (auto simp: suffix_def)

lemma scan_string_not_DRec: "scan_string s \<noteq> DRec"
  by (simp add: scan_string_def split: option.splits)

lemma scan_literal_not_DRec: "scan_literal s \<noteq> DRec"
  by (simp add: scan_literal_def scan_number_def split: option.splits prod.splits)

lemma scan_once_DRec:
  shows "scan_once f d s = DRec \<Longrightarrow> d < count_open s"
    and "parse_array f d acc s = DRec \<Longrightarrow> d < count_open s"
    and "parse_object f d kvs s = DRec \<Longrightarrow> d < count_open s"
proof (induction f d s and f d acc s and f d kvs s
       rule: scan_once_parse_array_parse_object.induct)
  case (2 f d s)
  show ?case
  proof (cases s)
    case Nil
    with "2.prems" show ?thesis by simp
  next
    case (Cons c cs)
    have ws: "count_open (skip_ws cs) \<le> count_open cs"
      by (rule count_open_suffix [OF suffix_dropWhile])
    have IHo: "d - 1 < count_open (skip_ws cs)"
      if "c = CHR ''{''" "d \<noteq> 0" "\<not> (skip_ws cs \<noteq> [] \<and> hd (skip_ws cs) = CHR ''}'')"
         "parse_object f (d - 1) [] (skip_ws cs) = DRec"
      using "2.IH"(1) Cons that by blast
    have IHa: "d - 1 < count_open (skip_ws cs)"
      if "c = CHR ''[''" "d \<noteq> 0" "\<not> (skip_ws cs \<noteq> [] \<and> hd (skip_ws cs) = CHR '']'')"
         "parse_array f (d - 1) [] (skip_ws cs) = DRec"
      using "2.IH"(2) Cons that by blast
    show ?thesis
      using "2.prems" Cons ws IHo IHa scan_string_not_DRec scan_literal_not_DRec
      by (auto simp: Let_def count_open_Cons split: if_splits)
  qed
next
  case (4 f d acc s)
  show ?case
  proof (cases "scan_once f d s")
    case (DOk w r0)
    have c: "count_open (skip_ws (tl (skip_ws r0))) \<le> count_open s"
      using scan_once_suffix(1) [OF DOk] suffix_skip_tl_skip count_open_suffix
      by (meson suffix_order.dual_order.strict_implies_order suffix_order.trans)
    have IHr: "d < count_open (skip_ws (tl (skip_ws r0)))"
      if "\<not> (skip_ws r0 \<noteq> [] \<and> hd (skip_ws r0) = CHR '']'')"
         "skip_ws r0 \<noteq> [] \<and> hd (skip_ws r0) = CHR '',''"
         "parse_array f d (acc @ [w]) (skip_ws (tl (skip_ws r0))) = DRec"
      using "4.IH"(2) DOk that by blast
    show ?thesis
      using "4.prems" DOk IHr c by (auto simp: Let_def split: if_splits)
  qed (use "4.prems" "4.IH"(1) in simp_all)
next
  case (6 f d kvs s)
  show ?case
  proof (cases "s = [] \<or> hd s \<noteq> CHR ''\"''")
    case True
    with "6.prems" show ?thesis by simp
  next
    case False
    then obtain k r0 where k: "scan_str [] (tl s) = Some (k, r0)"
      using "6.prems" by (auto split: option.splits)
    have r0: "strict_suffix r0 s"
      using suffix_order.less_le_trans [OF scan_str_suffix [OF k] suffix_tl] .
    have s0: "suffix (skip_ws (tl (skip_ws r0))) s"
      using r0 suffix_skip_tl_skip
      by (meson suffix_order.dual_order.strict_implies_order suffix_order.trans)
    have IH1: "d < count_open (skip_ws (tl (skip_ws r0)))"
      if "\<not> (skip_ws r0 = [] \<or> hd (skip_ws r0) \<noteq> CHR '':'')"
         "scan_once f d (skip_ws (tl (skip_ws r0))) = DRec"
      using "6.IH"(1) False k that by blast
    show ?thesis
    proof (cases "scan_once f d (skip_ws (tl (skip_ws r0)))")
      case (DOk w r2)
      have s2: "suffix (skip_ws (tl (skip_ws r2))) s"
        using scan_once_suffix(1) [OF DOk] s0 suffix_skip_tl_skip
        by (meson suffix_order.dual_order.strict_implies_order suffix_order.trans)
      have IH2: "d < count_open (skip_ws (tl (skip_ws r2)))"
        if "\<not> (skip_ws r0 = [] \<or> hd (skip_ws r0) \<noteq> CHR '':'')"
           "\<not> (skip_ws r2 \<noteq> [] \<and> hd (skip_ws r2) = CHR ''}'')"
           "skip_ws r2 \<noteq> [] \<and> hd (skip_ws r2) = CHR '',''"
           "parse_object f d (dict_set kvs k w) (skip_ws (tl (skip_ws r2))) = DRec"
        using "6.IH"(2) False k DOk that by blast
      show ?thesis
        using "6.prems" False k DOk IH2 count_open_suffix [OF s2]
        by (auto simp: Let_def split: if_splits)
    qed (use "6.prems" False k IH1 count_open_suffix [OF s0] in \<open>auto simp: Let_def split: if_splits\<close>)
  qed
qed simp_all

lemma raw_decode_DRec: "raw_decode d s = DRec \<Longrightarrow> d < count_open s"
  unfolding raw_decode_def by (rule scan_once_DRec(1))

section \<open>Well-formed values\<close>

lemma map_fst_dict_replace:
  "map fst (map (\<lambda>(k', v'). if k' = k then (k', v) else (k', v')) kvs) = map fst kvs"
  by (induction kvs) auto

lemma dict_set_wf:
  assumes "distinct (map fst kvs)" and "list_all (\<lambda>kv. wf_json (snd kv)) kvs" and "wf_json v"
  shows "distinct (map fst (dict_set kvs k v)) \<and> list_all (\<lambda>kv. wf_json (snd kv)) (dict_set kvs k v)"
proof (cases "k \<in> set (map fst kvs)")
  case True
  then have "dict_set kvs k v = map (\<lambda>(k', v'). if k' = k then (k', v) else (k', v')) kvs"
    by (simp add: dict_set_def)
  then show ?thesis
    using assms by (auto simp: map_fst_dict_replace list_all_iff simp del: map_map)
next
  case False
  then show ?thesis using assms by (simp add: dict_set_def)
qed

lemma scan_literal_wf: "scan_literal s = DOk v r \<Longrightarrow> wf_json v"
  by (auto simp: scan_literal_def scan_number_def split: if_splits option.splits prod.splits)

lemma scan_string_wf: "scan_string s = DOk v r \<Longrightarrow> wf_json v"
  by (auto simp: scan_string_def split: option.splits)

lemma scan_once_wf:
  shows "scan_once f d s = DOk v r \<Longrightarrow> wf_json v"
    and "parse_array f d acc s = DOk v r \<Longrightarrow> list_all wf_json acc \<Longrightarrow> wf_json v"
    and "parse_object f d kvs s = DOk v r \<Longrightarrow> distinct (map fst kvs) \<Longrightarrow> list_all (\<lambda>kv. wf_json (snd kv)) kvs \<Longrightarrow> wf_json v"
proof (induction f d s and f d acc s and f d kvs s arbitrary: v r and v r and v r
       rule: scan_once_parse_array_parse_object.induct)
  case (2 f d s)
  show ?case
  proof (cases s)
    case Nil
    with "2.prems" show ?thesis by simp
  next
    case (Cons c cs)
    have IHo: "wf_json v'"
      if "c = CHR ''{''" "d \<noteq> 0" "\<not> (skip_ws cs \<noteq> [] \<and> hd (skip_ws cs) = CHR ''}'')"
         "parse_object f (d - 1) [] (skip_ws cs) = DOk v' r'" for v' r'
      using "2.IH"(1) Cons that by simp
    have IHa: "wf_json v'"
      if "c = CHR ''[''" "d \<noteq> 0" "\<not> (skip_ws cs \<noteq> [] \<and> hd (skip_ws cs) = CHR '']'')"
         "parse_array f (d - 1) [] (skip_ws cs) = DOk v' r'" for v' r'
      using "2.IH"(2) Cons that by simp
    show ?thesis
      using "2.prems" Cons IHo IHa
      by (auto simp: Let_def split: if_splits dest: scan_string_wf scan_literal_wf)
  qed
next
  case (4 f d acc s)
  show ?case
  proof (cases "scan_once f d s")
    case (DOk w r0)
    have w: "wf_json w" using "4.IH"(1) DOk by blast
    have IHr: "wf_json v'"
      if "\<not> (skip_ws r0 \<noteq> [] \<and> hd (skip_ws r0) = CHR '']'')"
         "skip_ws r0 \<noteq> [] \<and> hd (skip_ws r0) = CHR '',''"
         "parse_array f d (acc @ [w]) (skip_ws (tl (skip_ws r0))) = DOk v' r'" for v' r'
      using "4.IH"(2) DOk that w "4.prems"(2) by simp
    show ?thesis
      using "4.prems" DOk IHr w by (auto simp: Let_def split: if_splits)
  qed (use "4.prems" in simp_all)
next
  case (6 f d kvs s)
  show ?case
  proof (cases "s = [] \<or> hd s \<noteq> CHR ''\"''")
    case True
    with "6.prems" show ?thesis by simp
  next
    case False
    then obtain k r0 where k: "scan_str [] (tl s) = Some (k, r0)"
      using "6.prems" by (auto split: option.splits)
    show ?thesis
    proof (cases "scan_once f d (skip_ws (tl (skip_ws r0)))")
      case (DOk w r2)
      have w: "wf_json w" if "\<not> (skip_ws r0 = [] \<or> hd (skip_ws r0) \<noteq> CHR '':'')"
        using "6.IH"(1) False k DOk that by blast
      have ds: "distinct (map fst (dict_set kvs k w)) \<and> list_all (\<lambda>kv. wf_json (snd kv)) (dict_set kvs k w)"
        if "\<not> (skip_ws r0 = [] \<or> hd (skip_ws r0) \<noteq> CHR '':'')"
        using dict_set_wf "6.prems"(2,3) w [OF that] by blast
      have IH2: "wf_json v'"
        if "\<not> (skip_ws r0 = [] \<or> hd (skip_ws r0) \<noteq> CHR '':'')"
           "\<not> (skip_ws r2 \<noteq> [] \<and> hd (skip_ws r2) = CHR ''}'')"
           "skip_ws r2 \<noteq> [] \<and> hd (skip_ws r2) = CHR '',''"
           "parse_object f d (dict_set kvs k w) (skip_ws (tl (skip_ws r2))) = DOk v' r'" for v' r'
        using "6.IH"(2) False k DOk that ds [OF that(1)] by blast
      show ?thesis
        using "6.prems"(1) False k DOk IH2 ds by (auto simp: Let_def split: if_splits)
    qed (use "6.prems" False k in \<open>auto simp: Let_def split: if_splits\<close>)
  qed
qed simp_all

lemma raw_decode_wf: "raw_decode d s = DOk v r \<Longrightarrow> wf_json v"
  unfolding raw_decode_def by (rule scan_once_wf(1))

end
