(* ===== verification/Parser.thy ===== *)
theory Parser
  imports Json
begin

text \<open>
  \<^verbatim>\<open>scripts/summarize_results.py\<close>, function \<open>parse_velo_output\<close>
  (lines 28--67): the tolerant parser of a text in which JSON values are
  concatenated and \<open>[ERROR]\<close> lines may be interleaved.  The line split of
  lines 37--42 is \<open>split_error_lines\<close>; the scanning loop of lines 46--65,
  with its position \<open>pos\<close> into \<open>clean\<close> held as the suffix
  \<open>drop pos clean\<close>, is \<open>scan_rows\<close>.  \<open>d\<close> is the interpreter's recursion
  allowance left when \<open>raw_decode\<close> runs (about 995 levels under CPython 3.11
  with its default limit of 1000).
\<close>

section \<open>The model\<close>

definition error_marker :: pystr where
  "error_marker = ''[ERROR]''"

definition is_error_line :: "pystr \<Rightarrow> bool" where
  "is_error_line line \<longleftrightarrow> py_startswith (py_strip line) error_marker"

text \<open>Lines 37--42: stripped error lines go to \<open>errors\<close>, other lines unchanged to \<open>json_lines\<close>.\<close>

fun split_error_lines :: "pystr list \<Rightarrow> pystr list \<Rightarrow> pystr list \<Rightarrow> pystr list \<times> pystr list" where
  "split_error_lines [] errors json_lines = (errors, json_lines)"
| "split_error_lines (line # ls) errors json_lines =
     (let stripped = py_strip line in
      if py_startswith stripped error_marker then split_error_lines ls (errors @ [stripped]) json_lines
      else split_error_lines ls errors (json_lines @ [line]))"

text \<open>Lines 58--61: a list contributes its elements, a dict itself, anything else nothing.\<close>

fun rows_of :: "json \<Rightarrow> json list" where
  "rows_of (JArr xs) = xs"
| "rows_of (JObj kvs) = [JObj kvs]"
| "rows_of _ = []"

text \<open>
  Lines 50--65.  The inner whitespace loop is \<open>skip_ws\<close> (the same four
  characters as the decoder's whitespace).  A decoded value moves the position
  to its end; a \<open>JSONDecodeError\<close> moves it by one; any other exception
  escapes the loop and the function.  \<open>DFuel\<close> never occurs
  (\<open>raw_decode_not_DFuel\<close>).
\<close>

function scan_rows :: "nat \<Rightarrow> pystr \<Rightarrow> json list \<Rightarrow> py_exc + json list" where
  "scan_rows d s rows =
     (let s1 = skip_ws s in
      if s1 = [] then Inr rows
      else case raw_decode d s1 of
        DOk obj r \<Rightarrow> scan_rows d r (rows @ rows_of obj)
      | DErr \<Rightarrow> scan_rows d (tl s1) rows
      | DRec \<Rightarrow> Inl RecursionError
      | DFuel \<Rightarrow> Inl RecursionError)"
  by pat_completeness auto
termination
  by (relation "measure (\<lambda>(d, s, rows). length s)")
     (auto dest!: raw_decode_shorter simp del: length_tl intro: less_le_trans length_dropWhile_le length_dropWhile_tl_less)

declare scan_rows.simps [simp del]

definition parse_velo_output :: "nat \<Rightarrow> pystr \<Rightarrow> py_exc + (json list \<times> pystr list)" where
  "parse_velo_output d text =
     (let (errors, json_lines) = split_error_lines (py_splitlines text) [] [];
          clean = py_join ''\<newline>'' json_lines
      in case scan_rows d clean [] of
           Inl e \<Rightarrow> Inl e
         | Inr rows \<Rightarrow> Inr (rows, errors))"

section \<open>Properties\<close>

lemma split_error_lines_eq:
  "split_error_lines ls errors json_lines =
     (errors @ map py_strip (filter is_error_line ls), json_lines @ filter (\<lambda>l. \<not> is_error_line l) ls)"
  by (induction ls arbitrary: errors json_lines) (auto simp: is_error_line_def Let_def)

lemma scan_rows_Inl: "scan_rows d s rows = Inl e \<Longrightarrow> e = RecursionError"
proof (induction d s rows rule: scan_rows.induct)
  case (1 d s rows)
  show ?case
    using "1.prems" "1.IH"
    by (subst (asm) scan_rows.simps) (auto simp: Let_def split: if_splits dres.splits)
qed

lemma scan_rows_total: "count_open s \<le> d \<Longrightarrow> \<exists>rows'. scan_rows d s rows = Inr rows'"
proof (induction d s rows rule: scan_rows.induct)
  case (1 d s rows)
  define s1 where "s1 = skip_ws s"
  have c1: "count_open s1 \<le> d"
    using "1.prems" count_open_suffix [OF suffix_dropWhile] unfolding s1_def by (metis order_trans)
  show ?case
  proof (cases "s1 = []")
    case True
    then show ?thesis by (simp add: scan_rows.simps [of d s] s1_def)
  next
    case False
    show ?thesis
    proof (cases "raw_decode d s1")
      case (DOk obj r)
      have "count_open r \<le> d"
        using c1 count_open_suffix raw_decode_suffix [OF DOk]
        by (meson order_trans suffix_order.dual_order.strict_implies_order)
      then show ?thesis
        using "1.IH"(1) [OF s1_def False DOk] False DOk
        by (simp add: scan_rows.simps [of d s] s1_def [symmetric])
    next
      case DErr
      have "count_open (tl s1) \<le> d"
        using c1 count_open_suffix [OF suffix_tl] by (metis order_trans)
      then show ?thesis
        using "1.IH"(2) [OF s1_def False DErr] False DErr
        by (simp add: scan_rows.simps [of d s] s1_def [symmetric])
    next
      case DRec
      with c1 show ?thesis by (auto dest: raw_decode_DRec)
    next
      case DFuel
      then show ?thesis by (simp add: raw_decode_not_DFuel)
    qed
  qed
qed

lemma split_cps_count_open:
  "sum_list (map count_open (split_cps gs acc)) \<le> count_open acc + count_open (concat gs)"
proof (induction gs acc rule: split_cps.induct)
  case (1 acc)
  then show ?case by simp
next
  case (2 g gs acc)
  show ?case
  proof (cases "g = [CHR 0x0D] \<and> gs \<noteq> [] \<and> hd gs = [CHR 0x0A]")
    case True
    then have eq: "split_cps (g # gs) acc = acc # split_cps (tl gs) []" by simp
    have "count_open (concat (tl gs)) \<le> count_open (concat (g # gs))"
      using True by (cases gs) (auto simp: count_open_Cons)
    with True "2.IH"(1) show ?thesis
      unfolding eq by (simp add: count_open_def; linarith)
  next
    case F: False
    show ?thesis
    proof (cases "is_py_linebreak g")
      case True
      have eq: "split_cps (g # gs) acc = acc # split_cps gs []"
        by (simp only: split_cps.simps if_not_P [OF F] if_P [OF True])
      from F True "2.IH"(2) show ?thesis
        unfolding eq by (simp add: count_open_def; linarith)
    next
      case False
      have eq: "split_cps (g # gs) acc = split_cps gs (acc @ g)"
        by (simp only: split_cps.simps if_not_P [OF F] if_not_P [OF False])
      from F False "2.IH"(3) show ?thesis
        unfolding eq by simp
    qed
  qed
qed

lemma count_open_py_join:
  "count_open (py_join ''\<newline>'' ls) = sum_list (map count_open ls)"
  by (induction "''\<newline>''" ls rule: py_join.induct) (simp_all add: count_open_def)

lemma sum_list_filter_le: "sum_list (map (f :: 'a \<Rightarrow> nat) (filter P xs)) \<le> sum_list (map f xs)"
  by (induction xs) auto

lemma count_open_clean:
  "count_open (py_join ''\<newline>'' (filter P (py_splitlines text))) \<le> count_open text"
proof -
  have "sum_list (map count_open (py_splitlines text)) \<le> count_open text"
    using split_cps_count_open [of "code_points text" "[]"]
    by (simp add: py_splitlines_def count_open_def)
  then show ?thesis
    using sum_list_filter_le [of count_open P] by (simp add: count_open_py_join) (meson order_trans)
qed

lemma parse_velo_output_eq:
  "parse_velo_output d text =
     (case scan_rows d (py_join ''\<newline>'' (filter (\<lambda>l. \<not> is_error_line l) (py_splitlines text))) [] of
        Inl e \<Rightarrow> Inl e
      | Inr rows \<Rightarrow> Inr (rows, map py_strip (filter is_error_line (py_splitlines text))))"
  by (simp add: parse_velo_output_def split_error_lines_eq)



lemma rows_of_wf: "wf_json obj \<Longrightarrow> list_all wf_json (rows_of obj)"
  by (cases obj) simp_all

lemma scan_rows_wf: "scan_rows d s rows = Inr rows' \<Longrightarrow> list_all wf_json rows \<Longrightarrow> list_all wf_json rows'"
proof (induction d s rows rule: scan_rows.induct)
  case (1 d s rows)
  define s1 where "s1 = skip_ws s"
  show ?case
  proof (cases "s1 = []")
    case True
    then show ?thesis using "1.prems" by (simp add: scan_rows.simps [of d s] s1_def)
  next
    case False
    show ?thesis
    proof (cases "raw_decode d s1")
      case (DOk obj r)
      have "scan_rows d r (rows @ rows_of obj) = Inr rows'"
        using "1.prems"(1) False DOk by (simp add: scan_rows.simps [of d s] s1_def [symmetric])
      moreover have "list_all wf_json (rows @ rows_of obj)"
        using "1.prems"(2) rows_of_wf [OF raw_decode_wf [OF DOk]] by simp
      ultimately show ?thesis using "1.IH"(1) [OF s1_def False DOk] by blast
    next
      case DErr
      have "scan_rows d (tl s1) rows = Inr rows'"
        using "1.prems"(1) False DErr by (simp add: scan_rows.simps [of d s] s1_def [symmetric])
      then show ?thesis using "1.IH"(2) [OF s1_def False DErr] "1.prems"(2) by blast
    qed (use "1.prems"(1) False in \<open>simp_all add: scan_rows.simps [of d s] s1_def [symmetric]\<close>)
  qed
qed


text \<open>
  C3.  The error list is the stripped lines of the text whose stripped form
  starts with \<open>[ERROR]\<close>, in the order of the text.
\<close>

theorem parse_velo_output_errors:
  "parse_velo_output d text = Inr (rows, errors) \<Longrightarrow>
     errors = map py_strip (filter is_error_line (py_splitlines text))"
  by (auto simp: parse_velo_output_eq split: sum.splits)

lemma scan_rows_blank: "skip_ws s = [] \<Longrightarrow> scan_rows d s rows = Inr rows"
  by (simp add: scan_rows.simps)

text \<open>
  C4.  A text made only of \<open>[ERROR]\<close> lines gives no rows and all its lines,
  stripped, as errors.
\<close>

theorem parse_velo_output_only_errors:
  assumes "\<forall>l \<in> set (py_splitlines text). is_error_line l"
  shows "parse_velo_output d text = Inr ([], map py_strip (py_splitlines text))"
proof -
  have "filter (\<lambda>l. \<not> is_error_line l) (py_splitlines text) = []"
    using assms by (simp add: filter_empty_conv)
  moreover have "filter is_error_line (py_splitlines text) = py_splitlines text"
    using assms by (simp add: filter_id_conv)
  ultimately show ?thesis
    by (simp add: parse_velo_output_eq scan_rows_blank)
qed


section \<open>Witnesses\<close>



theorem parse_velo_output_errors_witness:
  "parse_velo_output 10 (''[ERROR] disk full'' @ ''\<newline>'' @ ''[{\"a\":1}]'') =
     Inr ([JObj [(''a'', JInt 1)]], [''[ERROR] disk full'']) \<and>
   [''[ERROR] disk full''] =
     map py_strip (filter is_error_line (py_splitlines (''[ERROR] disk full'' @ ''\<newline>'' @ ''[{\"a\":1}]'')))"
proof -
  have h: "parse_velo_output 10 (''[ERROR] disk full'' @ ''\<newline>'' @ ''[{\"a\":1}]'') =
     Inr ([JObj [(''a'', JInt 1)]], [''[ERROR] disk full''])"
    by code_simp
  show ?thesis
    using h parse_velo_output_errors [OF h] by simp
qed

theorem parse_velo_output_only_errors_witness:
  "py_splitlines (''[ERROR] a'' @ ''\<newline>'' @ ''  [ERROR] b '') = [''[ERROR] a'', ''  [ERROR] b ''] \<and>
   is_error_line ''[ERROR] a'' \<and> is_error_line ''  [ERROR] b '' \<and>
   parse_velo_output 5 (''[ERROR] a'' @ ''\<newline>'' @ ''  [ERROR] b '') = Inr ([], [''[ERROR] a'', ''[ERROR] b''])"
proof -
  have l: "py_splitlines (''[ERROR] a'' @ ''\<newline>'' @ ''  [ERROR] b '') = [''[ERROR] a'', ''  [ERROR] b '']"
    by code_simp
  have e: "is_error_line ''[ERROR] a''" "is_error_line ''  [ERROR] b ''"
    by code_simp+
  have h: "\<forall>l \<in> set (py_splitlines (''[ERROR] a'' @ ''\<newline>'' @ ''  [ERROR] b '')). is_error_line l"
    using l e by simp
  have s: "map py_strip [''[ERROR] a'', ''  [ERROR] b ''] = [''[ERROR] a'', ''[ERROR] b'']"
    by code_simp
  show ?thesis
    using l e parse_velo_output_only_errors [OF h, of 5] s by simp
qed


end
