(* ===== verification/Client.thy ===== *)
theory Client
  imports Json
begin

text \<open>
  \<^verbatim>\<open>scripts/velo_api.py\<close>, \<open>run_vql_raw\<close> (lines 55--132) and \<open>run_vql\<close>
  (lines 135--154): one streaming gRPC call, folded into rows and log lines,
  then classified.  The world the function talks to is explicit: the
  configuration loader, the server (a function from the call's target, request
  and timeout to the responses it streams and how the stream ends), and the
  recursion allowance left for \<open>json.loads\<close>.  Effects that outlive an
  exception are an event trace: the channel being opened and closed, the
  request, and every line written to stderr.
\<close>

section \<open>Data\<close>

text \<open>A \<open>VQLResponse\<close> as far as the client reads it: its \<open>log\<close> and \<open>Response\<close> fields.\<close>

record response =
  resp_log :: pystr
  resp_Response :: pystr

text \<open>How the response iterator stops: the server closes the stream, or it raises \<open>grpc.RpcError\<close>.\<close>

datatype stream_end = StreamClosed | RpcFailed pystr

text \<open>The request of lines 90--95 (\<open>VQLCollectorArgs\<close> with one \<open>VQLRequest\<close>).\<close>

record vql_request =
  req_max_wait :: nat
  req_max_row :: nat
  req_env :: "(pystr \<times> pystr) list"
  req_query :: "(pystr \<times> pystr) list"

text \<open>The channel of lines 79--84 and 101--103.\<close>

record channel =
  chan_target :: pystr
  chan_root_certificates :: pystr
  chan_private_key :: pystr
  chan_certificate_chain :: pystr
  chan_name_override :: pystr

datatype io_event =
    ChannelOpened channel
  | QuerySent vql_request nat
  | Stderr pystr
  | ChannelClosed

type_synonym config = "pystr \<Rightarrow> pystr option"

record velo_env =
  env_load_config :: "pystr \<Rightarrow> config option"
  env_server :: "pystr \<Rightarrow> vql_request \<Rightarrow> nat \<Rightarrow> response list \<times> stream_end"
  env_json_depth :: nat

text \<open>The state of the response loop: \<open>rows\<close>, \<open>logs\<close> and the events so far.\<close>

record client_acc =
  acc_rows :: "json list"
  acc_logs :: "pystr list"
  acc_out :: "io_event list"

section \<open>Operations\<close>

text \<open>Lines 35--36 and 73: the default configuration path.\<close>

definition default_config :: pystr where
  "default_config = ''config/api.config.yaml''"

definition config_path_of :: "pystr option \<Rightarrow> pystr" where
  "config_path_of p = (case p of None \<Rightarrow> default_config | Some q \<Rightarrow> if q = [] then default_config else q)"

text \<open>\<open>config[key]\<close>: a missing key raises \<open>KeyError\<close>.\<close>

definition cfg_get :: "config \<Rightarrow> pystr \<Rightarrow> py_exc + pystr" where
  "cfg_get c k = (case c k of None \<Rightarrow> Inl (KeyError k) | Some v \<Rightarrow> Inr v)"

definition build_request :: "pystr \<Rightarrow> (pystr \<times> pystr) list \<Rightarrow> nat \<Rightarrow> vql_request" where
  "build_request query env max_row =
     \<lparr>req_max_wait = 1, req_max_row = max_row, req_env = env, req_query = [(''Query'', query)]\<rparr>"

text \<open>Lines 106--109: the lines of a non-empty log, kept and echoed to stderr one by one.\<close>

definition log_lines :: "pystr \<Rightarrow> pystr list" where
  "log_lines log = py_splitlines (py_strip log)"

definition take_log :: "response \<Rightarrow> client_acc \<Rightarrow> client_acc" where
  "take_log r acc =
     (if resp_log r = [] then acc
      else acc\<lparr>acc_logs := acc_logs acc @ log_lines (resp_log r),
               acc_out := acc_out acc @ map (\<lambda>l. Stderr (''[velo] '' @ l)) (log_lines (resp_log r))\<rparr>)"

text \<open>
  \<open>for row in obj\<close> over a decoded value: a list gives its elements, a dict
  its keys, a string its code points; a number, a boolean or \<open>None\<close> is not
  iterable (\<open>TypeError\<close>).
\<close>

fun iter_json :: "json \<Rightarrow> py_exc + json list" where
  "iter_json (JArr xs) = Inr xs"
| "iter_json (JObj kvs) = Inr (map (\<lambda>(k, v). JStr k) kvs)"
| "iter_json (JStr s) = Inr (map JStr (code_points s))"
| "iter_json _ = Inl TypeError"

text \<open>Lines 111--115: the rows a response carries, or the exception decoding them raises.\<close>

definition response_rows :: "nat \<Rightarrow> response \<Rightarrow> py_exc + json list" where
  "response_rows d r =
     (if resp_Response r = [] then Inr []
      else case json_loads d (resp_Response r) of Inl e \<Rightarrow> Inl e | Inr v \<Rightarrow> iter_json v)"

text \<open>Lines 105--115: the loop over the responses; an exception stops it with what was done so far.\<close>

fun consume :: "nat \<Rightarrow> response list \<Rightarrow> client_acc \<Rightarrow> py_exc option \<times> client_acc" where
  "consume d [] acc = (None, acc)"
| "consume d (r # rs) acc =
     (let acc1 = take_log r acc in
      case response_rows d r of
        Inl e \<Rightarrow> (Some e, acc1)
      | Inr xs \<Rightarrow> consume d rs (acc1\<lparr>acc_rows := acc_rows acc1 @ xs\<rparr>))"

text \<open>Lines 119--132: permission first, then no rows with \<open>ERROR:\<close> lines.\<close>

definition classify :: "json list \<Rightarrow> pystr list \<Rightarrow> py_exc + (json list \<times> pystr list)" where
  "classify rows logs =
     (case find (py_contains ''PermissionDenied'') logs of
       Some line \<Rightarrow> Inl (VeloPermissionError (''Permission denied: '' @ line))
     | None \<Rightarrow>
         (let error_lines = filter (py_contains ''ERROR:'') logs in
          if rows = [] \<and> error_lines \<noteq> [] then
            Inl (VeloAPIError (''VQL query returned no results with errors:'' @ ''\<newline>''
                               @ py_join ''\<newline>'' error_lines))
          else Inr (rows, logs)))"

text \<open>
  Lines 100--117: the \<open>with\<close> block.  The channel is opened, the query sent,
  the responses consumed; the channel is closed on leaving the block whatever
  happened; then a \<open>grpc.RpcError\<close> becomes \<open>VeloConnectionError\<close> and every
  other exception passes unchanged.
\<close>

definition stream_call ::
  "velo_env \<Rightarrow> channel \<Rightarrow> vql_request \<Rightarrow> nat \<Rightarrow> (py_exc + (json list \<times> pystr list)) \<times> io_event list" where
  "stream_call w ch request timeout =
     (let (resps, fin) = env_server w (chan_target ch) request timeout;
          (exc, acc) = consume (env_json_depth w) resps
                         \<lparr>acc_rows = [], acc_logs = [], acc_out = [ChannelOpened ch, QuerySent request timeout]\<rparr>;
          out = acc_out acc @ [ChannelClosed]
      in case exc of
           Some e \<Rightarrow> (Inl e, out)
         | None \<Rightarrow>
             (case fin of
               RpcFailed t \<Rightarrow> (Inl (VeloConnectionError (GrpcFailure t)), out)
             | StreamClosed \<Rightarrow> (Inr (acc_rows acc, acc_logs acc), out)))"

definition run_vql_raw ::
  "velo_env \<Rightarrow> pystr \<Rightarrow> (pystr \<times> pystr) list \<Rightarrow> pystr option \<Rightarrow> nat \<Rightarrow> nat
     \<Rightarrow> (py_exc + (json list \<times> pystr list)) \<times> io_event list" where
  "run_vql_raw w query env config_path timeout max_row =
     (let path = config_path_of config_path in
      case env_load_config w path of
        None \<Rightarrow> (Inl (VeloConnectionError (ConfigLoadFailed path)), [])
      | Some cfg \<Rightarrow>
          (case cfg_get cfg ''ca_certificate'' of Inl e \<Rightarrow> (Inl e, []) | Inr ca \<Rightarrow>
           case cfg_get cfg ''client_private_key'' of Inl e \<Rightarrow> (Inl e, []) | Inr key \<Rightarrow>
           case cfg_get cfg ''client_cert'' of Inl e \<Rightarrow> (Inl e, []) | Inr cert \<Rightarrow>
           let request = build_request query env max_row in
           case cfg_get cfg ''api_connection_string'' of Inl e \<Rightarrow> (Inl e, []) | Inr target \<Rightarrow>
           let ch = \<lparr>chan_target = target, chan_root_certificates = ca, chan_private_key = key,
                     chan_certificate_chain = cert, chan_name_override = ''VelociraptorServer''\<rparr>
           in case stream_call w ch request timeout of
                (Inl e, out) \<Rightarrow> (Inl e, out)
              | (Inr (rows, logs), out) \<Rightarrow> (classify rows logs, out)))"

definition run_vql ::
  "velo_env \<Rightarrow> pystr \<Rightarrow> (pystr \<times> pystr) list \<Rightarrow> pystr option \<Rightarrow> nat \<Rightarrow> nat
     \<Rightarrow> (py_exc + json list) \<times> io_event list" where
  "run_vql w query env config_path timeout max_row =
     (let (res, out) = run_vql_raw w query env config_path timeout max_row
      in (case res of Inl e \<Rightarrow> Inl e | Inr (rows, logs) \<Rightarrow> Inr rows, out))"

section \<open>Specification-level definitions\<close>

text \<open>Abstract reading of a stream: all its rows in order (or the first decoding error), all its log lines.\<close>

fun stream_rows :: "nat \<Rightarrow> response list \<Rightarrow> py_exc + json list" where
  "stream_rows d [] = Inr []"
| "stream_rows d (r # rs) =
     (case response_rows d r of
       Inl e \<Rightarrow> Inl e
     | Inr xs \<Rightarrow> (case stream_rows d rs of Inl e \<Rightarrow> Inl e | Inr ys \<Rightarrow> Inr (xs @ ys)))"

definition stream_logs :: "response list \<Rightarrow> pystr list" where
  "stream_logs rs = concat (map (\<lambda>r. log_lines (resp_log r)) rs)"

definition echo :: "pystr \<Rightarrow> io_event" where
  "echo l = Stderr (''[velo] '' @ l)"

text \<open>The channel a configuration names, when it has all four keys.\<close>

definition cfg_channel :: "config \<Rightarrow> channel option" where
  "cfg_channel cfg =
     (case (cfg ''ca_certificate'', cfg ''client_private_key'', cfg ''client_cert'', cfg ''api_connection_string'') of
       (Some ca, Some key, Some cert, Some target) \<Rightarrow>
         Some \<lparr>chan_target = target, chan_root_certificates = ca, chan_private_key = key,
               chan_certificate_chain = cert, chan_name_override = ''VelociraptorServer''\<rparr>
     | _ \<Rightarrow> None)"

definition loads_channel :: "velo_env \<Rightarrow> pystr option \<Rightarrow> channel \<Rightarrow> bool" where
  "loads_channel w p ch \<longleftrightarrow>
     (case env_load_config w (config_path_of p) of None \<Rightarrow> False | Some cfg \<Rightarrow> cfg_channel cfg = Some ch)"

fun is_stderr :: "io_event \<Rightarrow> bool" where
  "is_stderr (Stderr _) = True"
| "is_stderr _ = False"

text \<open>A small world for the examples: a complete configuration and a server that streams \<open>st\<close>.\<close>

definition demo_cfg :: config where
  "demo_cfg = [''ca_certificate'' \<mapsto> ''CA'', ''client_private_key'' \<mapsto> ''KEY'',
               ''client_cert'' \<mapsto> ''CERT'', ''api_connection_string'' \<mapsto> ''velo:8001'']"

definition demo_env :: "response list \<times> stream_end \<Rightarrow> velo_env" where
  "demo_env st = \<lparr>env_load_config = (\<lambda>p. Some demo_cfg), env_server = (\<lambda>target rq t. st), env_json_depth = 100\<rparr>"

definition demo_chan :: channel where
  "demo_chan = \<lparr>chan_target = ''velo:8001'', chan_root_certificates = ''CA'', chan_private_key = ''KEY'',
                chan_certificate_chain = ''CERT'', chan_name_override = ''VelociraptorServer''\<rparr>"

text \<open>Example streams: a normal one, one with a permission denial and three rows, one with an error log only, one with a truncated payload.\<close>

definition demo_ok :: "response list" where
  "demo_ok = [\<lparr>resp_log = ''INFO: ok'', resp_Response = ''[{\"a\":1}]''\<rparr>]"

definition demo_perm :: "response list" where
  "demo_perm = [\<lparr>resp_log = ''PermissionDenied: x'', resp_Response = ''[{\"a\":1},{\"a\":2},{\"a\":3}]''\<rparr>]"

definition demo_err :: "response list" where
  "demo_err = [\<lparr>resp_log = ''ERROR: bad query'', resp_Response = []\<rparr>]"

definition demo_bad :: "response list" where
  "demo_bad = [\<lparr>resp_log = [], resp_Response = ''[1,''\<rparr>]"

section \<open>The response loop refines the stream reading\<close>

lemma log_lines_Nil [simp]: "log_lines [] = []"
  by (simp add: log_lines_def py_strip_def py_splitlines_def)

lemma take_log_eq:
  "take_log r acc = acc\<lparr>acc_logs := acc_logs acc @ log_lines (resp_log r),
                        acc_out := acc_out acc @ map echo (log_lines (resp_log r))\<rparr>"
  by (simp add: take_log_def echo_def)

lemma stream_logs_Cons [simp]: "stream_logs (r # rs) = log_lines (resp_log r) @ stream_logs rs"
  by (simp add: stream_logs_def)

lemma stream_logs_Nil [simp]: "stream_logs [] = []"
  by (simp add: stream_logs_def)

lemma consume_Inr:
  "stream_rows d rs = Inr ys \<Longrightarrow>
   consume d rs acc = (None, acc\<lparr>acc_rows := acc_rows acc @ ys,
                                 acc_logs := acc_logs acc @ stream_logs rs,
                                 acc_out := acc_out acc @ map echo (stream_logs rs)\<rparr>)"
proof (induction rs arbitrary: acc ys)
  case Nil
  then show ?case by simp
next
  case (Cons r rs)
  then obtain xs zs where r: "response_rows d r = Inr xs" and rs: "stream_rows d rs = Inr zs"
    and ys: "ys = xs @ zs"
    by (auto split: sum.splits)
  show ?case
    using Cons.IH [OF rs] r ys by (simp add: take_log_eq)
qed

lemma consume_Inl:
  "stream_rows d rs = Inl e \<Longrightarrow>
   \<exists>acc' ls. consume d rs acc = (Some e, acc') \<and> acc_out acc' = acc_out acc @ map echo ls"
proof (induction rs arbitrary: acc)
  case Nil
  then show ?case by simp
next
  case (Cons r rs)
  show ?case
  proof (cases "response_rows d r")
    case (Inl e')
    with Cons.prems show ?thesis by (auto simp: take_log_eq)
  next
    case (Inr xs)
    with Cons.prems have rs: "stream_rows d rs = Inl e" by (auto split: sum.splits)
    from Cons.IH [OF rs, of "take_log r acc\<lparr>acc_rows := acc_rows (take_log r acc) @ xs\<rparr>"]
    obtain acc' ls where "consume d rs (take_log r acc\<lparr>acc_rows := acc_rows (take_log r acc) @ xs\<rparr>) = (Some e, acc')"
      and "acc_out acc' = acc_out (take_log r acc) @ map echo ls"
      by auto
    with Inr show ?thesis
      by (auto simp: take_log_eq intro!: exI [of _ "log_lines (resp_log r) @ ls"])
  qed
qed

text \<open>
  C13.  Refinement of the response loop: from the initial state, the loop of
  lines 105--115 computes exactly the abstract reading of the stream, all rows
  in order and all log lines in order, each echoed once to stderr.
\<close>

theorem consume_refines_stream_reading:
  "stream_rows d rs = Inr ys \<Longrightarrow>
   consume d rs \<lparr>acc_rows = [], acc_logs = [], acc_out = out0\<rparr> =
     (None, \<lparr>acc_rows = ys, acc_logs = stream_logs rs, acc_out = out0 @ map echo (stream_logs rs)\<rparr>)"
  by (simp add: consume_Inr)

section \<open>Classification\<close>

lemma run_vql_raw_via_channel:
  assumes "loads_channel w p ch"
  shows "run_vql_raw w q e p t m =
           (case stream_call w ch (build_request q e m) t of
              (Inl x, out) \<Rightarrow> (Inl x, out)
            | (Inr (rows, logs), out) \<Rightarrow> (classify rows logs, out))"
proof -
  obtain cfg where cfg: "env_load_config w (config_path_of p) = Some cfg" and ch: "cfg_channel cfg = Some ch"
    using assms by (auto simp: loads_channel_def split: option.splits)
  then show ?thesis
    by (auto simp: run_vql_raw_def cfg_get_def cfg_channel_def Let_def split: option.splits)
qed

lemma stream_call_Inr:
  assumes "env_server w (chan_target ch) rq t = (resps, fin)"
    and "stream_rows (env_json_depth w) resps = Inr rows"
  shows "stream_call w ch rq t =
           ((case fin of RpcFailed msg \<Rightarrow> Inl (VeloConnectionError (GrpcFailure msg))
                       | StreamClosed \<Rightarrow> Inr (rows, stream_logs resps)),
            ChannelOpened ch # QuerySent rq t # map echo (stream_logs resps) @ [ChannelClosed])"
  using assms by (simp add: stream_call_def consume_Inr split: stream_end.splits)

lemma stream_call_Inl:
  assumes "env_server w (chan_target ch) rq t = (resps, fin)"
    and "stream_rows (env_json_depth w) resps = Inl x"
  shows "\<exists>ls. stream_call w ch rq t = (Inl x, ChannelOpened ch # QuerySent rq t # map echo ls @ [ChannelClosed])"
proof -
  obtain acc' ls where c: "consume (env_json_depth w) resps
       \<lparr>acc_rows = [], acc_logs = [], acc_out = [ChannelOpened ch, QuerySent rq t]\<rparr> = (Some x, acc')"
    and o: "acc_out acc' = [ChannelOpened ch, QuerySent rq t] @ map echo ls"
    using consume_Inl [OF assms(2)] by fastforce
  show ?thesis
    using assms(1) c o by (auto simp: stream_call_def)
qed

lemma classify_permission:
  "find (py_contains ''PermissionDenied'') logs = Some line \<Longrightarrow>
   classify rows logs = Inl (VeloPermissionError (''Permission denied: '' @ line))"
  by (simp add: classify_def)

text \<open>
  C5.  When the configuration names a channel, the stream closes normally, every
  response decodes, no log line mentions \<open>PermissionDenied\<close> and the query
  did not end with no rows and \<open>ERROR:\<close> lines, \<open>run_vql_raw\<close> returns all
  rows and all log lines in stream order; the trace opens the channel, sends the
  query, echoes each log line to stderr and closes the channel.
\<close>

theorem run_vql_raw_success:
  assumes "loads_channel w p ch"
    and "env_server w (chan_target ch) (build_request q e m) t = (resps, StreamClosed)"
    and "stream_rows (env_json_depth w) resps = Inr rows"
    and "find (py_contains ''PermissionDenied'') (stream_logs resps) = None"
    and "rows \<noteq> [] \<or> filter (py_contains ''ERROR:'') (stream_logs resps) = []"
  shows "run_vql_raw w q e p t m =
           (Inr (rows, stream_logs resps),
            ChannelOpened ch # QuerySent (build_request q e m) t # map echo (stream_logs resps) @ [ChannelClosed])"
  using assms by (auto simp: run_vql_raw_via_channel stream_call_Inr classify_def Let_def)

text \<open>
  C6.  A log line containing \<open>PermissionDenied\<close> makes the call fail with
  \<open>VeloPermissionError\<close> naming the first such line, even when rows came back.
\<close>

theorem run_vql_raw_permission_first:
  assumes "loads_channel w p ch"
    and "env_server w (chan_target ch) (build_request q e m) t = (resps, StreamClosed)"
    and "stream_rows (env_json_depth w) resps = Inr rows"
    and "find (py_contains ''PermissionDenied'') (stream_logs resps) = Some line"
  shows "fst (run_vql_raw w q e p t m) = Inl (VeloPermissionError (''Permission denied: '' @ line))"
  using assms by (simp add: run_vql_raw_via_channel stream_call_Inr classify_permission)

text \<open>
  C7.  No rows, no permission denial and at least one \<open>ERROR:\<close> line: the call
  fails with \<open>VeloAPIError\<close> carrying exactly those lines.
\<close>

theorem run_vql_raw_query_failure:
  assumes "loads_channel w p ch"
    and "env_server w (chan_target ch) (build_request q e m) t = (resps, StreamClosed)"
    and "stream_rows (env_json_depth w) resps = Inr []"
    and "find (py_contains ''PermissionDenied'') (stream_logs resps) = None"
    and "filter (py_contains ''ERROR:'') (stream_logs resps) \<noteq> []"
  shows "fst (run_vql_raw w q e p t m) =
           Inl (VeloAPIError (''VQL query returned no results with errors:'' @ ''\<newline>''
                              @ py_join ''\<newline>'' (filter (py_contains ''ERROR:'') (stream_logs resps))))"
  using assms by (simp add: run_vql_raw_via_channel stream_call_Inr classify_def Let_def)

text \<open>
  C8.  A \<open>grpc.RpcError\<close> from the stream is reported as
  \<open>VeloConnectionError\<close>, before and regardless of what the logs say.
\<close>

theorem run_vql_raw_transport_failure:
  assumes "loads_channel w p ch"
    and "env_server w (chan_target ch) (build_request q e m) t = (resps, RpcFailed msg)"
    and "stream_rows (env_json_depth w) resps = Inr rows"
  shows "fst (run_vql_raw w q e p t m) = Inl (VeloConnectionError (GrpcFailure msg))"
  using assms by (simp add: run_vql_raw_via_channel stream_call_Inr)

lemma list_all_is_stderr_echo [simp]: "list_all is_stderr (map echo ls)"
  by (induction ls) (simp_all add: echo_def)

lemma run_vql_raw_no_channel:
  assumes "env_load_config w (config_path_of p) = Some cfg" and "cfg_channel cfg = None"
  shows "\<exists>k. run_vql_raw w q e p t m = (Inl (KeyError k), [])"
  using assms by (auto simp: run_vql_raw_def cfg_get_def cfg_channel_def Let_def split: option.splits)

lemma run_vql_raw_trace:
  "snd (run_vql_raw w q e p t m) = [] \<or>
   (\<exists>ch mid. snd (run_vql_raw w q e p t m) =
               ChannelOpened ch # QuerySent (build_request q e m) t # mid @ [ChannelClosed]
             \<and> list_all is_stderr mid)"
proof (cases "env_load_config w (config_path_of p)")
  case None
  then show ?thesis by (simp add: run_vql_raw_def Let_def)
next
  case (Some cfg)
  show ?thesis
  proof (cases "cfg_channel cfg")
    case None
    with Some show ?thesis by (auto dest: run_vql_raw_no_channel [where q = q and e = e and t = t and m = m])
  next
    case ch: (Some ch)
    with Some have lc: "loads_channel w p ch" by (simp add: loads_channel_def)
    obtain resps fin where srv: "env_server w (chan_target ch) (build_request q e m) t = (resps, fin)"
      by fastforce
    show ?thesis
    proof (cases "stream_rows (env_json_depth w) resps")
      case (Inl x)
      then obtain ls where "stream_call w ch (build_request q e m) t =
          (Inl x, ChannelOpened ch # QuerySent (build_request q e m) t # map echo ls @ [ChannelClosed])"
        using stream_call_Inl [OF srv] by blast
      then show ?thesis
        using lc by (auto simp: run_vql_raw_via_channel)
    next
      case (Inr rows)
      then show ?thesis
        using lc stream_call_Inr [OF srv Inr]
        by (auto simp: run_vql_raw_via_channel split: stream_end.splits)
    qed
  qed
qed

text \<open>
  C9.  On every path the channel is either never opened or opened once, used for
  the one request built from the query, and closed as the very last event: no
  exception leaks it.
\<close>

theorem run_vql_raw_channel_closed:
  "snd (run_vql_raw w q e p t m) = [] \<or>
   (\<exists>ch mid. snd (run_vql_raw w q e p t m) =
               ChannelOpened ch # QuerySent (build_request q e m) t # mid @ [ChannelClosed]
             \<and> list_all is_stderr mid)"
  by (rule run_vql_raw_trace)

lemma response_rows_Inl:
  "response_rows d r = Inl x \<Longrightarrow> x = JSONDecodeError \<or> x = TypeError \<or> x = RecursionError"
proof -
  have it: "iter_json v = Inl x \<Longrightarrow> x = TypeError" for v
    by (cases v) auto
  have ld: "json_loads d s = Inl x \<Longrightarrow> x = JSONDecodeError \<or> x = RecursionError" for s
    by (auto simp: json_loads_def split: dres.splits if_splits)
  show "response_rows d r = Inl x \<Longrightarrow> ?thesis"
    by (auto simp: response_rows_def split: if_splits sum.splits dest: it ld)
qed

lemma stream_rows_Inl:
  "stream_rows d rs = Inl x \<Longrightarrow> x = JSONDecodeError \<or> x = TypeError \<or> x = RecursionError"
  by (induction rs) (auto split: sum.splits dest: response_rows_Inl)

text \<open>
  C10.  A response whose payload does not decode to an iterable escapes as
  \<open>JSONDecodeError\<close>, \<open>TypeError\<close> or \<open>RecursionError\<close>, none of
  which is a \<open>VeloAPIError\<close>.
\<close>

theorem run_vql_raw_decode_error:
  assumes "loads_channel w p ch"
    and "env_server w (chan_target ch) (build_request q e m) t = (resps, fin)"
    and "stream_rows (env_json_depth w) resps = Inl x"
  shows "fst (run_vql_raw w q e p t m) = Inl x \<and> \<not> is_velo_api_error x"
proof -
  obtain ls where "stream_call w ch (build_request q e m) t =
      (Inl x, ChannelOpened ch # QuerySent (build_request q e m) t # map echo ls @ [ChannelClosed])"
    using stream_call_Inl [OF assms(2,3)] by blast
  moreover have "\<not> is_velo_api_error x"
    using stream_rows_Inl [OF assms(3)] by auto
  ultimately show ?thesis
    using assms(1) by (simp add: run_vql_raw_via_channel)
qed

text \<open>
  C11.  A configuration file that does not load is a \<open>VeloConnectionError\<close>
  naming the path, and nothing is opened.
\<close>

theorem run_vql_raw_config_unloadable:
  "env_load_config w (config_path_of p) = None \<Longrightarrow>
   run_vql_raw w q e p t m = (Inl (VeloConnectionError (ConfigLoadFailed (config_path_of p))), [])"
  by (simp add: run_vql_raw_def)

text \<open>
  C12.  A configuration that loads but lacks one of the four keys raises
  \<open>KeyError\<close>, which is not a \<open>VeloAPIError\<close>, and nothing is opened.
\<close>

theorem run_vql_raw_config_key_missing:
  "env_load_config w (config_path_of p) = Some cfg \<Longrightarrow> cfg_channel cfg = None \<Longrightarrow>
   \<exists>k. run_vql_raw w q e p t m = (Inl (KeyError k), []) \<and> \<not> is_velo_api_error (KeyError k)"
  using run_vql_raw_no_channel by fastforce

section \<open>Witnesses\<close>

lemma demo_loads_channel: "loads_channel (demo_env st) p demo_chan"
  by (simp add: loads_channel_def demo_env_def cfg_channel_def demo_cfg_def demo_chan_def)

lemma demo_server: "env_server (demo_env st) target rq t = st"
  by (simp add: demo_env_def)

lemma demo_depth: "env_json_depth (demo_env st) = 100"
  by (simp add: demo_env_def)

theorem run_vql_raw_success_witness:
  "run_vql_raw (demo_env (demo_ok, StreamClosed)) ''SELECT 1'' [] None 600 1000 =
     (Inr ([JObj [(''a'', JInt 1)]], [''INFO: ok'']),
      [ChannelOpened demo_chan, QuerySent (build_request ''SELECT 1'' [] 1000) 600,
       Stderr ''[velo] INFO: ok'', ChannelClosed])"
proof -
  have r: "stream_rows 100 demo_ok = Inr [JObj [(''a'', JInt 1)]]"
    by code_simp
  have l: "stream_logs demo_ok = [''INFO: ok'']"
    by code_simp
  have f: "find (py_contains ''PermissionDenied'') [''INFO: ok''] = None"
    by code_simp
  show ?thesis
    using run_vql_raw_success [OF demo_loads_channel demo_server, of demo_ok, unfolded demo_depth, OF r]
      l f by (simp add: echo_def)
qed

theorem run_vql_raw_permission_first_witness:
  "fst (run_vql_raw (demo_env (demo_perm, StreamClosed)) ''SELECT 1'' [] None 600 1000) =
     Inl (VeloPermissionError (''Permission denied: '' @ ''PermissionDenied: x''))"
proof -
  have r: "stream_rows 100 demo_perm = Inr [JObj [(''a'', JInt 1)], JObj [(''a'', JInt 2)], JObj [(''a'', JInt 3)]]"
    by code_simp
  have f: "find (py_contains ''PermissionDenied'') (stream_logs demo_perm) = Some ''PermissionDenied: x''"
    by code_simp
  show ?thesis
    using run_vql_raw_permission_first [OF demo_loads_channel demo_server, of demo_perm, unfolded demo_depth, OF r f] .
qed

theorem run_vql_raw_query_failure_witness:
  "fst (run_vql_raw (demo_env (demo_err, StreamClosed)) ''SELECT 1'' [] None 600 1000) =
     Inl (VeloAPIError (''VQL query returned no results with errors:'' @ ''\<newline>'' @ ''ERROR: bad query''))"
proof -
  have r: "stream_rows 100 demo_err = Inr []"
    by code_simp
  have l: "stream_logs demo_err = [''ERROR: bad query'']"
    by code_simp
  have f: "find (py_contains ''PermissionDenied'') [''ERROR: bad query''] = None"
    by code_simp
  have e: "filter (py_contains ''ERROR:'') [''ERROR: bad query''] = [''ERROR: bad query'']"
    by code_simp
  show ?thesis
    using run_vql_raw_query_failure [OF demo_loads_channel demo_server, of demo_err, unfolded demo_depth l, OF r f]
      e by simp
qed

theorem run_vql_raw_transport_failure_witness:
  "fst (run_vql_raw (demo_env (demo_perm, RpcFailed ''DEADLINE_EXCEEDED'')) ''SELECT 1'' [] None 600 1000) =
     Inl (VeloConnectionError (GrpcFailure ''DEADLINE_EXCEEDED''))"
proof -
  have r: "stream_rows 100 demo_perm = Inr [JObj [(''a'', JInt 1)], JObj [(''a'', JInt 2)], JObj [(''a'', JInt 3)]]"
    by code_simp
  show ?thesis
    using run_vql_raw_transport_failure [OF demo_loads_channel demo_server, unfolded demo_depth, OF r] .
qed

theorem run_vql_raw_decode_error_witness:
  "fst (run_vql_raw (demo_env (demo_bad, StreamClosed)) ''SELECT 1'' [] None 600 1000) = Inl JSONDecodeError"
proof -
  have r: "stream_rows 100 demo_bad = Inl JSONDecodeError"
    by code_simp
  show ?thesis
    using run_vql_raw_decode_error [OF demo_loads_channel demo_server, unfolded demo_depth, OF r] by simp
qed

theorem run_vql_raw_config_unloadable_witness:
  "run_vql_raw \<lparr>env_load_config = (\<lambda>p. None), env_server = (\<lambda>target rq t. ([], StreamClosed)),
                env_json_depth = 100\<rparr> ''SELECT 1'' [] None 600 1000 =
     (Inl (VeloConnectionError (ConfigLoadFailed ''config/api.config.yaml'')), [])"
  using run_vql_raw_config_unloadable [of "\<lparr>env_load_config = (\<lambda>p. None),
          env_server = (\<lambda>target rq t. ([], StreamClosed)), env_json_depth = 100\<rparr>" None]
  by (simp add: config_path_of_def default_config_def)

theorem run_vql_raw_config_key_missing_witness:
  "\<exists>k. run_vql_raw \<lparr>env_load_config = (\<lambda>p. Some [''ca_certificate'' \<mapsto> ''CA'']),
                     env_server = (\<lambda>target rq t. ([], StreamClosed)), env_json_depth = 100\<rparr>
          ''SELECT 1'' [] None 600 1000 = (Inl (KeyError k), [])"
proof -
  have c: "cfg_channel [''ca_certificate'' \<mapsto> ''CA''] = None"
    by (simp add: cfg_channel_def)
  show ?thesis
    using run_vql_raw_config_key_missing [of "\<lparr>env_load_config = (\<lambda>p. Some [''ca_certificate'' \<mapsto> ''CA'']),
          env_server = (\<lambda>target rq t. ([], StreamClosed)), env_json_depth = 100\<rparr>" None _ , OF _ c]
    by auto
qed

theorem consume_refines_stream_reading_witness:
  "consume 100 demo_ok \<lparr>acc_rows = [], acc_logs = [], acc_out = []\<rparr> =
     (None, \<lparr>acc_rows = [JObj [(''a'', JInt 1)]], acc_logs = [''INFO: ok''],
             acc_out = [Stderr ''[velo] INFO: ok'']\<rparr>)"
proof -
  have r: "stream_rows 100 demo_ok = Inr [JObj [(''a'', JInt 1)]]"
    by code_simp
  have l: "stream_logs demo_ok = [''INFO: ok'']"
    by code_simp
  show ?thesis
    using consume_refines_stream_reading [OF r, of "[]"] l by (simp add: echo_def)
qed

end
