(* ===== verification/Poller.thy ===== *)
theory Poller
  imports Client
begin

text \<open>
  \<^verbatim>\<open>scripts/velo_api.py\<close>, \<open>poll_until\<close> (lines 292--319).  Time is an
  integer clock (\<open>time.time()\<close>).  The world changes between attempts: the
  \<open>k\<close>-th call of \<open>run_vql\<close> runs against \<open>pe_world pe k\<close> and takes
  \<open>pe_duration pe k\<close>; \<open>time.sleep\<close> advances the clock by exactly its
  argument and raises \<open>ValueError\<close> on a negative one.  The loop has no
  bound of its own, so it is a \<open>partial_function (option)\<close>; it is shown to
  return whenever the interval or every query takes positive time.
\<close>

record poll_env =
  pe_world :: "nat \<Rightarrow> velo_env"
  pe_duration :: "nat \<Rightarrow> int"

text \<open>
  The outcome: an exception, the accepted rows (\<open>Some rows\<close>) or \<open>None\<close>
  past the deadline; with the clock when \<open>poll_until\<close> returns.
\<close>

type_synonym poll_result = "(py_exc + json list option) \<times> int"

text \<open>
  Lines 307--310: one call of \<open>run_vql\<close> with the default timeout and row
  cap; \<open>except VeloAPIError\<close> turns every \<open>VeloAPIError\<close> (and its
  subclasses) into \<open>[]\<close>, any other exception escapes.
\<close>

definition poll_attempt :: "poll_env \<Rightarrow> pystr \<Rightarrow> pystr option \<Rightarrow> nat \<Rightarrow> py_exc + json list" where
  "poll_attempt pe query cp k =
     (case fst (run_vql (pe_world pe k) query [] cp 600 1000) of
        Inl e \<Rightarrow> if is_velo_api_error e then Inr [] else Inl e
      | Inr rows \<Rightarrow> Inr rows)"

text \<open>
  Lines 306--317 at attempt \<open>k\<close> and time \<open>now\<close>: while the deadline
  is ahead, an attempt, the predicate, then a sleep of
  \<open>min(interval, remaining)\<close> when time remains.
\<close>

partial_function (option) poll_loop ::
  "poll_env \<Rightarrow> pystr \<Rightarrow> (json list \<Rightarrow> bool) \<Rightarrow> pystr option \<Rightarrow> int \<Rightarrow> int \<Rightarrow> nat \<Rightarrow> int
     \<Rightarrow> poll_result option" where
  "poll_loop pe query pred cp interval deadline k now =
     (if now < deadline then
        (let now1 = now + pe_duration pe k
         in case poll_attempt pe query cp k of
              Inl e \<Rightarrow> Some (Inl e, now1)
            | Inr rows \<Rightarrow>
                if pred rows then Some (Inr (Some rows), now1)
                else (let remaining = deadline - now1 in
                      if 0 < remaining then
                        (if min interval remaining < 0 then Some (Inl ValueError, now1)
                         else poll_loop pe query pred cp interval deadline (Suc k) (now1 + min interval remaining))
                      else poll_loop pe query pred cp interval deadline (Suc k) now1))
      else Some (Inr None, now))"

text \<open>Line 305: the deadline is fixed when the call starts at time \<open>t0\<close>.\<close>

definition poll_until ::
  "poll_env \<Rightarrow> pystr \<Rightarrow> (json list \<Rightarrow> bool) \<Rightarrow> int \<Rightarrow> int \<Rightarrow> pystr option \<Rightarrow> int \<Rightarrow> poll_result option" where
  "poll_until pe query pred timeout interval cp t0 =
     poll_loop pe query pred cp interval (t0 + timeout) 0 t0"

text \<open>
  The recursion equation of \<open>poll_loop\<close> is also its code equation, so that a
  run of the loop on a concrete world evaluates by \<open>code_simp\<close>.
\<close>

declare poll_loop.simps [code]

subsection \<open>Concrete worlds\<close>

text \<open>
  Scenario 5 of the specification: the first two attempts fail with a query
  failure (\<open>demo_err\<close>: no rows, one \<open>ERROR:\<close> line), the third returns a row;
  queries take no time.
\<close>

definition demo_poll :: poll_env where
  "demo_poll = \<lparr>pe_world = (\<lambda>k. if k < 2 then demo_env (demo_err, StreamClosed) else demo_env (demo_ok, StreamClosed)),
                pe_duration = (\<lambda>k. 0)\<rparr>"

text \<open>Every attempt is a query failure; queries take no time.\<close>

definition demo_poll_fail :: poll_env where
  "demo_poll_fail = \<lparr>pe_world = (\<lambda>k. demo_env (demo_err, StreamClosed)), pe_duration = (\<lambda>k. 0)\<rparr>"

text \<open>Every attempt is a query failure that takes 10 seconds.\<close>

definition demo_poll_slow :: poll_env where
  "demo_poll_slow = \<lparr>pe_world = (\<lambda>k. demo_env (demo_err, StreamClosed)), pe_duration = (\<lambda>k. 10)\<rparr>"

text \<open>Every attempt receives a truncated \<open>Response\<close> (\<open>demo_bad\<close>).\<close>

definition demo_poll_bad :: poll_env where
  "demo_poll_bad = \<lparr>pe_world = (\<lambda>k. demo_env (demo_bad, StreamClosed)), pe_duration = (\<lambda>k. 0)\<rparr>"



subsection \<open>The loop\<close>

text \<open>
  Termination by the distance to the deadline, which shrinks at each
  iteration when the sleep or every query takes positive time; partial
  correctness by fixpoint induction (\<open>poll_loop.raw_induct\<close>).
\<close>

lemma poll_loop_unfold_after:
  "now \<ge> deadline \<Longrightarrow> poll_loop pe query pred cp interval deadline k now = Some (Inr None, now)"
  by (subst poll_loop.simps) simp

lemma poll_loop_returns:
  assumes pos: "0 < interval \<or> (\<forall>j. 0 < pe_duration pe j)"
    and nn: "\<forall>j. 0 \<le> pe_duration pe j"
  shows "\<exists>r. poll_loop pe query pred cp interval deadline k now = Some r"
proof (induction "nat (deadline - now)" arbitrary: k now rule: less_induct)
  case less
  show ?case
  proof (cases "now < deadline")
    case False
    then show ?thesis by (simp add: poll_loop_unfold_after)
  next
    case early: True
    define now1 where "now1 = now + pe_duration pe k"
    have ge: "now \<le> now1" using nn by (simp add: now1_def)
    show ?thesis
    proof (cases "poll_attempt pe query cp k")
      case (Inl e)
      with early show ?thesis by (subst poll_loop.simps) simp
    next
      case (Inr rows)
      show ?thesis
      proof (cases "pred rows")
        case True
        with early Inr show ?thesis by (subst poll_loop.simps) simp
      next
        case rej: False
        consider (sleep) "0 < deadline - now1" "0 \<le> min interval (deadline - now1)"
          | (bad) "0 < deadline - now1" "min interval (deadline - now1) < 0"
          | (late) "\<not> 0 < deadline - now1"
          by linarith
        then show ?thesis
        proof cases
          case sleep
          have "now < now1 + min interval (deadline - now1)"
          proof (cases "0 < interval")
            case True
            then show ?thesis using ge sleep by (auto simp: now1_def min_def)
          next
            case False
            then have "0 < pe_duration pe k" using pos by blast
            then show ?thesis using sleep by (simp add: now1_def)
          qed
          then have "nat (deadline - (now1 + min interval (deadline - now1))) < nat (deadline - now)"
            using early by simp
          then obtain r where
            "poll_loop pe query pred cp interval deadline (Suc k) (now1 + min interval (deadline - now1)) = Some r"
            using less by blast
          then show ?thesis
            using early Inr rej sleep by (subst poll_loop.simps) (simp add: now1_def [symmetric] Let_def)
        next
          case bad
          then have "interval < 0" by (auto simp: min_def split: if_splits)
          with bad show ?thesis
            using early Inr rej by (subst poll_loop.simps) (simp add: now1_def [symmetric] Let_def)
        next
          case late
          then have "nat (deadline - now1) < nat (deadline - now)"
            using early by simp
          then obtain r where "poll_loop pe query pred cp interval deadline (Suc k) now1 = Some r"
            using less by blast
          then show ?thesis
            using early Inr rej late by (subst poll_loop.simps) (simp add: now1_def [symmetric] Let_def)
        qed
      qed
    qed
  qed
qed

lemma poll_loop_accepts:
  assumes ret: "poll_loop pe query pred cp interval deadline k now = Some r"
  shows "\<forall>rows. fst r = Inr (Some rows) \<longrightarrow> pred rows"
  by (rule poll_loop.raw_induct
        [where P = "\<lambda>pe query pred cp interval deadline k now r. \<forall>rows. fst r = Inr (Some rows) \<longrightarrow> pred rows",
         OF _ ret])
     (auto simp: Let_def split: if_splits sum.splits; blast)

lemma poll_loop_time_bound:
  assumes ret: "poll_loop pe query pred cp interval deadline k now = Some r"
    and dur: "\<forall>j. 0 \<le> pe_duration pe j \<and> pe_duration pe j \<le> D"
    and start: "now \<le> deadline + D"
  shows "snd r \<le> deadline + D"
proof -
  have "(\<forall>j. 0 \<le> pe_duration pe j \<and> pe_duration pe j \<le> D) \<longrightarrow> now \<le> deadline + D \<longrightarrow> snd r \<le> deadline + D"
    by (rule poll_loop.raw_induct
        [where P = "\<lambda>pe query pred cp interval deadline k now r.
                     (\<forall>j. 0 \<le> pe_duration pe j \<and> pe_duration pe j \<le> D) \<longrightarrow> now \<le> deadline + D \<longrightarrow> snd r \<le> deadline + D",
         OF _ ret])
       (auto simp: Let_def min_def split: if_splits sum.splits; smt (verit))
  with dur start show ?thesis by blast
qed

lemma poll_loop_no_accept:
  assumes ret: "poll_loop pe query pred cp interval deadline k now = Some r"
    and fails: "\<forall>j. poll_attempt pe query cp j = Inr []"
    and rej: "\<not> pred []" and iv: "0 \<le> interval"
  shows "fst r = Inr None"
proof -
  have "(\<forall>j. poll_attempt pe query cp j = Inr []) \<longrightarrow> \<not> pred [] \<longrightarrow> 0 \<le> interval \<longrightarrow> fst r = Inr None"
    by (rule poll_loop.raw_induct
        [where P = "\<lambda>pe query pred cp interval deadline k now r.
                     (\<forall>j. poll_attempt pe query cp j = Inr []) \<longrightarrow> \<not> pred [] \<longrightarrow> 0 \<le> interval \<longrightarrow> fst r = Inr None",
         OF _ ret])
       (auto simp: Let_def min_def split: if_splits sum.splits)
  with fails rej iv show ?thesis by blast
qed

lemma poll_loop_eventually:
  assumes dur: "\<forall>j. pe_duration pe j = 0" and iv: "0 < interval"
    and rej: "\<forall>j<m. \<exists>rs. poll_attempt pe query cp (k + j) = Inr rs \<and> \<not> pred rs"
    and acc: "poll_attempt pe query cp (k + m) = Inr rows" "pred rows"
    and time: "now + int m * interval < deadline"
  shows "poll_loop pe query pred cp interval deadline k now = Some (Inr (Some rows), now + int m * interval)"
  using rej acc time
proof (induction m arbitrary: k now)
  case 0
  then show ?case using dur by (subst poll_loop.simps) simp
next
  case (Suc m)
  obtain rs where a: "poll_attempt pe query cp k = Inr rs" "\<not> pred rs"
    using Suc.prems(1) by (metis add_0_right zero_less_Suc)
  have lt: "now + interval + int m * interval < deadline" using Suc.prems(4) by (simp add: algebra_simps)
  have nn: "0 \<le> int m * interval" using iv by simp
  have e1: "now < deadline" "0 < deadline - now" using lt iv nn by linarith+
  have e2: "interval \<le> deadline - now" using lt nn by linarith
  have early: "now < deadline" "min interval (deadline - now) = interval" "0 < deadline - now"
    using e1 e2 by (simp_all add: min_def)
  have rej': "\<forall>j<m. \<exists>rs. poll_attempt pe query cp (Suc k + j) = Inr rs \<and> \<not> pred rs"
    using Suc.prems(1) by auto
  have next_: "poll_loop pe query pred cp interval deadline (Suc k) (now + interval)
               = Some (Inr (Some rows), now + interval + int m * interval)"
    using Suc.IH [OF rej' _ Suc.prems(3) lt] Suc.prems(2) by simp
  show ?case
    using early a dur iv next_ by (subst poll_loop.simps) (simp add: Let_def algebra_simps)
qed

lemma poll_attempt_api_error:
  "fst (run_vql (pe_world pe k) query [] cp 600 1000) = Inl e \<Longrightarrow>
   poll_attempt pe query cp k = (if is_velo_api_error e then Inr [] else Inl e)"
  by (simp add: poll_attempt_def)

subsection \<open>Properties of \<open>poll_until\<close>\<close>

text \<open>
  C14: \<open>poll_until\<close> returns (the loop terminates) whenever the interval is
  positive or every query takes positive time, and no query takes negative time.
\<close>

theorem poll_until_returns:
  assumes "0 < interval \<or> (\<forall>j. 0 < pe_duration pe j)" and "\<forall>j. 0 \<le> pe_duration pe j"
  shows "\<exists>r. poll_until pe query pred timeout interval cp t0 = Some r"
  unfolding poll_until_def using poll_loop_returns [OF assms] .

text \<open>
  C15: Rows that \<open>poll_until\<close> returns satisfy the predicate.
\<close>

theorem poll_until_accepts:
  "poll_until pe query pred timeout interval cp t0 = Some (Inr (Some rows), t) \<Longrightarrow> pred rows"
  unfolding poll_until_def by (drule poll_loop_accepts) simp

text \<open>
  C16: \<open>poll_until\<close> returns no later than the deadline plus the longest
  single query: with a non-negative timeout and every query taking between 0
  and \<open>D\<close> seconds, the clock at return is at most \<open>t0 + timeout + D\<close>.
\<close>

theorem poll_until_time_bound:
  assumes "poll_until pe query pred timeout interval cp t0 = Some r"
    and "0 \<le> timeout" and "\<forall>j. 0 \<le> pe_duration pe j \<and> pe_duration pe j \<le> D"
  shows "snd r \<le> t0 + timeout + D"
proof -
  have "0 \<le> D" using assms(3) by (meson order_trans)
  then show ?thesis
    using poll_loop_time_bound [OF assms(1) [unfolded poll_until_def] assms(3)] assms(2) by simp
qed

text \<open>
  C17: When every attempt raises a \<open>VeloAPIError\<close> (of any subclass, so also a
  connection or permission failure) and the predicate rejects \<open>[]\<close>,
  \<open>poll_until\<close> swallows them all and times out with \<open>None\<close>.
\<close>

theorem poll_until_swallows_velo_errors:
  assumes "\<forall>j. \<exists>e. fst (run_vql (pe_world pe j) query [] cp 600 1000) = Inl e \<and> is_velo_api_error e"
    and "\<not> pred []" and "0 < interval" and "\<forall>j. 0 \<le> pe_duration pe j"
  shows "\<exists>t. poll_until pe query pred timeout interval cp t0 = Some (Inr None, t)"
proof -
  have fails: "\<forall>j. poll_attempt pe query cp j = Inr []"
    using assms(1) poll_attempt_api_error by metis
  obtain r where r: "poll_until pe query pred timeout interval cp t0 = Some r"
    using poll_until_returns [of interval pe] assms(3,4) by blast
  then have "fst r = Inr None"
    using poll_loop_no_accept [OF r [unfolded poll_until_def] fails assms(2)] assms(3) by simp
  with r show ?thesis by (metis prod.collapse)
qed

text \<open>
  C18: An exception that is not a \<open>VeloAPIError\<close> (a \<open>JSONDecodeError\<close>, a
  \<open>TypeError\<close>, a \<open>KeyError\<close> of the configuration) escapes \<open>poll_until\<close> at
  the first attempt.
\<close>

theorem poll_until_propagates_other_errors:
  assumes "0 < timeout"
    and "fst (run_vql (pe_world pe 0) query [] cp 600 1000) = Inl e" and "\<not> is_velo_api_error e"
  shows "poll_until pe query pred timeout interval cp t0 = Some (Inl e, t0 + pe_duration pe 0)"
  using assms by (simp add: poll_until_def poll_loop.simps [of pe query pred cp interval "t0 + timeout" 0 t0]
                            poll_attempt_api_error)

text \<open>
  C19: A failed attempt counts as the empty row list: when the predicate accepts
  \<open>[]\<close>, a \<open>VeloAPIError\<close> at the first attempt makes \<open>poll_until\<close> return
  \<open>[]\<close> as accepted rows.
\<close>

theorem poll_until_accepts_failure_as_empty:
  assumes "0 < timeout"
    and "fst (run_vql (pe_world pe 0) query [] cp 600 1000) = Inl e" and "is_velo_api_error e"
    and "pred []"
  shows "poll_until pe query pred timeout interval cp t0 = Some (Inr (Some []), t0 + pe_duration pe 0)"
  using assms by (simp add: poll_until_def poll_loop.simps [of pe query pred cp interval "t0 + timeout" 0 t0]
                            poll_attempt_api_error)

text \<open>
  C37.  Liveness: when queries take no time and the interval is positive, if
  the attempts before the \<open>n\<close>-th are rejected, the \<open>n\<close>-th is
  accepted and \<open>n\<close> intervals fit before the deadline, \<open>poll_until\<close>
  returns the \<open>n\<close>-th rows after \<open>n\<close> sleeps of a full interval.
\<close>

theorem poll_until_eventually_accepts:
  assumes "\<forall>j. pe_duration pe j = 0" and "0 < interval"
    and "\<forall>j<n. \<exists>rs. poll_attempt pe query cp j = Inr rs \<and> \<not> pred rs"
    and "poll_attempt pe query cp n = Inr rows" and "pred rows" and "int n * interval < timeout"
  shows "poll_until pe query pred timeout interval cp t0 = Some (Inr (Some rows), t0 + int n * interval)"
  using poll_loop_eventually [where k = 0 and m = n and now = t0 and deadline = "t0 + timeout"] assms
  by (simp add: poll_until_def)



subsection \<open>Witnesses\<close>

lemma demo_err_run_vql:
  "fst (run_vql (demo_env (demo_err, StreamClosed)) ''SELECT 1'' [] None 600 1000) =
   Inl (VeloAPIError (''VQL query returned no results with errors:'' @ ''\<newline>'' @ ''ERROR: bad query''))"
  by code_simp

lemma demo_bad_run_vql:
  "fst (run_vql (demo_env (demo_bad, StreamClosed)) ''SELECT 1'' [] None 600 1000) = Inl JSONDecodeError"
  by code_simp

theorem poll_until_returns_witness:
  "\<exists>r. poll_until demo_poll ''SELECT 1'' (\<lambda>rows. rows \<noteq> []) 6 2 None 0 = Some r"
  using poll_until_returns [of 2 demo_poll] by (simp add: demo_poll_def)

lemma demo_poll_run:
  "poll_until demo_poll ''SELECT 1'' (\<lambda>rows. rows \<noteq> []) 6 2 None 0 = Some (Inr (Some [JObj [(''a'', JInt 1)]]), 4)"
  by code_simp

lemma demo_poll_slow_run:
  "poll_until demo_poll_slow ''SELECT 1'' (\<lambda>rows. rows \<noteq> []) 6 2 None 0 = Some (Inr None, 10)"
  by code_simp

theorem poll_until_accepts_witness:
  "[JObj [(''a'', JInt 1)]] \<noteq> []"
  using poll_until_accepts [OF demo_poll_run] by simp

theorem poll_until_time_bound_witness:
  "snd (the (poll_until demo_poll_slow ''SELECT 1'' (\<lambda>rows. rows \<noteq> []) 6 2 None 0)) \<le> 0 + 6 + 10"
proof -
  have d: "\<forall>j. 0 \<le> pe_duration demo_poll_slow j \<and> pe_duration demo_poll_slow j \<le> 10"
    by (simp add: demo_poll_slow_def)
  show ?thesis
    using poll_until_time_bound [OF demo_poll_slow_run _ d] demo_poll_slow_run by simp
qed

theorem poll_until_swallows_velo_errors_witness:
  "\<exists>t. poll_until demo_poll_fail ''SELECT 1'' (\<lambda>rows. rows \<noteq> []) 6 2 None 0 = Some (Inr None, t)"
  using poll_until_swallows_velo_errors [of demo_poll_fail "''SELECT 1''" None "\<lambda>rows. rows \<noteq> []" 2 6 0]
  by (simp add: demo_poll_fail_def demo_err_run_vql)

theorem poll_until_propagates_other_errors_witness:
  "poll_until demo_poll_bad ''SELECT 1'' (\<lambda>rows. rows \<noteq> []) 6 2 None 0 = Some (Inl JSONDecodeError, 0)"
  using poll_until_propagates_other_errors [of 6 demo_poll_bad "''SELECT 1''" None JSONDecodeError]
  by (simp add: demo_poll_bad_def demo_bad_run_vql)

theorem poll_until_accepts_failure_as_empty_witness:
  "poll_until demo_poll_fail ''SELECT 1'' (\<lambda>rows. rows = []) 6 2 None 0 = Some (Inr (Some []), 0)"
  using poll_until_accepts_failure_as_empty [of 6 demo_poll_fail "''SELECT 1''" None]
  by (simp add: demo_poll_fail_def demo_err_run_vql)

lemma demo_ok_run_vql:
  "fst (run_vql (demo_env (demo_ok, StreamClosed)) ''SELECT 1'' [] None 600 1000) = Inr [JObj [(''a'', JInt 1)]]"
  by code_simp

theorem poll_until_eventually_accepts_witness:
  "poll_until demo_poll ''SELECT 1'' (\<lambda>rows. rows \<noteq> []) 6 2 None 0 = Some (Inr (Some [JObj [(''a'', JInt 1)]]), 0 + int 2 * 2)"
proof -
  have "\<forall>j<2. \<exists>rs. poll_attempt demo_poll ''SELECT 1'' None j = Inr rs \<and> \<not> rs \<noteq> []"
    by (simp add: poll_attempt_def demo_poll_def demo_err_run_vql)
  moreover have "poll_attempt demo_poll ''SELECT 1'' None 2 = Inr [JObj [(''a'', JInt 1)]]"
    by (simp add: poll_attempt_def demo_poll_def demo_ok_run_vql)
  ultimately show ?thesis
    by (intro poll_until_eventually_accepts) (simp_all add: demo_poll_def)
qed

end
