(* ===== verification/Builders.thy ===== *)
theory Builders
  imports Client
begin

text \<open>
  The convenience functions of \<^verbatim>\<open>scripts/velo_api.py\<close> (lines 161--289):
  each formats a VQL query, runs it with \<open>run_vql\<close> and returns the rows or
  the first row.  Two formatters of the library are modelled with them:
  \<open>str(int)\<close> (\<open>dec_digits\<close>, \<open>py_str_int\<close>), used by \<open>int(limit)\<close>, and
  \<open>json.dumps\<close> with its defaults (\<open>ensure_ascii=True\<close>, separators
  \<open>", "\<close> and \<open>": "\<close>), used by \<open>schedule_hunt\<close>.  A Python \<open>str\<close> is a
  sequence of Unicode scalar values; \<open>str_of_cps\<close> is its UTF-8 model.
\<close>

section \<open>\<open>str(int)\<close>\<close>

fun dec_digits :: "nat \<Rightarrow> pystr" where
  "dec_digits n = (if n < 10 then [char_of (48 + n)] else dec_digits (n div 10) @ [char_of (48 + n mod 10)])"

declare dec_digits.simps [simp del]

definition py_str_int :: "int \<Rightarrow> pystr" where
  "py_str_int i = (if i < 0 then CHR ''-'' # dec_digits (nat (- i)) else dec_digits (nat i))"

section \<open>\<open>json.dumps\<close>\<close>

definition hex_digit :: "nat \<Rightarrow> char" where
  "hex_digit n = (if n < 10 then char_of (48 + n) else char_of (87 + n))"

text \<open>\<open>\uXXXX\<close> with four lower-case hexadecimal digits (\<open>ascii_escape_unichar\<close>).\<close>

definition u_escape :: "nat \<Rightarrow> pystr" where
  "u_escape u = [CHR 0x5C, CHR ''u'', hex_digit (u div 0x1000 mod 16), hex_digit (u div 0x100 mod 16),
                 hex_digit (u div 0x10 mod 16), hex_digit (u mod 16)]"

text \<open>
  One code point as \<open>py_encode_basestring_ascii\<close> writes it: printable
  ASCII other than the quote and the backslash as itself, the two-character
  escapes, then \<open>\uXXXX\<close>, with a surrogate pair above the BMP.
\<close>

definition escape_cp :: "codepoint \<Rightarrow> pystr" where
  "escape_cp u =
     (if 0x20 \<le> u \<and> u \<le> 0x7E \<and> u \<noteq> 0x22 \<and> u \<noteq> 0x5C then [char_of u]
      else if u = 0x22 then [CHR 0x5C, CHR ''\"'']
      else if u = 0x5C then [CHR 0x5C, CHR 0x5C]
      else if u = 0x08 then [CHR 0x5C, CHR ''b'']
      else if u = 0x0C then [CHR 0x5C, CHR ''f'']
      else if u = 0x0A then [CHR 0x5C, CHR ''n'']
      else if u = 0x0D then [CHR 0x5C, CHR ''r'']
      else if u = 0x09 then [CHR 0x5C, CHR ''t'']
      else if u < 0x10000 then u_escape u
      else u_escape (0xD800 + (u - 0x10000) div 0x400) @ u_escape (0xDC00 + (u - 0x10000) mod 0x400))"

definition json_escape :: "pystr \<Rightarrow> pystr" where
  "json_escape s = concat (map (\<lambda>g. escape_cp (utf8_value (map of_char g))) (code_points s))"

definition dumps_str :: "pystr \<Rightarrow> pystr" where
  "dumps_str s = CHR ''\"'' # json_escape s @ [CHR ''\"'']"

text \<open>
  \<open>json.dumps(v)\<close>.  A float is printed as its \<open>repr\<close>, which the model
  holds as the lexeme of \<open>JFloat\<close>.
\<close>

fun json_dumps :: "json \<Rightarrow> pystr" where
  "json_dumps JNull = ''null''"
| "json_dumps (JBool b) = (if b then ''true'' else ''false'')"
| "json_dumps (JInt i) = py_str_int i"
| "json_dumps (JFloat f) = f"
| "json_dumps (JStr s) = dumps_str s"
| "json_dumps (JArr xs) = CHR ''['' # py_join '', '' (map json_dumps xs) @ '']''"
| "json_dumps (JObj kvs) =
     CHR ''{'' # py_join '', '' (map (\<lambda>kv. dumps_str (fst kv) @ '': '' @ json_dumps (snd kv)) kvs) @ ''}''"

section \<open>The query builders\<close>

text \<open>\<open>rows[0] if rows else None\<close> after \<open>run_vql\<close>, the exception passing through.\<close>

definition first_row :: "(py_exc + json list) \<times> io_event list \<Rightarrow> (py_exc + json option) \<times> io_event list" where
  "first_row r =
     (case r of
       (Inl e, out) \<Rightarrow> (Inl e, out)
     | (Inr rows, out) \<Rightarrow> (Inr (if rows = [] then None else Some (hd rows)), out))"

text \<open>Lines 161--171.  \<open>int(limit)\<close> of an integer is the integer.\<close>

definition list_clients_query :: "int \<Rightarrow> pystr" where
  "list_clients_query limit =
     ''SELECT client_id, os_info.hostname AS hostname, '' @ ''os_info.system AS os, last_seen_at ''
     @ ''FROM clients() LIMIT '' @ py_str_int limit"

definition list_clients :: "velo_env \<Rightarrow> pystr option \<Rightarrow> int \<Rightarrow> (py_exc + json list) \<times> io_event list" where
  "list_clients w config_path limit = run_vql w (list_clients_query limit) [] config_path 600 1000"

text \<open>Lines 174--189: the YAML travels in the request's environment, not in the query text.\<close>

definition push_query :: pystr where
  "push_query = ''SELECT artifact_set(definition=ArtifactYAML) FROM scope()''"

definition push_artifact :: "velo_env \<Rightarrow> pystr \<Rightarrow> pystr option \<Rightarrow> (py_exc + json option) \<times> io_event list" where
  "push_artifact w yaml_content config_path =
     first_row (run_vql w push_query [(''ArtifactYAML'', yaml_content)] config_path 600 1000)"

text \<open>Lines 192--202: the name is pasted between double quotes.\<close>

definition delete_query :: "pystr \<Rightarrow> pystr" where
  "delete_query name = ''SELECT artifact_delete(name=\"'' @ name @ ''\") FROM scope()''"

definition delete_artifact :: "velo_env \<Rightarrow> pystr \<Rightarrow> pystr option \<Rightarrow> (py_exc + json option) \<times> io_event list" where
  "delete_artifact w name config_path = first_row (run_vql w (delete_query name) [] config_path 600 1000)"

text \<open>
  Lines 205--255.  The optional arguments are tested for truth, so \<open>None\<close>
  and an empty value are both the empty list here.  \<open>spec\<close> maps an artifact
  name to its parameters, in insertion order.
\<close>

definition hunt_spec_part :: "pystr \<times> (pystr \<times> json) list \<Rightarrow> pystr" where
  "hunt_spec_part ap =
     ''`'' @ fst ap @ ''`=dict('' @ py_join '', '' (map (\<lambda>kv. fst kv @ ''='' @ json_dumps (snd kv)) (snd ap)) @ '')''"

definition hunt_query ::
  "pystr \<Rightarrow> pystr list \<Rightarrow> (pystr \<times> (pystr \<times> json) list) list \<Rightarrow> pystr \<Rightarrow> pystr list \<Rightarrow> pystr list \<Rightarrow> pystr" where
  "hunt_query description artifacts spec os include_labels exclude_labels =
     (let parts = [''description='' @ dumps_str description,
                   ''artifacts='' @ json_dumps (JArr (map JStr artifacts))]
                  @ (if spec = [] then [] else [''spec=dict('' @ py_join '', '' (map hunt_spec_part spec) @ '')''])
                  @ (if os = [] then [] else [''os='' @ dumps_str os])
                  @ (if include_labels = [] then [] else [''include_labels='' @ json_dumps (JArr (map JStr include_labels))])
                  @ (if exclude_labels = [] then [] else [''exclude_labels='' @ json_dumps (JArr (map JStr exclude_labels))])
      in ''SELECT hunt('' @ py_join '', '' parts @ '') AS Hunt FROM scope()'')"

definition schedule_hunt ::
  "velo_env \<Rightarrow> pystr \<Rightarrow> pystr list \<Rightarrow> (pystr \<times> (pystr \<times> json) list) list \<Rightarrow> pystr \<Rightarrow> pystr list \<Rightarrow> pystr list
     \<Rightarrow> pystr option \<Rightarrow> (py_exc + json option) \<times> io_event list" where
  "schedule_hunt w description artifacts spec os include_labels exclude_labels config_path =
     first_row (run_vql w (hunt_query description artifacts spec os include_labels exclude_labels) [] config_path 600 1000)"

text \<open>Lines 258--270.\<close>

definition hunt_status_query :: "pystr \<Rightarrow> pystr" where
  "hunt_status_query hunt_id =
     ''SELECT HuntId, stats.total_clients_scheduled AS scheduled, ''
     @ ''stats.total_clients_with_results AS results, state ''
     @ ''FROM hunts() WHERE HuntId = \"'' @ hunt_id @ ''\"''"

definition get_hunt_status :: "velo_env \<Rightarrow> pystr \<Rightarrow> pystr option \<Rightarrow> (py_exc + json option) \<times> io_event list" where
  "get_hunt_status w hunt_id config_path = first_row (run_vql w (hunt_status_query hunt_id) [] config_path 600 1000)"

text \<open>Lines 273--289.\<close>

definition hunt_results_query :: "pystr \<Rightarrow> pystr \<Rightarrow> int \<Rightarrow> pystr" where
  "hunt_results_query hunt_id artifact limit =
     ''SELECT * FROM hunt_results(hunt_id=\"'' @ hunt_id @ ''\", ''
     @ ''artifact=\"'' @ artifact @ ''\") LIMIT '' @ py_str_int limit"

definition get_hunt_results ::
  "velo_env \<Rightarrow> pystr \<Rightarrow> pystr \<Rightarrow> int \<Rightarrow> pystr option \<Rightarrow> (py_exc + json list) \<times> io_event list" where
  "get_hunt_results w hunt_id artifact limit config_path =
     run_vql w (hunt_results_query hunt_id artifact limit) [] config_path 600 1000"

section \<open>Facts\<close>

subsection \<open>\<open>str(int)\<close> and the decoder's number scanner\<close>

lemma of_char_digit [simp]: "k < 10 \<Longrightarrow> of_char (char_of (48 + k)) = (48 + k :: nat)"
  by simp

lemma digit_chars: "''0123456789'' = map char_of [48..<58::nat]"
  by code_simp

lemma is_digit_char_of: "k < (10::nat) \<Longrightarrow> is_digit (char_of (48 + k))"
  unfolding is_digit_def digit_chars set_map by (rule imageI) (simp only: set_upt atLeastLessThan_iff; simp)

lemma dec_digits_ne [simp]: "dec_digits n \<noteq> []"
  by (subst dec_digits.simps) simp

lemma dec_digits_digit: "c \<in> set (dec_digits n) \<Longrightarrow> is_digit c"
proof (induction n rule: dec_digits.induct)
  case (1 n)
  show ?case
    using "1.prems" "1.IH" is_digit_char_of by (subst (asm) dec_digits.simps) (auto split: if_splits)
qed

lemma nat_of_digits_snoc: "nat_of_digits (xs @ [c]) = 10 * nat_of_digits xs + digit_val c"
  by (simp add: nat_of_digits_def)

lemma nat_of_digits_dec_digits: "nat_of_digits (dec_digits n) = n"
proof (induction n rule: dec_digits.induct)
  case (1 n)
  then show ?case
    by (subst dec_digits.simps) (simp add: nat_of_digits_snoc digit_val_def nat_of_digits_def)
qed

lemma dec_digits_hd: "0 < n \<Longrightarrow> hd (dec_digits n) \<noteq> CHR ''0''"
proof (induction n rule: dec_digits.induct)
  case (1 n)
  show ?case
  proof (cases "n < 10")
    case True
    have "char_of (48 + n) \<noteq> CHR ''0''"
    proof
      assume "char_of (48 + n) = CHR ''0''"
      then have "of_char (char_of (48 + n)) = (of_char CHR ''0'' :: nat)" by simp
      with True "1.prems" show False by simp
    qed
    with True show ?thesis by (subst dec_digits.simps) simp
  next
    case False
    then show ?thesis using "1.IH" [OF False] by (subst dec_digits.simps) simp
  qed
qed


lemma is_digit_not_special:
  "is_digit c \<Longrightarrow> c \<noteq> CHR ''\"'' \<and> c \<noteq> CHR ''{'' \<and> c \<noteq> CHR ''['' \<and> c \<noteq> CHR ''-''
                  \<and> c \<noteq> CHR ''I'' \<and> c \<noteq> CHR ''n'' \<and> c \<noteq> CHR ''t'' \<and> c \<noteq> CHR ''f'' \<and> c \<noteq> CHR ''N''
                  \<and> \<not> is_json_ws c"
  by (auto simp: is_digit_def is_json_ws_def)

lemma dec_digits_split:
  "\<exists>c cs. dec_digits n = c # cs \<and> is_digit c \<and> (\<forall>x\<in>set cs. is_digit x) \<and> (c = CHR ''0'' \<longrightarrow> n = 0 \<and> cs = [])"
proof -
  obtain c cs where dc: "dec_digits n = c # cs"
    by (cases "dec_digits n") simp_all
  have "c = CHR ''0'' \<longrightarrow> n = 0 \<and> cs = []"
  proof
    assume "c = CHR ''0''"
    then have n: "n = 0" using dec_digits_hd [of n] dc by (cases n) simp_all
    then show "n = 0 \<and> cs = []" using dc by (simp add: dec_digits.simps [of 0])
  qed
  then show ?thesis using dc dec_digits_digit [of _ n] by (auto simp: dc)
qed

lemma scan_number_lexeme:
  assumes "is_digit c" and "\<forall>x\<in>set cs. is_digit x" and "c = CHR ''0'' \<longrightarrow> cs = []"
    and "sg = [] \<or> sg = ''-''"
  shows "scan_number (sg @ c # cs) = DOk (JInt (int_of_lexeme (sg @ c # cs))) []"
proof -
  have tw: "takeWhile is_digit cs = cs" "dropWhile is_digit cs = []"
    using assms(2) by (simp_all add: takeWhile_eq_all_conv dropWhile_eq_Nil_conv)
  have "int_part (sg @ c # cs) = Some (sg @ c # cs, [])"
    using assms(1,3,4) tw is_digit_not_special [OF assms(1)] by (auto simp: int_part_def)
  then show ?thesis by (simp add: scan_number_def frac_part_def exp_part_def)
qed

lemma dec_digits_hd_not_minus: "hd (dec_digits n) \<noteq> CHR ''-''"
  using dec_digits_digit [OF hd_in_set [OF dec_digits_ne]] is_digit_not_special by blast

lemma int_of_lexeme_str_int: "int_of_lexeme (py_str_int i) = i"
  using dec_digits_hd_not_minus [of "nat i"]
  by (simp add: py_str_int_def int_of_lexeme_def nat_of_digits_dec_digits)

lemma py_str_int_split:
  "\<exists>sg c cs. py_str_int i = sg @ c # cs \<and> (sg = [] \<or> sg = ''-'') \<and>
     is_digit c \<and> (\<forall>x\<in>set cs. is_digit x) \<and> (c = CHR ''0'' \<longrightarrow> cs = [])"
proof (cases "i < 0")
  case True
  obtain c cs where "dec_digits (nat (- i)) = c # cs \<and> is_digit c \<and> (\<forall>x\<in>set cs. is_digit x) \<and> (c = CHR ''0'' \<longrightarrow> nat (- i) = 0 \<and> cs = [])"
    using dec_digits_split by blast
  with True show ?thesis by (intro exI [of _ "''-''"]) (simp add: py_str_int_def)
next
  case False
  obtain c cs where "dec_digits (nat i) = c # cs \<and> is_digit c \<and> (\<forall>x\<in>set cs. is_digit x) \<and> (c = CHR ''0'' \<longrightarrow> nat i = 0 \<and> cs = [])"
    using dec_digits_split by blast
  with False show ?thesis by (intro exI [of _ "[]"]) (simp add: py_str_int_def)
qed

lemma json_loads_str_int: "json_loads d (py_str_int i) = Inr (JInt i)"
proof -
  obtain sg c cs where s: "py_str_int i = sg @ c # cs" and sg: "sg = [] \<or> sg = ''-''"
    and c: "is_digit c" "\<forall>x\<in>set cs. is_digit x" "c = CHR ''0'' \<longrightarrow> cs = []"
    using py_str_int_split by blast
  have lit: "scan_literal (sg @ c # cs) = scan_number (sg @ c # cs)"
    using sg is_digit_not_special [OF c(1)] by (auto simp: scan_literal_def py_startswith_def)
  have "raw_decode d (sg @ c # cs) = DOk (JInt i) []"
    using sg is_digit_not_special [OF c(1)] lit scan_number_lexeme [OF c sg] int_of_lexeme_str_int [of i, unfolded s]
    by (auto simp: raw_decode_def json_fuel_def)
  moreover have "skip_ws (sg @ c # cs) = sg @ c # cs"
    using sg is_digit_not_special [OF c(1)] by (auto simp: is_json_ws_def)
  ultimately show ?thesis by (simp add: json_loads_def s)
qed

subsection \<open>\<open>json.dumps\<close> of a string and the decoder's string scanner\<close>

lemma hex_val_hex_digit: "k < 16 \<Longrightarrow> hex_val (hex_digit k) = Some k"
  by (simp add: hex_val_def hex_digit_def Let_def)

lemma hex_digits_value:
  "(u::nat) < 0x10000 \<Longrightarrow> 4096 * (u div 4096) + 256 * (u div 256 mod 16) + 16 * (u div 16 mod 16) + u mod 16 = u"
proof -
  have a: "16 * (u div 4096) + u div 256 mod 16 = u div 256" using div_mod_split [of u 16 256] by simp
  have b: "16 * (u div 256) + u div 16 mod 16 = u div 16" using div_mod_split [of u 16 16] by simp
  have c: "16 * (u div 16) + u mod 16 = u" by simp
  show ?thesis using a b c by linarith
qed

lemma hex4_u_escape: "u < 0x10000 \<Longrightarrow> hex4 (drop 2 (u_escape u) @ rest) = Some u"
  by (simp add: hex4_def u_escape_def hex_val_hex_digit hex_digits_value)


lemma u_escape_split: "u_escape u = CHR 0x5C # CHR ''u'' # drop 2 (u_escape u)" "length (drop 2 (u_escape u)) = 4"
  by (simp_all add: u_escape_def)

lemma u_escape_length [simp]: "length (u_escape u) = 6"
  by (simp add: u_escape_def)

lemma scan_str_u_escape:
  assumes "u < 0x10000" and "\<not> is_high_surrogate u"
  shows "scan_str acc (u_escape u @ rest) = scan_str (acc @ utf8_encode u) rest"
proof -
  have h: "hex4 (drop 2 (u_escape u) @ rest) = Some u" using hex4_u_escape [OF assms(1)] .
  have d: "drop 4 (drop 2 (u_escape u) @ rest) = rest" by simp
  show ?thesis
    using assms(2) h d by (subst u_escape_split(1)) (simp add: Let_def)
qed

lemma scan_str_u_escape_pair:
  assumes "0x10000 \<le> u" and "u < 0x110000"
  shows "scan_str acc (u_escape (0xD800 + (u - 0x10000) div 0x400) @ u_escape (0xDC00 + (u - 0x10000) mod 0x400) @ rest)
         = scan_str (acc @ utf8_encode u) rest"
proof -
  define hi where "hi = 0xD800 + (u - 0x10000) div 0x400"
  define lo where "lo = 0xDC00 + (u - 0x10000) mod 0x400"
  have hi: "hi < 0x10000" "is_high_surrogate hi" using assms by (auto simp: hi_def is_high_surrogate_def)
  have lo: "lo < 0x10000" "is_low_surrogate lo" by (auto simp: lo_def is_low_surrogate_def)
  have cp: "0x10000 + (hi - 0xD800) * 0x400 + (lo - 0xDC00) = u"
    using assms(1) by (simp add: hi_def lo_def)
  let ?r = "drop 2 (u_escape hi) @ u_escape lo @ rest"
  have h1: "hex4 ?r = Some hi" using hex4_u_escape [OF hi(1)] by simp
  have r1: "drop 4 ?r = u_escape lo @ rest" using u_escape_split(2) [of hi] by simp
  have t2: "take 2 (u_escape lo @ rest) = [CHR 0x5C, CHR ''u'']" by (simp add: u_escape_def)
  have h2: "hex4 (drop 2 (u_escape lo @ rest)) = Some lo" using hex4_u_escape [OF lo(1)] by simp
  have d6: "drop 6 (u_escape lo @ rest) = rest" by (simp add: u_escape_def)
  show ?thesis
    unfolding hi_def [symmetric] lo_def [symmetric]
    using h1 r1 t2 h2 d6 hi(2) lo(2) cp
    by (subst u_escape_split(1)) (simp add: Let_def)
qed


lemma char_of_escapes:
  "char_of (34::nat) = CHR 0x22" "char_of (92::nat) = CHR 0x5C" "char_of (8::nat) = CHR 0x08"
  "char_of (12::nat) = CHR 0x0C" "char_of (10::nat) = CHR 0x0A" "char_of (13::nat) = CHR 0x0D"
  "char_of (9::nat) = CHR 0x09"
  by (simp_all add: char_of_eq_iff)

lemma scan_str_escape_cp:
  assumes "is_scalar u"
  shows "scan_str acc (escape_cp u @ rest) = scan_str (acc @ utf8_encode u) rest"
proof -
  have u: "u < 0x110000" "\<not> (0xD800 \<le> u \<and> u \<le> 0xDFFF)" using assms by (auto simp: is_scalar_def)
  consider (plain) "0x20 \<le> u \<and> u \<le> 0x7E \<and> u \<noteq> 0x22 \<and> u \<noteq> 0x5C"
    | (short) "u \<in> {0x22, 0x5C, 0x08, 0x0C, 0x0A, 0x0D, 0x09}"
    | (bmp) "\<not> (0x20 \<le> u \<and> u \<le> 0x7E \<and> u \<noteq> 0x22 \<and> u \<noteq> 0x5C)" "u \<notin> {0x22, 0x5C, 0x08, 0x0C, 0x0A, 0x0D, 0x09}" "u < 0x10000"
    | (pair) "0x10000 \<le> u"
    by linarith
  then show ?thesis
  proof cases
    case plain
    then show ?thesis
      by (simp add: escape_cp_def utf8_encode_def utf8_bytes_def char_of_eq_iff take_bit_nat_eq_self)
  next
    case short
    then show ?thesis
      by (auto simp: escape_cp_def utf8_encode_def utf8_bytes_def escape_byte_def char_of_escapes)
  next
    case bmp
    then have "escape_cp u = u_escape u" by (auto simp: escape_cp_def)
    moreover have "\<not> is_high_surrogate u" using u by (auto simp: is_high_surrogate_def)
    ultimately show ?thesis using scan_str_u_escape [OF bmp(3)] by simp
  next
    case pair
    then have "escape_cp u = u_escape (0xD800 + (u - 0x10000) div 0x400) @ u_escape (0xDC00 + (u - 0x10000) mod 0x400)"
      by (simp add: escape_cp_def)
    then show ?thesis using scan_str_u_escape_pair [OF pair u(1)] by simp
  qed
qed

lemma scan_str_escape_cps:
  "\<forall>u\<in>set cps. is_scalar u \<Longrightarrow>
   scan_str acc (concat (map escape_cp cps) @ rest) = scan_str (acc @ str_of_cps cps) rest"
  by (induction cps arbitrary: acc) (simp_all add: str_of_cps_def scan_str_escape_cp)

lemma escape_groups_utf8_encode:
  "\<forall>u\<in>set cps. u < 0x110000 \<Longrightarrow>
   map (\<lambda>g. escape_cp (utf8_value (map of_char g))) (map utf8_encode cps) = map escape_cp cps"
  by (induction cps) (simp_all add: map_of_char_utf8_encode utf8_value_bytes)

lemma json_escape_str_of_cps:
  "\<forall>u\<in>set cps. is_scalar u \<Longrightarrow> json_escape (str_of_cps cps) = concat (map escape_cp cps)"
  unfolding json_escape_def
  by (subst code_points_str_of_cps, simp add: is_scalar_def)
     (simp add: escape_groups_utf8_encode is_scalar_def del: map_map)

lemma scan_str_dumps_str:
  "\<forall>u\<in>set cps. is_scalar u \<Longrightarrow> scan_str [] (tl (dumps_str (str_of_cps cps)) @ rest) = Some (str_of_cps cps, rest)"
  by (simp add: dumps_str_def json_escape_str_of_cps scan_str_escape_cps)

lemma json_loads_dumps_str:
  "\<forall>u\<in>set cps. is_scalar u \<Longrightarrow> json_loads d (dumps_str (str_of_cps cps)) = Inr (JStr (str_of_cps cps))"
  using scan_str_dumps_str [of cps "[]"]
  by (simp add: json_loads_def raw_decode_def json_fuel_def dumps_str_def scan_string_def is_json_ws_def)

subsection \<open>The request a builder sends\<close>

lemma first_row_snd [simp]: "snd (first_row r) = snd r"
  by (simp add: first_row_def split: prod.splits sum.splits)

lemma run_vql_snd [simp]: "snd (run_vql w q e p t m) = snd (run_vql_raw w q e p t m)"
  by (simp add: run_vql_def split: prod.splits)

section \<open>Properties\<close>

text \<open>
  \<open>json.loads(json.dumps(s)) == s\<close> for every Python string: the ASCII
  escaping of \<open>json.dumps\<close>, surrogate pairs above the BMP included, is
  undone exactly by the decoder.
\<close>

lemma json_dumps_str_roundtrip:
  assumes "\<forall>u\<in>set cps. is_scalar u"
  shows "json_loads d (json_dumps (JStr (str_of_cps cps))) = Inr (JStr (str_of_cps cps))"
  using json_loads_dumps_str [OF assms] by simp


text \<open>
  C23.  In the query of \<open>schedule_hunt\<close> the description cannot break out of
  its string literal: the literal opened after \<open>description=\<close> decodes to
  exactly the description and is followed by \<open>, artifacts=\<close>, whatever the
  description holds.
\<close>

theorem hunt_query_description_literal:
  assumes "\<forall>u\<in>set cps. is_scalar u"
  shows "\<exists>r. take 25 (hunt_query (str_of_cps cps) artifacts spec os include_labels exclude_labels)
               = ''SELECT hunt(description=\"''
           \<and> scan_str [] (drop 25 (hunt_query (str_of_cps cps) artifacts spec os include_labels exclude_labels))
               = Some (str_of_cps cps, '', artifacts='' @ r)"
proof -
  let ?s = "str_of_cps cps" and ?a = "json_dumps (JArr (map JStr artifacts))"
  have "\<exists>more. hunt_query ?s artifacts spec os include_labels exclude_labels
      = ''SELECT hunt('' @ py_join '', '' ((''description='' @ dumps_str ?s) # (''artifacts='' @ ?a) # more)
        @ '') AS Hunt FROM scope()''"
    by (intro exI) (simp add: hunt_query_def Let_def)
  then obtain more where h: "hunt_query ?s artifacts spec os include_labels exclude_labels
      = ''SELECT hunt('' @ py_join '', '' ((''description='' @ dumps_str ?s) # (''artifacts='' @ ?a) # more)
        @ '') AS Hunt FROM scope()''" ..
  obtain r where "py_join '', '' ((''artifacts='' @ ?a) # more) = (''artifacts='' @ ?a) @ r"
    using py_join_Cons_ex by blast
  then have q: "drop 25 (hunt_query ?s artifacts spec os include_labels exclude_labels)
                = tl (dumps_str ?s) @ '', artifacts='' @ ?a @ r @ '') AS Hunt FROM scope()''"
    and t: "take 25 (hunt_query ?s artifacts spec os include_labels exclude_labels) = ''SELECT hunt(description=\"''"
    using h by (simp_all only: py_join_Cons_Cons) (simp_all add: dumps_str_def)
  show ?thesis
    using scan_str_dumps_str [OF assms, of "'', artifacts='' @ ?a @ r @ '') AS Hunt FROM scope()''"] q t by simp
qed



section \<open>Witnesses\<close>

theorem hunt_query_description_literal_witness:
  "\<exists>r. take 25 (hunt_query (str_of_cps [34, 41, 0x1F600]) [''Generic.Client.Info''] [] [] [] [])
               = ''SELECT hunt(description=\"''
      \<and> scan_str [] (drop 25 (hunt_query (str_of_cps [34, 41, 0x1F600]) [''Generic.Client.Info''] [] [] [] []))
               = Some (str_of_cps [34, 41, 0x1F600], '', artifacts='' @ r)"
  by (rule hunt_query_description_literal) (simp add: is_scalar_def)

end
