(* ===== verification/Summary.thy ===== *)
theory Summary
  imports Parser Builders "HOL-Library.List_Lexorder" "HOL-Library.Multiset"
begin

text \<open>
  \<^verbatim>\<open>scripts/summarize_results.py\<close>, \<open>print_summary\<close> (lines 70--135) and
  the part of \<open>main\<close> that runs the parser and the printer (lines 184--185).
  What is printed is the list of the strings passed to \<open>print\<close>, in order;
  an exception stops the printer and keeps what was printed before it.
  Python's \<open>str()\<close> of a decoded value is a parameter \<open>py_str\<close> of the
  printer: it is a library function whose \<open>repr\<close> of nested values depends on
  Unicode tables, and every result below holds whatever it is.
\<close>

section \<open>Library helpers\<close>

text \<open>\<open>sorted()\<close> on strings compares code points lexicographically.\<close>

definition py_cp_key :: "pystr \<Rightarrow> codepoint list" where
  "py_cp_key s = map (\<lambda>g. utf8_value (map of_char g)) (code_points s)"

definition py_sorted :: "pystr list \<Rightarrow> pystr list" where
  "py_sorted xs = sort_key py_cp_key xs"

text \<open>\<open>collections.Counter\<close> over a sequence: values in order of first occurrence.\<close>

fun counter_add :: "pystr \<Rightarrow> (pystr \<times> nat) list \<Rightarrow> (pystr \<times> nat) list" where
  "counter_add v [] = [(v, 1)]"
| "counter_add v ((k, c) # kvs) = (if k = v then (k, Suc c) # kvs else (k, c) # counter_add v kvs)"

definition counter :: "pystr list \<Rightarrow> (pystr \<times> nat) list" where
  "counter xs = foldl (\<lambda>acc v. counter_add v acc) [] xs"

text \<open>\<open>Counter.most_common()\<close>: a stable sort by decreasing count.\<close>

definition most_common :: "(pystr \<times> nat) list \<Rightarrow> (pystr \<times> nat) list" where
  "most_common cs = sort_key (\<lambda>vc. - int (snd vc)) cs"

text \<open>\<open>json.dumps(v, indent=2)\<close>: separators \<open>","\<close> and \<open>": "\<close>, one item per line.\<close>

definition json_nl :: "nat \<Rightarrow> pystr" where
  "json_nl lvl = CHR 0x0A # replicate (2 * lvl) (CHR '' '')"

fun dumps_indent :: "nat \<Rightarrow> json \<Rightarrow> pystr" where
  "dumps_indent lvl (JArr xs) =
     (if xs = [] then ''[]''
      else CHR ''['' # json_nl (Suc lvl) @ py_join ('','' @ json_nl (Suc lvl)) (map (dumps_indent (Suc lvl)) xs)
           @ json_nl lvl @ '']'')"
| "dumps_indent lvl (JObj kvs) =
     (if kvs = [] then ''{}''
      else CHR ''{'' # json_nl (Suc lvl)
           @ py_join ('','' @ json_nl (Suc lvl)) (map (\<lambda>kv. dumps_str (fst kv) @ '': '' @ dumps_indent (Suc lvl) (snd kv)) kvs)
           @ json_nl lvl @ ''}'')"
| "dumps_indent lvl v = json_dumps v"

section \<open>The printer\<close>

record summary_args =
  arg_group_by :: "pystr list"
  arg_unique :: "pystr list"
  arg_sample :: int
  arg_errors :: bool
  arg_columns :: bool

fun is_dict :: "json \<Rightarrow> bool" where
  "is_dict (JObj kvs) = True"
| "is_dict _ = False"

text \<open>Lines 83--85: \<open>all_cols.update(r.keys())\<close>; a row that is not a dict has no \<open>keys\<close>.\<close>

fun collect_cols :: "json list \<Rightarrow> pystr list \<Rightarrow> py_exc + pystr list" where
  "collect_cols [] acc = Inr acc"
| "collect_cols (JObj kvs # rs) acc = collect_cols rs (remdups (acc @ map fst kvs))"
| "collect_cols (_ # rs) acc = Inl AttributeError"

text \<open>\<open>r.get(col, "")\<close>; every row is a dict once \<open>collect_cols\<close> has succeeded.\<close>

definition row_get :: "json \<Rightarrow> pystr \<Rightarrow> json" where
  "row_get r col = (case r of JObj kvs \<Rightarrow> (case map_of kvs col of Some v \<Rightarrow> v | None \<Rightarrow> JStr []) | _ \<Rightarrow> JStr [])"

text \<open>Lines 102 and 114: a label of more than \<open>n\<close> code points is cut to \<open>n - 3\<close> and \<open>"..."\<close>.\<close>

definition trunc_label :: "nat \<Rightarrow> pystr \<Rightarrow> pystr" where
  "trunc_label n v =
     (if length (code_points v) \<le> n then v else concat (take (n - 3) (code_points v)) @ ''...'')"

definition py_len_str :: "nat \<Rightarrow> pystr" where
  "py_len_str n = py_str_int (int n)"

text \<open>Lines 89--92.\<close>

definition column_lines :: "pystr list \<Rightarrow> pystr list \<Rightarrow> pystr list" where
  "column_lines visible hidden =
     (''\<newline>Columns: '' @ py_join '', '' visible)
     # (if hidden = [] then [] else [''Hidden:  '' @ py_join '', '' hidden])"

text \<open>Lines 95--103, for one column.\<close>

definition group_lines :: "(json \<Rightarrow> pystr) \<Rightarrow> json list \<Rightarrow> pystr list \<Rightarrow> pystr \<Rightarrow> pystr list" where
  "group_lines py_str rows all_cols col =
     (if col \<notin> set all_cols then [''\<newline>--group-by '' @ col @ '': column not found'']
      else (''\<newline>Group by '' @ col @ '':'')
           # map (\<lambda>vc. ''  '' @ trunc_label 80 (fst vc) @ '': '' @ py_len_str (snd vc))
                 (most_common (counter (map (\<lambda>r. py_str (row_get r col)) rows))))"

text \<open>Lines 106--117, for one column.\<close>

definition unique_lines :: "(json \<Rightarrow> pystr) \<Rightarrow> json list \<Rightarrow> pystr list \<Rightarrow> pystr \<Rightarrow> pystr list" where
  "unique_lines py_str rows all_cols col =
     (if col \<notin> set all_cols then [''\<newline>--unique '' @ col @ '': column not found'']
      else (let values = py_sorted (remdups (map (\<lambda>r. py_str (row_get r col)) rows)) in
            (''\<newline>Unique '' @ col @ '' ('' @ py_len_str (length values) @ ''):'')
            # map (\<lambda>v. ''  '' @ trunc_label 100 v) (take 25 values)
            @ (if 25 < length values then [''  ... and '' @ py_len_str (length values - 25) @ '' more''] else [])))"

text \<open>Lines 120--126: the rows shown without their hidden columns.\<close>

definition visible_items :: "json \<Rightarrow> (pystr \<times> json) list" where
  "visible_items r = (case r of JObj kvs \<Rightarrow> filter (\<lambda>kv. \<not> py_startswith (fst kv) ''_'') kvs | _ \<Rightarrow> [])"

definition sample_lines :: "json list \<Rightarrow> int \<Rightarrow> pystr list" where
  "sample_lines rows sample =
     (if 0 < sample then
        (let n = min (nat sample) (length rows) in
         (''\<newline>Sample ('' @ py_len_str n @ '' of '' @ py_len_str (length rows) @ ''):'')
         # map (\<lambda>r. dumps_indent 0 (JObj (visible_items r))) (take n rows))
      else [])"

text \<open>Lines 129--135.\<close>

definition error_detail_lines :: "pystr list \<Rightarrow> pystr list" where
  "error_detail_lines errors =
     (''\<newline>Error details ('' @ py_len_str (length errors) @ ''):'')
     # map (\<lambda>e. ''  '' @ e) (take 20 errors)
     @ (if 20 < length errors then [''  ... and '' @ py_len_str (length errors - 20) @ '' more''] else [])"

text \<open>Lines 70--135.\<close>

definition print_summary ::
  "(json \<Rightarrow> pystr) \<Rightarrow> json list \<Rightarrow> pystr list \<Rightarrow> summary_args \<Rightarrow> py_exc option \<times> pystr list" where
  "print_summary py_str rows errors args =
     (let header = [''Rows: '' @ py_len_str (length rows), ''Errors: '' @ py_len_str (length errors)] in
      if rows = [] then
        (None, header @ (if errors \<noteq> [] \<and> arg_errors args then ''\<newline>Error details:'' # map (\<lambda>e. ''  '' @ e) errors else []))
      else
        (case collect_cols rows [] of
          Inl e \<Rightarrow> (Some e, header)
        | Inr all_cols \<Rightarrow>
            (let visible = py_sorted (filter (\<lambda>c. \<not> py_startswith c ''_'') all_cols);
                 hidden = py_sorted (filter (\<lambda>c. py_startswith c ''_'') all_cols)
             in (None,
                 header
                 @ (if arg_columns args then column_lines visible hidden else [])
                 @ concat (map (group_lines py_str rows all_cols) (arg_group_by args))
                 @ concat (map (unique_lines py_str rows all_cols) (arg_unique args))
                 @ sample_lines rows (arg_sample args)
                 @ (if errors \<noteq> [] \<and> arg_errors args then error_detail_lines errors else [])))))"

text \<open>Lines 184--185: parse, then print.\<close>

definition summarize_main ::
  "(json \<Rightarrow> pystr) \<Rightarrow> nat \<Rightarrow> pystr \<Rightarrow> summary_args \<Rightarrow> py_exc option \<times> pystr list" where
  "summarize_main py_str d text args =
     (case parse_velo_output d text of
       Inl e \<Rightarrow> (Some e, [])
     | Inr (rows, errors) \<Rightarrow> print_summary py_str rows errors args)"

text \<open>Options for the witnesses: group by \<open>a\<close>, list the columns and the errors.\<close>

definition demo_args :: summary_args where
  "demo_args = \<lparr>arg_group_by = [''a''], arg_unique = [''a''], arg_sample = 0, arg_errors = True, arg_columns = True\<rparr>"

definition demo_rows :: "json list" where
  "demo_rows = [JObj [(''a'', JInt 1)], JObj [(''a'', JInt 2)], JObj [(''a'', JInt 1)]]"

section \<open>Facts\<close>

lemma counter_add_map:
  assumes "distinct us"
  shows "counter_add v (map (\<lambda>u. (u, f u)) us) =
           (if v \<in> set us then map (\<lambda>u. (u, if u = v then Suc (f u) else f u)) us
            else map (\<lambda>u. (u, f u)) us @ [(v, 1)])"
  using assms by (induction us) auto

lemma counter_eq: "counter xs = map (\<lambda>v. (v, count_list xs v)) (rev (remdups (rev xs)))"
proof (induction xs rule: rev_induct)
  case Nil
  then show ?case by (simp add: counter_def)
next
  case (snoc x xs)
  have c: "counter (xs @ [x]) = counter_add x (counter xs)" by (simp add: counter_def)
  show ?case
    unfolding c snoc.IH by (auto simp: counter_add_map intro!: map_cong)
qed

lemma most_common_counter:
  "set (most_common (counter xs)) = (\<lambda>v. (v, count_list xs v)) ` set xs"
  "distinct (map fst (most_common (counter xs)))"
  "sorted (map (\<lambda>vc. - int (snd vc)) (most_common (counter xs)))"
  "filter (\<lambda>vc. snd vc = k) (most_common (counter xs)) =
     filter (\<lambda>vc. snd vc = k) (map (\<lambda>v. (v, count_list xs v)) (rev (remdups (rev xs))))"
proof -
  let ?cs = "map (\<lambda>v. (v, count_list xs v)) (rev (remdups (rev xs)))"
  have m: "mset (most_common (counter xs)) = mset ?cs"
    by (simp add: most_common_def counter_eq)
  show "set (most_common (counter xs)) = (\<lambda>v. (v, count_list xs v)) ` set xs"
    using m by (metis set_mset_mset set_map set_remdups set_rev)
  have "mset (map fst (most_common (counter xs))) = mset (map fst ?cs)"
    using m by (metis mset_map)
  moreover have "map fst ?cs = rev (remdups (rev xs))" by (simp add: comp_def)
  ultimately show "distinct (map fst (most_common (counter xs)))"
    by (metis mset_eq_imp_distinct_iff distinct_remdups distinct_rev)
  show "sorted (map (\<lambda>vc. - int (snd vc)) (most_common (counter xs)))"
    by (simp add: most_common_def)
  have "filter (\<lambda>vc. - int (snd vc) = - int k) (most_common (counter xs)) =
        filter (\<lambda>vc. - int (snd vc) = - int k) ?cs"
    unfolding most_common_def counter_eq by (rule sort_key_stable)
  then show "filter (\<lambda>vc. snd vc = k) (most_common (counter xs)) = filter (\<lambda>vc. snd vc = k) ?cs"
    by simp
qed


lemma collect_cols_dicts: "list_all is_dict rows \<Longrightarrow> \<exists>cols. collect_cols rows acc = Inr cols"
proof (induction rows arbitrary: acc)
  case (Cons r rs)
  then show ?case by (cases r) auto
qed simp

lemma collect_cols_non_dict: "\<not> list_all is_dict rows \<Longrightarrow> collect_cols rows acc = Inl AttributeError"
proof (induction rows arbitrary: acc)
  case (Cons r rs)
  then show ?case by (cases r) auto
qed simp

section \<open>Properties\<close>

lemma print_summary_header_cases:
  "\<exists>more. print_summary py_str rows errors args =
     (fst (print_summary py_str rows errors args),
      [''Rows: '' @ py_len_str (length rows), ''Errors: '' @ py_len_str (length errors)] @ more)"
  by (auto simp: print_summary_def Let_def split: sum.splits)

text \<open>
  C26.  Whatever the rows, errors and options, and whether or not the printer
  raises, its first two lines are \<open>Rows: n\<close> and \<open>Errors: m\<close> with the
  numbers of rows and errors.
\<close>

theorem print_summary_header:
  "take 2 (snd (print_summary py_str rows errors args)) =
     [''Rows: '' @ py_len_str (length rows), ''Errors: '' @ py_len_str (length errors)]"
proof -
  obtain more where "print_summary py_str rows errors args =
     (fst (print_summary py_str rows errors args),
      [''Rows: '' @ py_len_str (length rows), ''Errors: '' @ py_len_str (length errors)] @ more)"
    using print_summary_header_cases by blast
  then have "snd (print_summary py_str rows errors args) =
      [''Rows: '' @ py_len_str (length rows), ''Errors: '' @ py_len_str (length errors)] @ more"
    by (metis snd_conv)
  then show ?thesis by simp
qed

text \<open>
  C27.  A row that is not a dict (a scalar or a list from a decoded array) makes
  \<open>print_summary\<close> raise \<open>AttributeError\<close> at \<open>r.keys()\<close>, after the two
  header lines.
\<close>

theorem print_summary_non_dict_row:
  assumes "rows \<noteq> []" and "\<not> list_all is_dict rows"
  shows "print_summary py_str rows errors args =
           (Some AttributeError, [''Rows: '' @ py_len_str (length rows), ''Errors: '' @ py_len_str (length errors)])"
  using assms by (simp add: print_summary_def collect_cols_non_dict)



text \<open>
  C29.  The \<open>--group-by\<close> section of an existing column lists every distinct
  value of the column once, with the number of rows that have it, by
  decreasing count, ties in order of first occurrence.
\<close>

theorem group_lines_counts:
  assumes "col \<in> set all_cols"
  shows "\<exists>L. group_lines py_str rows all_cols col =
               (''\<newline>Group by '' @ col @ '':'') # map (\<lambda>vc. ''  '' @ trunc_label 80 (fst vc) @ '': '' @ py_len_str (snd vc)) L
           \<and> set L = (\<lambda>v. (v, count_list (map (\<lambda>r. py_str (row_get r col)) rows) v)) ` set (map (\<lambda>r. py_str (row_get r col)) rows)
           \<and> distinct (map fst L) \<and> sorted (map (\<lambda>vc. - int (snd vc)) L)
           \<and> (\<forall>k. filter (\<lambda>vc. snd vc = k) L =
                   filter (\<lambda>vc. snd vc = k)
                     (map (\<lambda>v. (v, count_list (map (\<lambda>r. py_str (row_get r col)) rows) v))
                          (rev (remdups (rev (map (\<lambda>r. py_str (row_get r col)) rows))))))"
  using assms most_common_counter [where xs = "map (\<lambda>r. py_str (row_get r col)) rows"]
  by (intro exI [of _ "most_common (counter (map (\<lambda>r. py_str (row_get r col)) rows))"])
     (simp add: group_lines_def)

lemma utf8_encode_dot: "utf8_encode 46 = ''.''"
  by (simp add: utf8_encode_def utf8_bytes_def char_of_eq_iff)

text \<open>
  C30.  A printed label has at most \<open>n\<close> code points (80 for groups, 100 for
  unique values), and a value that fits is printed unchanged.
\<close>

theorem trunc_label_bound:
  assumes "3 \<le> n" and "\<forall>u\<in>set cps. u < 0x110000"
  shows "length (code_points (trunc_label n (str_of_cps cps))) \<le> n
         \<and> (length cps \<le> n \<longrightarrow> trunc_label n (str_of_cps cps) = str_of_cps cps)"
proof -
  have cp: "code_points (str_of_cps cps) = map utf8_encode cps"
    using assms(2) by (rule code_points_str_of_cps)
  show ?thesis
  proof (cases "length cps \<le> n")
    case True
    then show ?thesis by (simp add: trunc_label_def cp)
  next
    case False
    let ?c = "take (n - 3) cps @ [46, 46, 46]"
    have "trunc_label n (str_of_cps cps) = concat (take (n - 3) (map utf8_encode cps)) @ ''...''"
      using False by (simp add: trunc_label_def cp)
    also have "\<dots> = str_of_cps ?c"
      by (simp add: str_of_cps_def take_map utf8_encode_dot)
    finally have "trunc_label n (str_of_cps cps) = str_of_cps ?c" .
    moreover have "\<forall>u\<in>set ?c. u < 0x110000" using assms(2) by (auto dest: in_set_takeD)
    ultimately show ?thesis
      using False assms(1) by (simp add: code_points_str_of_cps)
  qed
qed

text \<open>
  C31.  The \<open>--unique\<close> section of an existing column lists the distinct
  values of the column in code point order, at most 25 of them, then at most
  one line for the rest.
\<close>

theorem unique_lines_sorted:
  assumes "col \<in> set all_cols"
  shows "\<exists>vs more. unique_lines py_str rows all_cols col =
              (''\<newline>Unique '' @ col @ '' ('' @ py_len_str (length vs) @ ''):'')
              # map (\<lambda>v. ''  '' @ trunc_label 100 v) (take 25 vs) @ more
           \<and> set vs = set (map (\<lambda>r. py_str (row_get r col)) rows) \<and> distinct vs
           \<and> sorted (map py_cp_key vs) \<and> length more \<le> 1
           \<and> length (unique_lines py_str rows all_cols col) \<le> 27"
proof -
  let ?vs = "py_sorted (remdups (map (\<lambda>r. py_str (row_get r col)) rows))"
  have d: "distinct ?vs"
    by (metis mset_eq_imp_distinct_iff distinct_remdups mset_sort py_sorted_def)
  have "set ?vs = set (map (\<lambda>r. py_str (row_get r col)) rows)" by (simp add: py_sorted_def)
  moreover have "sorted (map py_cp_key ?vs)" by (simp add: py_sorted_def)
  ultimately show ?thesis
    using assms d by (auto simp: unique_lines_def Let_def)
qed

section \<open>Witnesses\<close>

theorem print_summary_non_dict_row_witness:
  "print_summary json_dumps [JInt 1] [] demo_args = (Some AttributeError, [''Rows: 1'', ''Errors: 0''])"
proof -
  have "py_len_str (Suc 0) = ''1''" "py_len_str 0 = ''0''"
    by (simp_all add: py_len_str_def py_str_int_def dec_digits.simps char_of_eq_iff)
  then show ?thesis
    using print_summary_non_dict_row [of "[JInt 1]" json_dumps "[]" demo_args] by simp
qed

theorem group_lines_counts_witness:
  "\<exists>L. group_lines json_dumps demo_rows [''a''] ''a'' =
         (''\<newline>Group by '' @ ''a'' @ '':'') # map (\<lambda>vc. ''  '' @ trunc_label 80 (fst vc) @ '': '' @ py_len_str (snd vc)) L
     \<and> set L = (\<lambda>v. (v, count_list (map (\<lambda>r. json_dumps (row_get r ''a'')) demo_rows) v)) ` set (map (\<lambda>r. json_dumps (row_get r ''a'')) demo_rows)
     \<and> distinct (map fst L) \<and> sorted (map (\<lambda>vc. - int (snd vc)) L)
     \<and> (\<forall>k. filter (\<lambda>vc. snd vc = k) L =
             filter (\<lambda>vc. snd vc = k)
               (map (\<lambda>v. (v, count_list (map (\<lambda>r. json_dumps (row_get r ''a'')) demo_rows) v))
                    (rev (remdups (rev (map (\<lambda>r. json_dumps (row_get r ''a'')) demo_rows))))))"
  by (rule group_lines_counts) simp

theorem trunc_label_bound_witness:
  "length (code_points (trunc_label 5 (str_of_cps [104, 101, 108, 108, 111, 33, 33]))) \<le> 5
   \<and> trunc_label 5 (str_of_cps [104, 105]) = str_of_cps [104, 105]"
  using trunc_label_bound [of 5 "[104, 101, 108, 108, 111, 33, 33]"] trunc_label_bound [of 5 "[104, 105]"]
  by simp

theorem unique_lines_sorted_witness:
  "\<exists>vs more. unique_lines json_dumps demo_rows [''a''] ''a'' =
        (''\<newline>Unique '' @ ''a'' @ '' ('' @ py_len_str (length vs) @ ''):'')
        # map (\<lambda>v. ''  '' @ trunc_label 100 v) (take 25 vs) @ more
     \<and> set vs = set (map (\<lambda>r. json_dumps (row_get r ''a'')) demo_rows) \<and> distinct vs
     \<and> sorted (map py_cp_key vs) \<and> length more \<le> 1
     \<and> length (unique_lines json_dumps demo_rows [''a''] ''a'') \<le> 27"
  by (rule unique_lines_sorted) simp

end
