(* ===== verification/Cli.thy ===== *)
theory Cli
  imports Summary
begin

text \<open>
  \<^verbatim>\<open>scripts/velo_api.py\<close>, \<open>_cli_main\<close> (lines 326--372): the
  \<open>--env KEY=VALUE\<close> items become a dict, the query runs through \<open>run_vql\<close>,
  and the rows are printed as \<open>json.dumps(rows, indent=2)\<close>.  The outcome
  records what the process does at its end: print the rows and exit 0, stop
  in \<open>parser.error\<close> (exit 2), print \<open>Error: e\<close> for a \<open>VeloAPIError\<close>
  (exit 1), or die with the traceback of another exception (exit 1).  The
  text of \<open>Error: e\<close> is represented by the exception itself.
\<close>

record cli_args =
  cli_query :: pystr
  cli_env :: "pystr list"
  cli_config :: "pystr option"
  cli_timeout :: nat
  cli_max_row :: nat

datatype cli_outcome =
    CliOk pystr
  | CliUsageError pystr
  | CliVeloError py_exc
  | CliUncaught py_exc

text \<open>Line 358: \<open>item.split("=", 1)\<close>, after the test of line 356.\<close>

definition split_env_item :: "pystr \<Rightarrow> (pystr \<times> pystr) option" where
  "split_env_item item =
     (if CHR ''='' \<notin> set item then None
      else Some (takeWhile (\<lambda>c. c \<noteq> CHR ''='') item, tl (dropWhile (\<lambda>c. c \<noteq> CHR ''='') item)))"

text \<open>Line 359: \<open>env[k] = v\<close> on a dict: a new key goes last, an existing one keeps its place.\<close>

definition env_put :: "(pystr \<times> pystr) list \<Rightarrow> pystr \<Rightarrow> pystr \<Rightarrow> (pystr \<times> pystr) list" where
  "env_put env k v =
     (if k \<in> set (map fst env) then map (\<lambda>kv. if fst kv = k then (k, v) else kv) env else env @ [(k, v)])"

text \<open>Lines 354--359; the first malformed item stops the process in \<open>parser.error\<close>.\<close>

fun parse_env :: "pystr list \<Rightarrow> (pystr \<times> pystr) list \<Rightarrow> pystr + (pystr \<times> pystr) list" where
  "parse_env [] env = Inr env"
| "parse_env (item # items) env =
     (case split_env_item item of
       None \<Rightarrow> Inl item
     | Some (k, v) \<Rightarrow> parse_env items (env_put env k v))"

text \<open>Lines 361--372.  \<open>env or None\<close> sends no entries either way.\<close>

definition cli_main :: "velo_env \<Rightarrow> cli_args \<Rightarrow> cli_outcome \<times> io_event list" where
  "cli_main w args =
     (case parse_env (cli_env args) [] of
       Inl item \<Rightarrow> (CliUsageError item, [])
     | Inr env \<Rightarrow>
         (let (res, out) = run_vql w (cli_query args) env (cli_config args) (cli_timeout args) (cli_max_row args)
          in (case res of
                Inr rows \<Rightarrow> CliOk (dumps_indent 0 (JArr rows))
              | Inl e \<Rightarrow> if is_velo_api_error e then CliVeloError e else CliUncaught e, out)))"

text \<open>The exit status of each outcome (\<open>parser.error\<close> exits with 2, \<open>sys.exit(1)\<close>, an uncaught exception 1).\<close>

fun cli_exit_code :: "cli_outcome \<Rightarrow> nat" where
  "cli_exit_code (CliOk _) = 0"
| "cli_exit_code (CliUsageError _) = 2"
| "cli_exit_code (CliVeloError _) = 1"
| "cli_exit_code (CliUncaught _) = 1"

text \<open>How a caller writes the \<open>--env\<close> items of a dict.\<close>

definition env_items :: "(pystr \<times> pystr) list \<Rightarrow> pystr list" where
  "env_items kvs = map (\<lambda>kv. fst kv @ ''='' @ snd kv) kvs"

text \<open>
  The reference reading of the \<open>--env\<close> items: a map updated by each
  well-formed item in turn, the last assignment to a key winning.
\<close>

definition env_ref :: "pystr list \<Rightarrow> pystr \<rightharpoonup> pystr" where
  "env_ref items = foldl (\<lambda>m item. case split_env_item item of None \<Rightarrow> m | Some (k, v) \<Rightarrow> m(k \<mapsto> v)) Map.empty items"

definition demo_cli :: "pystr list \<Rightarrow> cli_args" where
  "demo_cli items = \<lparr>cli_query = ''SELECT 1'', cli_env = items, cli_config = None, cli_timeout = 600, cli_max_row = 1000\<rparr>"

section \<open>Facts\<close>

lemma split_at_eq:
  "CHR ''='' \<notin> set k \<Longrightarrow>
   takeWhile (\<lambda>c. c \<noteq> CHR ''='') (k @ CHR ''='' # v) = k \<and> dropWhile (\<lambda>c. c \<noteq> CHR ''='') (k @ CHR ''='' # v) = CHR ''='' # v"
  by (induction k) auto

lemma split_env_item_kv:
  "CHR ''='' \<notin> set k \<Longrightarrow> split_env_item (k @ CHR ''='' # v) = Some (k, v)"
  by (simp add: split_env_item_def split_at_eq)

lemma env_put_new: "k \<notin> set (map fst env) \<Longrightarrow> env_put env k v = env @ [(k, v)]"
  by (simp add: env_put_def)

lemma parse_env_items:
  assumes "distinct (map fst kvs)" and "\<forall>kv\<in>set kvs. CHR ''='' \<notin> set (fst kv)"
    and "set (map fst kvs) \<inter> set (map fst env) = {}"
  shows "parse_env (env_items kvs) env = Inr (env @ kvs)"
  using assms
proof (induction kvs arbitrary: env)
  case (Cons kv kvs)
  obtain k v where kv: "kv = (k, v)" by fastforce
  have "parse_env (env_items (kv # kvs)) env = parse_env (env_items kvs) (env @ [(k, v)])"
    using Cons.prems by (simp add: env_items_def kv split_env_item_kv env_put_new)
  also have "\<dots> = Inr ((env @ [(k, v)]) @ kvs)"
    using Cons.prems by (intro Cons.IH) (auto simp: kv)
  finally show ?case by (simp add: kv)
qed (simp add: env_items_def)

lemma map_of_replace:
  "map_of (map (\<lambda>kv. if fst kv = k then (k, v) else kv) env) = (if k \<in> fst ` set env then (map_of env)(k \<mapsto> v) else map_of env)"
  by (induction env) (auto simp: fun_eq_iff)

lemma map_fst_replace: "map fst (map (\<lambda>kv. if fst kv = k then (k, v) else kv) env) = map fst env"
  by (induction env) auto

lemma map_of_env_put: "map_of (env_put env k v) = (map_of env)(k \<mapsto> v)"
proof (cases "k \<in> set (map fst env)")
  case True
  then show ?thesis by (simp add: env_put_def map_of_replace)
next
  case False
  then have "map_of env k = None" by (simp add: map_of_eq_None_iff)
  with False show ?thesis by (auto simp: env_put_def fun_eq_iff map_add_def split: option.splits)
qed

lemma distinct_env_put: "distinct (map fst env) \<Longrightarrow> distinct (map fst (env_put env k v))"
  by (auto simp: env_put_def map_fst_replace simp del: map_map)

lemma parse_env_ref:
  "parse_env items env0 = Inr env \<Longrightarrow> distinct (map fst env0) \<Longrightarrow>
   distinct (map fst env) \<and>
   map_of env = foldl (\<lambda>m item. case split_env_item item of None \<Rightarrow> m | Some (k, v) \<Rightarrow> m(k \<mapsto> v)) (map_of env0) items"
proof (induction items arbitrary: env0)
  case (Cons item items)
  then obtain k v where kv: "split_env_item item = Some (k, v)"
    by (cases "split_env_item item") auto
  have p: "parse_env items (env_put env0 k v) = Inr env" using Cons.prems(1) kv by simp
  have "distinct (map fst (env_put env0 k v))" using Cons.prems(2) by (rule distinct_env_put)
  with p have "distinct (map fst env) \<and>
      map_of env = foldl (\<lambda>m item. case split_env_item item of None \<Rightarrow> m | Some (k, v) \<Rightarrow> m(k \<mapsto> v))
                     (map_of (env_put env0 k v)) items"
    by (rule Cons.IH)
  then show ?case using kv by (simp add: map_of_env_put del: fun_upd_apply)
qed simp

lemma parse_env_Inl: "parse_env items env0 = Inl bad \<Longrightarrow> bad \<in> set items \<and> CHR ''='' \<notin> set bad"
proof (induction items arbitrary: env0)
  case (Cons item items)
  then show ?case by (auto simp: split_env_item_def split: if_splits)
qed simp

lemma parse_env_bad: "\<not> list_all (\<lambda>i. CHR ''='' \<in> set i) items \<Longrightarrow> \<exists>bad. parse_env items env0 = Inl bad"
proof (induction items arbitrary: env0)
  case (Cons item items)
  then show ?case by (auto simp: split_env_item_def split: option.splits)
qed simp

section \<open>Properties\<close>

text \<open>
  C32.  Round trip of the \<open>--env\<close> items: a dict whose keys are distinct and
  hold no \<open>=\<close>, written as \<open>KEY=VALUE\<close> items, is read back exactly, in
  order, whatever its values hold (a value may contain \<open>=\<close>).
\<close>

theorem cli_env_roundtrip:
  assumes "distinct (map fst kvs)" and "\<forall>kv\<in>set kvs. CHR ''='' \<notin> set (fst kv)"
  shows "parse_env (env_items kvs) [] = Inr kvs"
  using parse_env_items [OF assms] by simp

text \<open>
  C33.  Equivalence of the dict the command line builds with the reference
  reading: when every item is well-formed, the association list has distinct
  keys and maps each key to the value of its last item.
\<close>

theorem cli_env_reference:
  "parse_env items [] = Inr env \<Longrightarrow> distinct (map fst env) \<and> map_of env = env_ref items"
  using parse_env_ref [of items "[]" env] by (simp add: env_ref_def)

text \<open>
  C34.  An \<open>--env\<close> item without \<open>=\<close> stops the command in \<open>parser.error\<close>
  (exit status 2) naming such an item, before any configuration is read or
  channel opened.
\<close>

theorem cli_usage_error:
  assumes "\<not> list_all (\<lambda>i. CHR ''='' \<in> set i) (cli_env args)"
  shows "\<exists>bad. cli_main w args = (CliUsageError bad, []) \<and> bad \<in> set (cli_env args) \<and> CHR ''='' \<notin> set bad
               \<and> cli_exit_code (CliUsageError bad) = 2"
proof -
  obtain bad where b: "parse_env (cli_env args) [] = Inl bad" using parse_env_bad [OF assms] by blast
  then show ?thesis using parse_env_Inl [OF b] by (simp add: cli_main_def)
qed

text \<open>
  C35.  The dict given with \<open>--env\<close> reaches the server unchanged: the one
  request the command sends carries the query and exactly the given variables,
  on a channel opened once and closed last.
\<close>

theorem cli_request_env:
  assumes "cli_env args = env_items kvs" and "distinct (map fst kvs)" and "\<forall>kv\<in>set kvs. CHR ''='' \<notin> set (fst kv)"
  shows "snd (cli_main w args) = [] \<or>
         (\<exists>ch mid. snd (cli_main w args) =
             ChannelOpened ch # QuerySent (build_request (cli_query args) kvs (cli_max_row args)) (cli_timeout args)
             # mid @ [ChannelClosed] \<and> list_all is_stderr mid)"
proof -
  have pe: "parse_env (cli_env args) [] = Inr kvs" using parse_env_items [OF assms(2,3), of "[]"] assms(1) by simp
  obtain res out where r: "run_vql w (cli_query args) kvs (cli_config args) (cli_timeout args) (cli_max_row args) = (res, out)"
    by fastforce
  then have "snd (cli_main w args) = out" using pe by (simp add: cli_main_def split: sum.splits)
  moreover have "out = snd (run_vql_raw w (cli_query args) kvs (cli_config args) (cli_timeout args) (cli_max_row args))"
    using r run_vql_snd by (metis snd_conv)
  ultimately show ?thesis using run_vql_raw_trace by metis
qed

section \<open>Witnesses\<close>

theorem cli_env_roundtrip_witness:
  "parse_env (env_items [(''A'', ''1''), (''B'', ''x=y'')]) [] = Inr [(''A'', ''1''), (''B'', ''x=y'')]"
  by (rule cli_env_roundtrip) simp_all

theorem cli_env_reference_witness:
  "distinct (map fst [(''A'', ''3''), (''B'', ''2'')]) \<and> map_of [(''A'', ''3''), (''B'', ''2'')] = env_ref [''A=1'', ''B=2'', ''A=3'']"
proof -
  have "parse_env [''A=1'', ''B=2'', ''A=3''] [] = Inr [(''A'', ''3''), (''B'', ''2'')]"
    by code_simp
  then show ?thesis by (rule cli_env_reference)
qed

theorem cli_usage_error_witness:
  "\<exists>bad. cli_main (demo_env (demo_ok, StreamClosed)) (demo_cli [''A=1'', ''BAD'']) = (CliUsageError bad, [])
      \<and> bad \<in> set (cli_env (demo_cli [''A=1'', ''BAD''])) \<and> CHR ''='' \<notin> set bad
      \<and> cli_exit_code (CliUsageError bad) = 2"
  by (rule cli_usage_error) (simp add: demo_cli_def)

theorem cli_request_env_witness:
  "snd (cli_main (demo_env (demo_ok, StreamClosed)) (demo_cli (env_items [(''A'', ''1'')]))) = [] \<or>
   (\<exists>ch mid. snd (cli_main (demo_env (demo_ok, StreamClosed)) (demo_cli (env_items [(''A'', ''1'')]))) =
       ChannelOpened ch # QuerySent (build_request (cli_query (demo_cli (env_items [(''A'', ''1'')]))) [(''A'', ''1'')]
                                       (cli_max_row (demo_cli (env_items [(''A'', ''1'')]))))
                                    (cli_timeout (demo_cli (env_items [(''A'', ''1'')])))
       # mid @ [ChannelClosed] \<and> list_all is_stderr mid)"
  by (rule cli_request_env) (simp_all add: demo_cli_def)

end
