(* ===== verification/Spec2Isabelle.thy ===== *)
theory Spec2Isabelle
  imports Parser Poller Builders Summary Cli
begin

text \<open>
  \<^bold>\<open>A verification model of the Velociraptor workspace helpers.\<close>

  The repository has two Python scripts under \<^verbatim>\<open>src/scripts\<close>:
  \<^item> \<^verbatim>\<open>summarize_results.py\<close>: \<open>parse_velo_output\<close> turns the text that
    \<^verbatim>\<open>velociraptor artifacts collect\<close> writes (JSON arrays concatenated with no
    delimiter, \<open>[ERROR]\<close> lines mixed in) into rows and error lines;
    \<open>print_summary\<close> and \<open>main\<close> print statistics about them.
  \<^item> \<^verbatim>\<open>velo_api.py\<close>: \<open>run_vql_raw\<close> runs one streaming gRPC query and
    folds its responses into rows and log lines, classifying failures as
    \<open>VeloConnectionError\<close>, \<open>VeloPermissionError\<close> or \<open>VeloAPIError\<close>;
    \<open>run_vql\<close> drops the logs; \<open>poll_until\<close> repeats a query until a
    predicate accepts the rows or a deadline passes; the convenience functions
    format VQL queries over \<open>run_vql\<close>; \<open>_cli_main\<close> is the command line.
  Both ingestion paths decode JSON with Python's \<open>json\<close> module and split
  text with Python's \<open>str\<close> methods; their behaviour decides what the
  repository's code does, so they are modelled too.

  \<^bold>\<open>Theories.\<close>
  \<^item> \<open>Prelude\<close>: the model's type names (\<open>pystr\<close>: a Python \<open>str\<close> as its
    UTF-8 bytes), the exception type \<open>py_exc\<close> (the classes of
    \<^verbatim>\<open>velo_api.py\<close> lines 42--49 and the builtin exceptions the code lets
    escape), the \<open>consumes\<close> collection and generic suffix lemmas.
  \<^item> \<open>PyStr\<close>: \<open>str.strip\<close>, \<open>str.splitlines\<close>, \<open>str.startswith\<close>,
    \<open>in\<close> and \<open>str.join\<close> over code points (\<open>code_points\<close> regroups the
    UTF-8 bytes), with Python's whitespace and line-boundary sets.
  \<^item> \<open>Json\<close>: the CPython 3.11 JSON scanner (\<open>scan_once\<close>, \<open>parse_array\<close>,
    \<open>parse_object\<close>, \<open>scan_str\<close>, \<open>scan_number\<close>), \<open>raw_decode\<close> and
    \<open>json_loads\<close>.  The scanner is mutually recursive and its recursion is on
    the rest of the input, so it is defined with fuel; \<open>raw_decode\<close> gives it
    \<open>2 * length s + 1\<close>, and \<open>raw_decode_not_DFuel\<close> proves this is always
    enough (every call consumes a byte or hands its input to one that does).
    The scanner's recursion check (\<open>_Py_EnterRecursiveCall\<close>) is the
    allowance \<open>d\<close>: entering an array or object with none left raises
    \<open>RecursionError\<close>; \<open>raw_decode_DRec\<close> shows that needs more than \<open>d\<close>
    opening brackets.  Every successful scan returns a strict suffix of its
    input (\<open>scan_once_suffix\<close>).
  \<^item> \<open>Parser\<close>: \<open>parse_velo_output\<close>: \<open>split_error_lines\<close> (lines 37--42),
    \<open>rows_of\<close> (58--61) and the scanning loop \<open>scan_rows\<close> (46--65), whose
    position is held as the suffix of the cleaned text it has reached; its
    termination follows from the suffix lemma.
  \<^item> \<open>Client\<close>: \<open>run_vql_raw\<close> and \<open>run_vql\<close> of \<^verbatim>\<open>velo_api.py\<close>.  The
    world is a record \<open>velo_env\<close>: the configuration loader
    (\<open>pyvelociraptor.LoadConfigFile\<close>), the server (the responses it streams for
    a target, request and timeout, and whether the stream ends normally or with
    \<open>grpc.RpcError\<close>) and the recursion allowance of \<open>json.loads\<close>.  The
    response loop (lines 105--115) is \<open>consume\<close> over a state record
    \<open>client_acc\<close> (rows, logs, output events); \<open>stream_call\<close> is the
    \<open>with\<close> block (lines 100--117), \<open>classify\<close> the checks of lines
    119--132.  Effects are an \<open>io_event\<close> trace: channel opened, query sent,
    each \<open>[velo]\<close> stderr line, channel closed.
  \<^item> \<open>Poller\<close>: \<open>poll_until\<close> (lines 292--319) over an integer clock.  The
    \<open>k\<close>-th attempt runs \<open>run_vql\<close> in the world \<open>pe_world pe k\<close> and takes
    \<open>pe_duration pe k\<close> seconds; \<open>poll_attempt\<close> is the \<open>try\<close> of lines
    307--310; the loop \<open>poll_loop\<close> is a \<open>partial_function (option)\<close>
    because the code has no bound of its own.
  \<^item> \<open>Builders\<close>: the convenience functions (lines 161--289).  Each query
    formatter is its own definition (\<open>list_clients_query\<close>,
    \<open>delete_query\<close>, \<open>hunt_query\<close>, \<open>hunt_status_query\<close>,
    \<open>hunt_results_query\<close>; \<open>push_query\<close> is fixed) and each builder runs
    it with \<open>run_vql\<close>, those returning one row through \<open>first_row\<close>.
    Python's \<open>str(int)\<close> (\<open>py_str_int\<close>) and \<open>json.dumps\<close>
    (\<open>json_dumps\<close>, \<open>dumps_str\<close>: ASCII escaping with surrogate pairs)
    are modelled from the library's documented behaviour.  A Python string of
    valid text is \<open>str_of_cps cps\<close> for its scalar values \<open>cps\<close>
    (in \<open>PyStr\<close>).
  \<^item> \<open>Summary\<close>: \<open>print_summary\<close> of \<^verbatim>\<open>summarize_results.py\<close> (lines
    70--135) and its call from \<open>main\<close> after the parser
    (\<open>summarize_main\<close>, lines 184--185).  The output is the list of strings
    passed to \<open>print\<close>; an exception ends it.  Each section of the printer is
    a definition (\<open>column_lines\<close>, \<open>group_lines\<close>, \<open>unique_lines\<close>,
    \<open>sample_lines\<close>, \<open>error_detail_lines\<close>); \<open>collections.Counter\<close>,
    \<open>sorted\<close> on strings and \<open>json.dumps(indent=2)\<close> are modelled from the
    library's documentation.  Python's \<open>str()\<close> of a row value is a
    parameter \<open>py_str\<close>, so the printer's results hold for any of them.
  \<^item> \<open>Cli\<close>: \<open>_cli_main\<close> of \<^verbatim>\<open>velo_api.py\<close> (lines 326--372) over
    an argument record \<open>cli_args\<close>: the \<open>--env KEY=VALUE\<close> items are split
    at the first \<open>=\<close> (\<open>split_env_item\<close>) into a dict (\<open>env_put\<close>,
    \<open>parse_env\<close>), the query runs through \<open>run_vql\<close>, and the outcome
    (\<open>cli_outcome\<close>) is the printed rows, the usage error, the printed
    \<open>VeloAPIError\<close> or an uncaught exception, with \<open>cli_exit_code\<close>.

  \<^bold>\<open>What is proved.\<close>  For the parser: it is total on texts whose
  opening brackets do not exceed the recursion allowance (C1); the only
  exception that can escape is \<open>RecursionError\<close> (C2), which does escape on
  deeply nested input although the function is meant never to fail; the error
  list is the stripped \<open>[ERROR]\<close> lines in order (C3, C4).  For the client:
  the success path returns every row and log line in stream order (C5);
  permission denial is checked before the no-rows test (C6); no rows with
  \<open>ERROR:\<close> lines is a \<open>VeloAPIError\<close> (C7); a transport failure is a
  \<open>VeloConnectionError\<close> (C8); the channel is opened at most once and closed
  last on every path (C9); a bad payload escapes as a non-Velo exception
  (C10); a configuration that fails to load, or lacks a key, raises before any
  channel is opened (C11, C12); the response loop refines the abstract reading
  of the stream (C13).  For the poller: it terminates when time advances
  (C14); accepted rows satisfy the predicate (C15); it returns by the deadline
  plus the longest query (C16), and no earlier bound holds (C21); every
  \<open>VeloAPIError\<close>, not only query failures, is swallowed (C17); other
  exceptions escape (C18); a failed attempt is offered to the predicate as
  \<open>[]\<close> (C19); scenario 5 of the specification runs as specified (C20).
  For the builders: the \<open>LIMIT\<close> of \<open>list_clients\<close> reads back as the
  limit (C22); the hunt description cannot leave its string literal, because
  \<open>json.loads\<close> inverts \<open>json.dumps\<close> on every string
  (\<open>json_dumps_str_roundtrip\<close>) (C23), while a name given to
  \<open>delete_artifact\<close> can (C24); the artifact YAML of \<open>push_artifact\<close>
  travels only in the request's environment (C25).  For the summary printer:
  its first two lines are always the row and error counts (C26); a row that
  is not a dict makes it raise \<open>AttributeError\<close> (C27), which happens on
  parser output as simple as \<open>[1, {"a": 2}]\<close> (C28); the group-by section
  is an exact, decreasing count of the column's values (C29); labels are cut
  to 80 or 100 code points (C30); the unique section is sorted, distinct and
  capped at 25 values (C31).  For the command line: \<open>--env\<close> items written
  from a dict read back exactly (C32); the dict built equals the reference
  reading by map updates, last item winning (C33); a malformed item stops
  the command with status 2 before anything is opened (C34); the parsed
  variables reach the request unchanged (C35).  Across components: every row
  the parser returns is a well-formed value whose objects have distinct keys,
  as the decoder's dict assignment guarantees (C36); the poller, once an
  attempt is accepted within the deadline, returns it after exactly as many
  full sleeps as rejected attempts (C37).

  \<^bold>\<open>Bounds and fuel.\<close>  The JSON fuel is \<open>2 * length s + 1\<close>, proved
  sufficient.  The recursion allowance \<open>d\<close> is a parameter: under CPython
  3.11 with the default limit of 1000 it is about 995 for
  \<open>parse_velo_output\<close> called from \<open>main\<close>; the witnesses use small values
  so that they evaluate.  The poll loop has no fuel: \<open>poll_until_returns\<close>
  proves it returns, by induction on the time left to the deadline.

  \<^bold>\<open>Not modelled.\<close>  \<open>argparse\<close> itself (the argument record is
  taken as parsed) and the file or stdin reading of \<open>main\<close>; the text
  rendering of exceptions in \<open>Error: e\<close>; Python's \<open>str()\<close> of nested values,
  left as a parameter of the printer; the gRPC
  transport and TLS set-up (\<open>grpc.ssl_channel_credentials\<close>, the stub), which
  are the environment of the client and appear only as the \<open>channel\<close>
  record the client builds and the \<open>env_server\<close> function it calls.
\<close>

end
